(* ===== verification/Prelude.thy ===== *)
theory Prelude
  imports Main "HOL-Library.AList" "HOL-Library.Product_Lexorder" "HOL-Library.List_Lexorder"
    "HOL-Library.Char_ord"
begin

text \<open>
  Shared vocabulary of the development: instants, keyed tables and filtered sums, with the
  generic lemmas the component theories use.

  \<^item> An instant (Python's aware \<open>datetime\<close>) is the number of microseconds since the
    epoch, in UTC; a \<open>timedelta\<close> is a number of microseconds.
  \<^item> A SQL table with a primary key that the code upserts is an association list whose keys
    are distinct; other tables are lists of rows in insertion order.
  \<^item> \<open>sum_where P q xs\<close> is SQL's \<open>COALESCE(sum(q), 0) ... WHERE P\<close>.
\<close>

type_synonym instant = int
type_synonym uuid = string

abbreviation microseconds_per_second :: int where
  "microseconds_per_second \<equiv> 1000000"

definition seconds :: "int \<Rightarrow> int" where
  "seconds n = n * microseconds_per_second"

definition days :: "int \<Rightarrow> int" where
  "days n = seconds (n * 86400)"

lemma seconds_mono [simp]: "seconds a \<le> seconds b \<longleftrightarrow> a \<le> b"
  by (simp add: seconds_def)

lemma seconds_pos [simp]: "0 < seconds a \<longleftrightarrow> 0 < a"
  by (simp add: seconds_def)

lemma seconds_nonneg [simp]: "0 \<le> seconds a \<longleftrightarrow> 0 \<le> a"
  by (simp add: seconds_def)

lemma days_pos [simp]: "0 < days a \<longleftrightarrow> 0 < a"
  by (simp add: days_def)

named_theorems sum_where_simps \<open>rewriting filtered sums\<close>

subsection \<open>Filtered sums\<close>

definition sum_where :: "('a \<Rightarrow> bool) \<Rightarrow> ('a \<Rightarrow> int) \<Rightarrow> 'a list \<Rightarrow> int" where
  "sum_where P q xs = sum_list (map q (filter P xs))"

lemma sum_where_Nil [simp]: "sum_where P q [] = 0"
  by (simp add: sum_where_def)

lemma sum_where_Cons [simp]:
  "sum_where P q (x # xs) = (if P x then q x + sum_where P q xs else sum_where P q xs)"
  by (simp add: sum_where_def)

lemma sum_where_append [sum_where_simps]:
  "sum_where P q (xs @ ys) = sum_where P q xs + sum_where P q ys"
  by (simp add: sum_where_def)

lemma sum_where_filter [sum_where_simps]:
  "sum_where P q (filter R xs) = sum_where (\<lambda>x. R x \<and> P x) q xs"
  by (induction xs) auto

lemma sum_where_split:
  "sum_where P q xs = sum_where (\<lambda>x. P x \<and> R x) q xs + sum_where (\<lambda>x. P x \<and> \<not> R x) q xs"
  by (induction xs) auto

lemma sum_where_cong:
  "(\<And>x. x \<in> set xs \<Longrightarrow> P x = R x) \<Longrightarrow> (\<And>x. x \<in> set xs \<Longrightarrow> P x \<Longrightarrow> q x = r x) \<Longrightarrow>
   sum_where P q xs = sum_where R r xs"
  by (induction xs) auto

lemma sum_where_none:
  "(\<And>x. x \<in> set xs \<Longrightarrow> \<not> P x) \<Longrightarrow> sum_where P q xs = 0"
  by (induction xs) auto

lemma sum_where_nonneg:
  "(\<And>x. x \<in> set xs \<Longrightarrow> 0 \<le> q x) \<Longrightarrow> 0 \<le> sum_where P q xs"
  by (induction xs) auto

subsection \<open>Keyed tables\<close>

lemma map_of_upsert: "map_of (AList.update k v t) = (map_of t)(k \<mapsto> v)"
  by (rule update_conv')

lemma distinct_upsert [simp]:
  "distinct (map fst t) \<Longrightarrow> distinct (map fst (AList.update k v t))"
  by (rule distinct_update)

lemma keys_upsert: "fst ` set (AList.update k v t) = insert k (fst ` set t)"
  by (induction t) auto

lemma set_upsert_subset: "set (AList.update k v t) \<subseteq> insert (k, v) (set t)"
  by (induction t) auto

text \<open>\<open>COALESCE(x, d)\<close>.\<close>

definition coalesce :: "'a option \<Rightarrow> 'a \<Rightarrow> 'a" where
  "coalesce x d = (case x of None \<Rightarrow> d | Some v \<Rightarrow> v)"

lemma coalesce_simps [simp]: "coalesce None d = d" "coalesce (Some v) d = v"
  by (simp_all add: coalesce_def)

subsection \<open>First match in a table\<close>

lemma find_cong_set:
  "(\<And>x. x \<in> set xs \<Longrightarrow> P x = Q x) \<Longrightarrow> List.find P xs = List.find Q xs"
  by (induction xs) auto

lemma find_Some_in: "List.find P xs = Some x \<Longrightarrow> x \<in> set xs \<and> P x"
  by (auto simp: find_Some_iff)

lemma find_append:
  "List.find P (xs @ ys) = (case List.find P xs of None \<Rightarrow> List.find P ys | Some x \<Rightarrow> Some x)"
  by (induction xs) auto

lemma find_unique:
  assumes "x \<in> set xs" and "P x" and only: "\<And>y. y \<in> set xs \<Longrightarrow> P y \<Longrightarrow> y = x"
  shows "List.find P xs = Some x"
proof (cases "List.find P xs")
  case None
  with assms(1,2) show ?thesis by (auto simp: find_None_iff)
next
  case (Some y)
  then have "y = x" using only find_Some_in by metis
  with Some show ?thesis by simp
qed

lemma find_key_unique:
  assumes "distinct (map key xs)" and "x \<in> set xs"
  shows "List.find (\<lambda>y. key y = key x) xs = Some x"
  using assms by (intro find_unique) (auto simp: distinct_map inj_on_def)

lemma sort_key_Nil_iff [simp]: "sort_key f xs = [] \<longleftrightarrow> xs = []"
  by (metis length_0_conv length_sort)

lemma distinct_map_sort_key: "distinct (map f xs) \<Longrightarrow> distinct (map f (sort_key g xs))"
  by (simp add: distinct_map)

text \<open>A SQL \<open>LIMIT n OFFSET k\<close>.\<close>

definition page :: "nat \<Rightarrow> nat \<Rightarrow> 'a list \<Rightarrow> 'a list" where
  "page limit offset xs = take limit (drop offset xs)"

lemma length_page: "length (page l k xs) = min (length xs - k) l"
  by (simp add: page_def)

lemma set_page_subset: "set (page l k xs) \<subseteq> set xs"
  by (auto simp: page_def dest: in_set_takeD in_set_dropD)

subsection \<open>Text\<close>

text \<open>
  Strings are lists of \<open>char\<close>: the texts the code compares are ASCII. \<open>trim\<close> removes
  ASCII white space at both ends, \<open>str_nat\<close> and \<open>str_int\<close> are \<open>str()\<close> of an integer.
\<close>

definition whitespace :: "char list" where
  "whitespace = [CHR '' '', CHR 0x09, CHR 0x0A, CHR 0x0B, CHR 0x0C, CHR 0x0D]"

definition strip_chars :: "char list \<Rightarrow> string \<Rightarrow> string" where
  "strip_chars ws s = rev (dropWhile (\<lambda>c. c \<in> set ws) (rev (dropWhile (\<lambda>c. c \<in> set ws) s)))"

definition py_space :: "char list" where
  "py_space = whitespace @ [CHR 0x1C, CHR 0x1D, CHR 0x1E, CHR 0x1F]"

definition to_lower :: "string \<Rightarrow> string" where
  "to_lower s = map (\<lambda>c. if CHR ''A'' \<le> c \<and> c \<le> CHR ''Z'' then char_of ((of_char c :: nat) + 32) else c) s"

definition to_upper :: "string \<Rightarrow> string" where
  "to_upper s = map (\<lambda>c. if CHR ''a'' \<le> c \<and> c \<le> CHR ''z'' then char_of ((of_char c :: nat) - 32) else c) s"

definition trim :: "string \<Rightarrow> string" where
  "trim s = rev (dropWhile (\<lambda>c. c \<in> set whitespace) (rev (dropWhile (\<lambda>c. c \<in> set whitespace) s)))"

lemma length_trim: "length (trim s) \<le> length s"
  using length_dropWhile_le [of "\<lambda>c. c \<in> set whitespace" "rev (dropWhile (\<lambda>c. c \<in> set whitespace) s)"]
    length_dropWhile_le [of "\<lambda>c. c \<in> set whitespace" s]
  by (simp add: trim_def)

definition digit :: "nat \<Rightarrow> char" where
  "digit n = char_of (48 + n)"

fun str_nat :: "nat \<Rightarrow> string" where
  "str_nat n = (if n < 10 then [digit n] else str_nat (n div 10) @ [digit (n mod 10)])"

declare str_nat.simps [simp del]

definition str_int :: "int \<Rightarrow> string" where
  "str_int i = (if i < 0 then CHR ''-'' # str_nat (nat (- i)) else str_nat (nat i))"

definition apostrophe :: char where
  "apostrophe = CHR 0x27"

definition quoted :: "string \<Rightarrow> string" where
  "quoted s = apostrophe # s @ [apostrophe]"

end
