(* ===== verification/Unit_Of_Work.thy ===== *)
theory Unit_Of_Work
  imports Prelude
begin

text \<open>
  Database access as the services use it: a unit of work (SQLAlchemy's \<open>Session\<close>) over a
  database state, statements that may fail, and a small weakest-precondition calculus for the
  service methods.

  The session keeps the committed state, the state the open transaction sees, and a list of
  faults. The list says, statement by statement, whether the driver raises: \<open>True\<close> makes the
  next statement raise \<open>SQLAlchemyError\<close>, \<open>False\<close> lets it run, and the empty list is a
  database that answers from here on. The theorems quantify over every such list, so they hold
  wherever in a method the database fails.
\<close>

subsection \<open>Sessions\<close>

record 'db session =
  committed :: 'db
  working :: 'db
  faults :: "bool list"

definition open_session :: "'db \<Rightarrow> bool list \<Rightarrow> 'db session" where
  "open_session d fs = \<lparr>committed = d, working = d, faults = fs\<rparr>"

definition do_commit :: "'db session \<Rightarrow> 'db session" where
  "do_commit s = s\<lparr>committed := working s\<rparr>"

definition do_rollback :: "'db session \<Rightarrow> 'db session" where
  "do_rollback s = s\<lparr>working := committed s\<rparr>"

definition do_update :: "('db \<Rightarrow> 'db) \<Rightarrow> 'db session \<Rightarrow> 'db session" where
  "do_update f s = s\<lparr>working := f (working s)\<rparr>"

text \<open>
  The contract the services rely on: a commit publishes what the transaction wrote, a rollback
  discards it, a write alone is invisible outside.
\<close>

locale unit_of_work =
  fixes visible :: "'s \<Rightarrow> 'db"
    and current :: "'s \<Rightarrow> 'db"
    and commit_work :: "'s \<Rightarrow> 's"
    and rollback_work :: "'s \<Rightarrow> 's"
    and update_work :: "('db \<Rightarrow> 'db) \<Rightarrow> 's \<Rightarrow> 's"
  assumes commit_visible: "visible (commit_work s) = current s"
    and commit_current: "current (commit_work s) = current s"
    and rollback_visible: "visible (rollback_work s) = visible s"
    and rollback_current: "current (rollback_work s) = visible s"
    and update_visible: "visible (update_work f s) = visible s"
    and update_current: "current (update_work f s) = f (current s)"
begin

lemma updates_visible: "visible (fold update_work fs s) = visible s"
  by (induction fs arbitrary: s) (simp_all add: update_visible)

lemma updates_current: "current (fold update_work fs s) = fold (\<lambda>f. f) fs (current s)"
  by (induction fs arbitrary: s) (simp_all add: update_current)

lemma rollback_all: "visible (rollback_work (fold update_work fs s)) = visible s"
  by (simp add: rollback_visible updates_visible)

lemma commit_all: "visible (commit_work (fold update_work fs s)) = fold (\<lambda>f. f) fs (current s)"
  by (simp add: commit_visible updates_current)

lemma rollback_clean: "current (rollback_work s) = visible (rollback_work s)"
  by (simp add: rollback_visible rollback_current)

end

interpretation uow: unit_of_work committed working do_commit do_rollback do_update
  by unfold_locales (simp_all add: do_commit_def do_rollback_def do_update_def)

lemmas uow_simps = uow.commit_visible uow.commit_current uow.rollback_visible
  uow.rollback_current uow.update_visible uow.update_current

lemma open_session_simps [simp]:
  "committed (open_session d fs) = d" "working (open_session d fs) = d"
  "faults (open_session d fs) = fs"
  by (simp_all add: open_session_def)

subsection \<open>Exceptions and methods\<close>

text \<open>
  What a method may raise: a typed domain error (\<open>InventoryError\<close>, \<open>AgentMemoryError\<close>, ...),
  the driver's two error classes, and a plain \<open>RuntimeError\<close>.
\<close>

datatype 'e exn = DomainError 'e | IntegrityError string | SQLAlchemyError | RuntimeError string

type_synonym ('db, 'e, 'a) tx = "'db session \<Rightarrow> ('e exn + 'a) \<times> 'db session"

definition ret :: "'a \<Rightarrow> ('db, 'e, 'a) tx" where
  "ret v s = (Inr v, s)"

definition throw :: "'e exn \<Rightarrow> ('db, 'e, 'a) tx" where
  "throw e s = (Inl e, s)"

definition bind :: "('db, 'e, 'a) tx \<Rightarrow> ('a \<Rightarrow> ('db, 'e, 'b) tx) \<Rightarrow> ('db, 'e, 'b) tx" where
  "bind m k s = (case m s of (Inl e, s') \<Rightarrow> (Inl e, s') | (Inr v, s') \<Rightarrow> k v s')"

definition try_except ::
  "('db, 'e, 'a) tx \<Rightarrow> ('e exn \<Rightarrow> ('db, 'e, 'a) tx) \<Rightarrow> ('db, 'e, 'a) tx" where
  "try_except m h s = (case m s of (Inl e, s') \<Rightarrow> h e s' | (Inr v, s') \<Rightarrow> (Inr v, s'))"

text \<open>One SQL statement: it fails if the next fault says so, and runs on the open transaction.\<close>

definition stmt :: "('db \<Rightarrow> ('e exn + 'a) \<times> 'db) \<Rightarrow> ('db, 'e, 'a) tx" where
  "stmt f s =
     (case faults s of
        True # fs \<Rightarrow> (Inl SQLAlchemyError, s\<lparr>faults := fs\<rparr>)
      | _ \<Rightarrow> (case f (working s) of (r, d) \<Rightarrow> (r, s\<lparr>working := d, faults := tl (faults s)\<rparr>)))"

definition query :: "('db \<Rightarrow> 'a) \<Rightarrow> ('db, 'e, 'a) tx" where
  "query f = stmt (\<lambda>d. (Inr (f d), d))"

definition execute :: "('db \<Rightarrow> 'db) \<Rightarrow> ('db, 'e, unit) tx" where
  "execute f = stmt (\<lambda>d. (Inr (), f d))"

definition commit :: "('db, 'e, unit) tx" where
  "commit s =
     (case faults s of
        True # fs \<Rightarrow> (Inl SQLAlchemyError, s\<lparr>faults := fs\<rparr>)
      | _ \<Rightarrow> (Inr (), (do_commit s)\<lparr>faults := tl (faults s)\<rparr>))"

definition rollback :: "('db, 'e, unit) tx" where
  "rollback s = (Inr (), do_rollback s)"

text \<open>A request: the session is opened on the committed state and closed afterwards.\<close>

definition run_request :: "('db, 'e, 'a) tx \<Rightarrow> 'db \<Rightarrow> bool list \<Rightarrow> ('e exn + 'a) \<times> 'db" where
  "run_request m d fs = (case m (open_session d fs) of (r, s) \<Rightarrow> (r, committed s))"

subsection \<open>Weakest preconditions\<close>

definition wp ::
  "('db, 'e, 'a) tx \<Rightarrow> ('a \<Rightarrow> 'db session \<Rightarrow> bool) \<Rightarrow> ('e exn \<Rightarrow> 'db session \<Rightarrow> bool)
     \<Rightarrow> 'db session \<Rightarrow> bool" where
  "wp m Q E s = (case m s of (Inr v, s') \<Rightarrow> Q v s' | (Inl e, s') \<Rightarrow> E e s')"

named_theorems wp_simps \<open>weakest preconditions of the combinators\<close>

lemma wp_ret [wp_simps]: "wp (ret v) Q E s = Q v s"
  by (simp add: wp_def ret_def)

lemma wp_throw [wp_simps]: "wp (throw e) Q E s = E e s"
  by (simp add: wp_def throw_def)

lemma wp_bind [wp_simps]: "wp (bind m k) Q E s = wp m (\<lambda>v. wp (k v) Q E) E s"
  by (auto simp: wp_def bind_def split: prod.splits sum.splits)

lemma wp_try [wp_simps]: "wp (try_except m h) Q E s = wp m Q (\<lambda>e. wp (h e) Q E) s"
  by (auto simp: wp_def try_except_def split: prod.splits sum.splits)

lemma wp_rollback [wp_simps]: "wp rollback Q E s = Q () (do_rollback s)"
  by (simp add: wp_def rollback_def)

lemma wp_if [wp_simps]:
  "wp (if b then m else n) Q E s = (if b then wp m Q E s else wp n Q E s)"
  by simp

lemma wp_case_option [wp_simps]:
  "wp (case x of None \<Rightarrow> m | Some v \<Rightarrow> n v) Q E s =
   (case x of None \<Rightarrow> wp m Q E s | Some v \<Rightarrow> wp (n v) Q E s)"
  by (simp split: option.splits)

text \<open>
  A statement's precondition must hold for the fault, for which only the fault list changes and
  which needs a fault in the list, and for the run. The faults left are among those there were.
\<close>

lemma wp_stmtI:
  assumes "\<And>fs. True \<in> set (faults s) \<Longrightarrow> set fs \<subseteq> set (faults s) \<Longrightarrow> E SQLAlchemyError (s\<lparr>faults := fs\<rparr>)"
    and "\<And>fs r d. f (working s) = (r, d) \<Longrightarrow> set fs \<subseteq> set (faults s) \<Longrightarrow>
      (case r of Inr v \<Rightarrow> Q v (s\<lparr>working := d, faults := fs\<rparr>)
               | Inl e \<Rightarrow> E e (s\<lparr>working := d, faults := fs\<rparr>))"
  shows "wp (stmt f) Q E s"
proof -
  obtain r d where f: "f (working s) = (r, d)" by fastforce
  have rest: "set (tl (faults s)) \<subseteq> set (faults s)"
    by (cases "faults s") auto
  show ?thesis
  proof (cases "\<exists>fs. faults s = True # fs")
    case True
    then obtain fs where "faults s = True # fs" by auto
    with assms(1) [of fs] show ?thesis by (simp add: wp_def stmt_def subset_insertI)
  next
    case False
    then have "stmt f s = (r, s\<lparr>working := d, faults := tl (faults s)\<rparr>)"
      by (auto simp: stmt_def f split: list.splits bool.splits)
    with assms(2) [OF f rest] show ?thesis by (simp add: wp_def split: sum.splits)
  qed
qed

lemma wp_queryI:
  assumes "\<And>fs. True \<in> set (faults s) \<Longrightarrow> set fs \<subseteq> set (faults s) \<Longrightarrow> E SQLAlchemyError (s\<lparr>faults := fs\<rparr>)"
    and "\<And>fs. set fs \<subseteq> set (faults s) \<Longrightarrow> Q (f (working s)) (s\<lparr>faults := fs\<rparr>)"
  shows "wp (query f) Q E s"
  unfolding query_def using assms by (intro wp_stmtI) auto

lemma wp_executeI:
  assumes "\<And>fs. True \<in> set (faults s) \<Longrightarrow> set fs \<subseteq> set (faults s) \<Longrightarrow> E SQLAlchemyError (s\<lparr>faults := fs\<rparr>)"
    and "\<And>fs. set fs \<subseteq> set (faults s) \<Longrightarrow> Q () (s\<lparr>working := f (working s), faults := fs\<rparr>)"
  shows "wp (execute f) Q E s"
  unfolding execute_def using assms by (intro wp_stmtI) auto

lemma wp_commitI:
  assumes "\<And>fs. True \<in> set (faults s) \<Longrightarrow> set fs \<subseteq> set (faults s) \<Longrightarrow> E SQLAlchemyError (s\<lparr>faults := fs\<rparr>)"
    and "\<And>fs. set fs \<subseteq> set (faults s) \<Longrightarrow> Q () (s\<lparr>committed := working s, faults := fs\<rparr>)"
  shows "wp commit Q E s"
proof (cases "\<exists>fs. faults s = True # fs")
  case True
  then obtain fs where "faults s = True # fs" by auto
  with assms(1) [of fs] show ?thesis by (simp add: wp_def commit_def subset_insertI)
next
  case False
  moreover have "set (tl (faults s)) \<subseteq> set (faults s)"
    by (cases "faults s") auto
  ultimately show ?thesis
    using assms(2) [of "tl (faults s)"]
    by (auto simp: wp_def commit_def do_commit_def split: list.splits bool.splits)
qed

lemmas wp_intros = wp_stmtI wp_queryI wp_executeI wp_commitI

lemma wp_run_request:
  assumes "wp m Q E (open_session d fs)"
    and "\<And>v s. Q v s \<Longrightarrow> P (Inr v, committed s)"
    and "\<And>e s. E e s \<Longrightarrow> P (Inl e, committed s)"
  shows "P (run_request m d fs)"
  using assms by (auto simp: run_request_def wp_def split: prod.splits sum.splits)

text \<open>With no fault every combinator computes.\<close>

lemma no_fault_simps:
  "faults s = [] \<Longrightarrow> query f s = (Inr (f (working s)), s)"
  "faults s = [] \<Longrightarrow> execute f s = (Inr (), s\<lparr>working := f (working s)\<rparr>)"
  "faults s = [] \<Longrightarrow> commit s = (Inr (), do_commit s)"
  by (simp_all add: query_def execute_def stmt_def commit_def do_commit_def)

lemmas tx_defs = ret_def throw_def bind_def try_except_def stmt_def query_def execute_def
  commit_def rollback_def run_request_def open_session_def do_commit_def do_rollback_def

end
