(* ===== verification/InventoryModel.thy ===== *)
theory InventoryModel
  imports Unit_Of_Work
begin

text \<open>
  The inventory domain's data: the tables of \<open>domains/inventory/models.py\<close>, the request
  payloads of \<open>schemas.py\<close> with their validators, and the queries and writes of
  \<open>repository.py\<close>.

  A row is a record with its table's columns. The tables whose primary key is a serial column
  are lists in insertion order with the next key kept in the database record; the two tables
  the code upserts (\<open>stock_balances\<close>, \<open>stock_ledger_checkpoints\<close>) are association lists
  over \<open>(sku_id, warehouse)\<close>. An insert checks the table's constraints and raises
  \<open>IntegrityError\<close> with the constraint's name.
\<close>

section \<open>Vocabulary\<close>

datatype warehouse = LA | ZGZ

datatype category = Fashion | Electronics | Cosmetics

datatype exit_type = Dispatch | Loss

definition warehouse_value :: "warehouse \<Rightarrow> string" where
  "warehouse_value w = (case w of LA \<Rightarrow> ''LA'' | ZGZ \<Rightarrow> ''ZGZ'')"

instantiation warehouse :: linorder
begin

definition less_eq_warehouse :: "warehouse \<Rightarrow> warehouse \<Rightarrow> bool" where
  "less_eq_warehouse v w \<longleftrightarrow> v = LA \<or> w = ZGZ"

definition less_warehouse :: "warehouse \<Rightarrow> warehouse \<Rightarrow> bool" where
  "less_warehouse v w \<longleftrightarrow> v = LA \<and> w = ZGZ"

instance
proof
  fix v w x :: warehouse
  show "(v < w) = (v \<le> w \<and> \<not> w \<le> v)"
    by (cases v; cases w) (auto simp: less_warehouse_def less_eq_warehouse_def)
  show "v \<le> v" by (cases v) (auto simp: less_eq_warehouse_def)
  show "v \<le> w \<Longrightarrow> w \<le> x \<Longrightarrow> v \<le> x"
    by (cases v; cases w; cases x) (auto simp: less_eq_warehouse_def)
  show "v \<le> w \<Longrightarrow> w \<le> v \<Longrightarrow> v = w"
    by (cases v; cases w) (auto simp: less_eq_warehouse_def)
  show "v \<le> w \<or> w \<le> v"
    by (cases v; cases w) (auto simp: less_eq_warehouse_def)
qed

end

lemma warehouse_value_order: "warehouse_value v \<le> warehouse_value w \<longleftrightarrow> v \<le> w"
  by (cases v; cases w) (simp_all add: warehouse_value_def less_eq_warehouse_def)

section \<open>Tables\<close>

record client =
  cl_id :: uuid
  cl_display_name :: string
  cl_created_at :: instant
  cl_updated_at :: instant

record sku =
  sku_id :: int
  sku_name :: string
  sku_code :: string
  sku_client_id :: uuid
  sku_min_threshold :: int
  sku_category :: category
  sku_warehouse :: warehouse

record ledger_checkpoint =
  cp_quantity :: int
  cp_at :: instant

record stock_balance =
  bal_quantity :: int
  bal_updated_at :: instant

record stock_entry =
  en_id :: int
  en_sku_id :: int
  en_quantity :: int
  en_reference :: string
  en_warehouse :: warehouse
  en_created_at :: instant
  en_user_uuid :: string

record stock_exit =
  ex_id :: int
  ex_sku_id :: int
  ex_quantity :: int
  ex_type :: exit_type
  ex_tracking :: "string option"
  ex_warehouse :: warehouse
  ex_created_at :: instant
  ex_user_uuid :: string

record stockout_event =
  so_id :: int
  so_sku_id :: int
  so_warehouse :: warehouse
  so_client_id :: uuid
  so_threshold :: int
  so_stock_after :: int
  so_stock_exit_id :: int
  so_occurred_at :: instant

datatype discrepancy_source = Manual | Feed

record discrepancy =
  di_id :: int
  di_stock_exit_id :: int
  di_sku_id :: int
  di_warehouse :: warehouse
  di_client_id :: uuid
  di_quantity_delta :: int
  di_source :: discrepancy_source
  di_detected_at :: instant
  di_user_uuid :: "string option"

type_synonym stock_key = "int \<times> warehouse"

record inventory_db =
  clients :: "client list"
  skus :: "sku list"
  entries :: "stock_entry list"
  exits :: "stock_exit list"
  stockouts :: "stockout_event list"
  discrepancies :: "discrepancy list"
  balances :: "(stock_key \<times> stock_balance) list"
  checkpoints :: "(stock_key \<times> ledger_checkpoint) list"
  next_sku :: int
  next_entry :: int
  next_exit :: int
  next_stockout :: int
  next_discrepancy :: int

definition sku_key :: "sku \<Rightarrow> stock_key" where
  "sku_key s = (sku_id s, sku_warehouse s)"

definition en_key :: "stock_entry \<Rightarrow> stock_key" where
  "en_key e = (en_sku_id e, en_warehouse e)"

definition ex_key :: "stock_exit \<Rightarrow> stock_key" where
  "ex_key x = (ex_sku_id x, ex_warehouse x)"

section \<open>Errors\<close>

record dispatch_rejection =
  rej_warehouse :: warehouse
  rej_reason :: string
  rej_quantity :: int

datatype inventory_error =
  InventoryError (status_code: nat) (detail: string) (reject_event: "dispatch_rejection option")

type_synonym inventory_exn = "inventory_error exn"

type_synonym 'a inventory_tx = "(inventory_db, inventory_error, 'a) tx"

section \<open>Payloads\<close>

text \<open>A string field: \<open>str_strip_whitespace\<close> first, then the length bounds.\<close>

definition valid_text :: "nat \<Rightarrow> nat \<Rightarrow> string \<Rightarrow> bool" where
  "valid_text lo hi s = (let t = trim s in lo \<le> length t \<and> length t \<le> hi)"

record sku_create =
  sc_name :: string
  sc_sku :: string
  sc_client_id :: uuid
  sc_category :: category
  sc_warehouse :: warehouse
  sc_min_threshold :: int

definition valid_sku_create :: "sku_create \<Rightarrow> bool" where
  "valid_sku_create p \<longleftrightarrow>
     valid_text 1 200 (sc_name p) \<and> valid_text 1 80 (sc_sku p) \<and> 0 \<le> sc_min_threshold p"

record sku_update =
  su_min_threshold :: "int option"
  su_client_id :: "uuid option"

definition valid_sku_update :: "sku_update \<Rightarrow> bool" where
  "valid_sku_update p \<longleftrightarrow>
     (case su_min_threshold p of None \<Rightarrow> True | Some t \<Rightarrow> 0 \<le> t) \<and>
     \<not> (su_min_threshold p = None \<and> su_client_id p = None)"

record stock_entry_create =
  ec_sku_id :: int
  ec_quantity :: int
  ec_reference :: string
  ec_warehouse :: warehouse

definition valid_entry_create :: "stock_entry_create \<Rightarrow> bool" where
  "valid_entry_create p \<longleftrightarrow>
     0 < ec_sku_id p \<and> 0 < ec_quantity p \<and> valid_text 1 120 (ec_reference p)"

record stock_exit_create =
  xc_sku_id :: int
  xc_quantity :: int
  xc_exit_type :: exit_type
  xc_tracking :: "string option"
  xc_warehouse :: warehouse

definition tracking_rule :: "exit_type \<Rightarrow> string option \<Rightarrow> bool" where
  "tracking_rule t tracking \<longleftrightarrow>
     \<not> (t = Dispatch \<and> tracking = None) \<and> \<not> (t = Loss \<and> tracking \<noteq> None)"

definition valid_exit_create :: "stock_exit_create \<Rightarrow> bool" where
  "valid_exit_create p \<longleftrightarrow>
     0 < xc_sku_id p \<and> 0 < xc_quantity p \<and>
     (case xc_tracking p of None \<Rightarrow> True | Some t \<Rightarrow> valid_text 1 120 t) \<and>
     tracking_rule (xc_exit_type p) (xc_tracking p)"

record discrepancy_create =
  dc_stock_exit_id :: int
  dc_quantity_delta :: int

definition valid_discrepancy_create :: "discrepancy_create \<Rightarrow> bool" where
  "valid_discrepancy_create p \<longleftrightarrow> 0 < dc_stock_exit_id p \<and> dc_quantity_delta p \<noteq> 0"

end
