(* ===== verification/InventoryRepository.thy ===== *)
theory InventoryRepository
  imports InventoryModel
begin

text \<open>
  The queries and writes of \<open>domains/inventory/repository.py\<close>, and the constraints of
  \<open>models.py\<close> that an insert or update meets in PostgreSQL (CHECK first, then the unique
  indexes, then the foreign keys), each failure named as the driver names it.
\<close>

section \<open>Reads\<close>

definition get_client :: "inventory_db \<Rightarrow> uuid \<Rightarrow> client option" where
  "get_client d c = List.find (\<lambda>r. cl_id r = c) (clients d)"

definition list_clients :: "inventory_db \<Rightarrow> client list" where
  "list_clients d = sort_key cl_display_name (clients d)"

definition get_sku_for_update :: "inventory_db \<Rightarrow> int \<Rightarrow> sku option" where
  "get_sku_for_update d i = List.find (\<lambda>r. sku_id r = i) (skus d)"

definition current_stock :: "inventory_db \<Rightarrow> int \<Rightarrow> warehouse \<Rightarrow> int" where
  "current_stock d i w = (case map_of (balances d) (i, w) of None \<Rightarrow> 0 | Some b \<Rightarrow> bal_quantity b)"

definition get_exit :: "inventory_db \<Rightarrow> int \<Rightarrow> stock_exit option" where
  "get_exit d i = List.find (\<lambda>r. ex_id r = i) (exits d)"

definition discrepancy_exists :: "inventory_db \<Rightarrow> int \<Rightarrow> bool" where
  "discrepancy_exists d i \<longleftrightarrow> (\<exists>r\<in>set (discrepancies d). di_stock_exit_id r = i)"

text \<open>One row of a product listing: the SKU, its client's name, its stock.\<close>

definition product_row :: "inventory_db \<Rightarrow> sku \<Rightarrow> (sku \<times> string \<times> int) option" where
  "product_row d s =
     (case get_client d (sku_client_id s) of
        None \<Rightarrow> None
      | Some c \<Rightarrow> Some (s, cl_display_name c,
          coalesce (map_option bal_quantity (map_of (balances d) (sku_key s))) 0))"

definition list_products ::
  "inventory_db \<Rightarrow> nat \<Rightarrow> nat \<Rightarrow> (sku \<times> string \<times> int) list \<times> nat" where
  "list_products d limit offset =
     (page limit offset (List.map_filter (product_row d) (sort_key sku_id (skus d))),
      length (skus d))"

definition get_product :: "inventory_db \<Rightarrow> int \<Rightarrow> (sku \<times> string \<times> int) option" where
  "get_product d i = (case get_sku_for_update d i of None \<Rightarrow> None | Some s \<Rightarrow> product_row d s)"

record movement_record =
  mv_id :: int
  mv_type :: string
  mv_sku_id :: int
  mv_quantity :: int
  mv_reference :: "string option"
  mv_exit_type :: "exit_type option"
  mv_tracking :: "string option"
  mv_warehouse :: warehouse
  mv_created_at :: instant
  mv_user_uuid :: string

definition inbound_record :: "stock_entry \<Rightarrow> movement_record" where
  "inbound_record e =
     \<lparr>mv_id = en_id e, mv_type = ''inbound'', mv_sku_id = en_sku_id e,
      mv_quantity = en_quantity e, mv_reference = Some (en_reference e), mv_exit_type = None,
      mv_tracking = None, mv_warehouse = en_warehouse e, mv_created_at = en_created_at e,
      mv_user_uuid = en_user_uuid e\<rparr>"

definition outbound_record :: "stock_exit \<Rightarrow> movement_record" where
  "outbound_record x =
     \<lparr>mv_id = ex_id x, mv_type = ''outbound'', mv_sku_id = ex_sku_id x,
      mv_quantity = ex_quantity x, mv_reference = None, mv_exit_type = Some (ex_type x),
      mv_tracking = ex_tracking x, mv_warehouse = ex_warehouse x,
      mv_created_at = ex_created_at x, mv_user_uuid = ex_user_uuid x\<rparr>"

text \<open>\<open>ORDER BY created_at DESC, movement_type, id DESC\<close>.\<close>

definition movement_order :: "movement_record \<Rightarrow> int \<times> string \<times> int" where
  "movement_order m = (- mv_created_at m, mv_type m, - mv_id m)"

definition movement_join :: "inventory_db \<Rightarrow> movement_record \<Rightarrow> (movement_record \<times> sku \<times> string) option" where
  "movement_join d m =
     (case List.find (\<lambda>s. sku_key s = (mv_sku_id m, mv_warehouse m)) (skus d) of
        None \<Rightarrow> None
      | Some s \<Rightarrow> (case get_client d (sku_client_id s) of
          None \<Rightarrow> None
        | Some c \<Rightarrow> Some (m, s, cl_display_name c)))"

definition all_movements :: "inventory_db \<Rightarrow> movement_record list" where
  "all_movements d = map inbound_record (entries d) @ map outbound_record (exits d)"

definition list_movements ::
  "inventory_db \<Rightarrow> nat \<Rightarrow> nat \<Rightarrow> (movement_record \<times> sku \<times> string) list \<times> nat" where
  "list_movements d limit offset =
     (page limit offset
        (List.map_filter (movement_join d) (sort_key movement_order (all_movements d))),
      length (entries d) + length (exits d))"

section \<open>Writes\<close>

definition apply_balance_delta ::
  "int \<Rightarrow> warehouse \<Rightarrow> int \<Rightarrow> instant \<Rightarrow> inventory_db \<Rightarrow> inventory_db" where
  "apply_balance_delta i w delta now d =
     d\<lparr>balances := AList.update (i, w)
        \<lparr>bal_quantity = (case map_of (balances d) (i, w) of
             None \<Rightarrow> delta | Some b \<Rightarrow> bal_quantity b + delta),
         bal_updated_at = now\<rparr> (balances d)\<rparr>"

definition sku_key_exists :: "inventory_db \<Rightarrow> stock_key \<Rightarrow> bool" where
  "sku_key_exists d k \<longleftrightarrow> k \<in> sku_key ` set (skus d)"

definition insert_client :: "client \<Rightarrow> inventory_db \<Rightarrow> (inventory_exn + client) \<times> inventory_db" where
  "insert_client c d =
     (if c \<in> set (clients d) \<or> cl_id c \<in> cl_id ` set (clients d)
      then (Inl (IntegrityError ''clients_pkey''), d)
      else if cl_display_name c \<in> cl_display_name ` set (clients d)
      then (Inl (IntegrityError ''uq_clients_display_name''), d)
      else (Inr c, d\<lparr>clients := clients d @ [c]\<rparr>))"

definition rename_client_row ::
  "uuid \<Rightarrow> string \<Rightarrow> instant \<Rightarrow> inventory_db \<Rightarrow> (inventory_exn + unit) \<times> inventory_db" where
  "rename_client_row c name now d =
     (if \<exists>r\<in>set (clients d). cl_id r \<noteq> c \<and> cl_display_name r = name
      then (Inl (IntegrityError ''uq_clients_display_name''), d)
      else (Inr (), d\<lparr>clients := map (\<lambda>r. if cl_id r = c
          then r\<lparr>cl_display_name := name, cl_updated_at := now\<rparr> else r) (clients d)\<rparr>))"

definition insert_sku :: "sku \<Rightarrow> inventory_db \<Rightarrow> (inventory_exn + sku) \<times> inventory_db" where
  "insert_sku s d =
     (if sku_min_threshold s < 0
      then (Inl (IntegrityError ''ck_skus_min_stock_threshold_nonnegative''), d)
      else if \<exists>r\<in>set (skus d). sku_code r = sku_code s \<and> sku_warehouse r = sku_warehouse s
      then (Inl (IntegrityError ''uq_skus_sku_warehouse''), d)
      else if get_client d (sku_client_id s) = None
      then (Inl (IntegrityError ''skus_client_id_fkey''), d)
      else let s' = s\<lparr>sku_id := next_sku d\<rparr> in
        (Inr s', d\<lparr>skus := skus d @ [s'], next_sku := next_sku d + 1\<rparr>))"

definition set_threshold :: "int \<Rightarrow> int \<Rightarrow> inventory_db \<Rightarrow> inventory_db" where
  "set_threshold i t d =
     d\<lparr>skus := map (\<lambda>r. if sku_id r = i then r\<lparr>sku_min_threshold := t\<rparr> else r) (skus d)\<rparr>"

definition insert_entry ::
  "stock_entry \<Rightarrow> inventory_db \<Rightarrow> (inventory_exn + stock_entry) \<times> inventory_db" where
  "insert_entry e d =
     (if en_quantity e \<le> 0 then (Inl (IntegrityError ''ck_stock_entries_quantity_positive''), d)
      else if \<not> sku_key_exists d (en_key e)
      then (Inl (IntegrityError ''fk_stock_entries_sku_warehouse''), d)
      else let e' = e\<lparr>en_id := next_entry d\<rparr> in
        (Inr e', d\<lparr>entries := entries d @ [e'], next_entry := next_entry d + 1\<rparr>))"

definition insert_exit ::
  "stock_exit \<Rightarrow> inventory_db \<Rightarrow> (inventory_exn + stock_exit) \<times> inventory_db" where
  "insert_exit x d =
     (if ex_quantity x \<le> 0 then (Inl (IntegrityError ''ck_stock_exits_quantity_positive''), d)
      else if \<not> (ex_type x = Dispatch \<and> ex_tracking x \<noteq> None
                \<or> ex_type x = Loss \<and> ex_tracking x = None)
      then (Inl (IntegrityError ''ck_stock_exits_tracking_rule''), d)
      else if \<not> sku_key_exists d (ex_key x)
      then (Inl (IntegrityError ''fk_stock_exits_sku_warehouse''), d)
      else let x' = x\<lparr>ex_id := next_exit d\<rparr> in
        (Inr x', d\<lparr>exits := exits d @ [x'], next_exit := next_exit d + 1\<rparr>))"

definition insert_stockout ::
  "stockout_event \<Rightarrow> inventory_db \<Rightarrow> (inventory_exn + unit) \<times> inventory_db" where
  "insert_stockout v d =
     (if so_threshold v \<le> 0 then (Inl (IntegrityError ''ck_stockout_events_threshold_positive''), d)
      else if \<exists>r\<in>set (stockouts d). so_stock_exit_id r = so_stock_exit_id v
      then (Inl (IntegrityError ''uq_stockout_events_stock_exit_id''), d)
      else if get_exit d (so_stock_exit_id v) = None
      then (Inl (IntegrityError ''stockout_events_stock_exit_id_fkey''), d)
      else (Inr (), d\<lparr>stockouts := stockouts d @ [v\<lparr>so_id := next_stockout d\<rparr>],
                      next_stockout := next_stockout d + 1\<rparr>))"

definition insert_discrepancy ::
  "discrepancy \<Rightarrow> inventory_db \<Rightarrow> (inventory_exn + discrepancy) \<times> inventory_db" where
  "insert_discrepancy v d =
     (if di_quantity_delta v = 0
      then (Inl (IntegrityError ''ck_inventory_discrepancies_quantity_delta_nonzero''), d)
      else if discrepancy_exists d (di_stock_exit_id v)
      then (Inl (IntegrityError ''uq_inventory_discrepancies_stock_exit_id''), d)
      else if get_exit d (di_stock_exit_id v) = None
      then (Inl (IntegrityError ''inventory_discrepancies_stock_exit_id_fkey''), d)
      else let v' = v\<lparr>di_id := next_discrepancy d\<rparr> in
        (Inr v', d\<lparr>discrepancies := discrepancies d @ [v'],
                   next_discrepancy := next_discrepancy d + 1\<rparr>))"

lemmas insert_defs = insert_client_def insert_sku_def insert_entry_def insert_exit_def
  insert_stockout_def insert_discrepancy_def

section \<open>The balance table as a store of quantities\<close>

text \<open>
  What the movement methods rely on: a delta moves exactly the quantity it names, and no other.
  The client lemma is the total after a batch of deltas.
\<close>

locale balance_store =
  fixes stock :: "'db \<Rightarrow> 'k \<Rightarrow> int"
    and move :: "'k \<Rightarrow> int \<Rightarrow> 'db \<Rightarrow> 'db"
  assumes move_same: "stock (move k n d) k = stock d k + n"
    and move_other: "k' \<noteq> k \<Longrightarrow> stock (move k n d) k' = stock d k'"
begin

lemma stock_move: "stock (move k n d) k' = stock d k' + (if k' = k then n else 0)"
  by (simp add: move_same move_other)

lemma stock_fold_moves:
  "stock (fold (\<lambda>(k, n). move k n) ms d) k = stock d k + sum_where (\<lambda>m. fst m = k) snd ms"
  by (induction ms arbitrary: d) (auto simp: stock_move)

lemma moves_commute:
  "stock (move k n (move k' n' d)) j = stock (move k' n' (move k n d)) j"
  by (simp add: stock_move)

end

lemma current_stock_apply_delta:
  "current_stock (apply_balance_delta i w n now d) i' w' =
   current_stock d i' w' + (if (i', w') = (i, w) then n else 0)"
  by (auto simp: current_stock_def apply_balance_delta_def map_of_upsert split: option.splits)

interpretation bal: balance_store "\<lambda>d k. current_stock d (fst k) (snd k)"
  "\<lambda>k n. apply_balance_delta (fst k) (snd k) n now" for now :: instant
  by unfold_locales (auto simp: current_stock_apply_delta)

lemma apply_balance_delta_fields [simp]:
  "clients (apply_balance_delta i w n now d) = clients d"
  "skus (apply_balance_delta i w n now d) = skus d"
  "entries (apply_balance_delta i w n now d) = entries d"
  "exits (apply_balance_delta i w n now d) = exits d"
  "stockouts (apply_balance_delta i w n now d) = stockouts d"
  "discrepancies (apply_balance_delta i w n now d) = discrepancies d"
  "checkpoints (apply_balance_delta i w n now d) = checkpoints d"
  "next_sku (apply_balance_delta i w n now d) = next_sku d"
  "next_entry (apply_balance_delta i w n now d) = next_entry d"
  "next_exit (apply_balance_delta i w n now d) = next_exit d"
  by (simp_all add: apply_balance_delta_def)

end
