(* ===== verification/Balances.thy ===== *)
theory Balances
  imports InventoryRepository
begin

text \<open>
  Derivation, verification and repair of the materialized balances
  (\<open>domains/inventory/balances.py\<close>, the scripts that run them, and the backfill of migration
  \<open>20260820_0020\<close>).

  The SQL of the module is a function of the database (\<open>derived_quantity\<close> and what is built on
  it); the Python functions are transactions whose statements may fail. The contract is the locale
  \<open>checkpointed_ledger\<close>: a checkpoint moves the base of the derivation, never its value.
\<close>

section \<open>Definitions\<close>

definition BEGINNING_OF_TIME :: instant where
  "BEGINNING_OF_TIME = 0"

datatype ledger_error =
  LedgerCheckpointError string
| RetentionWindowTooShort string
| BalancesDrifted string

type_synonym 'a ledger_tx = "(inventory_db, ledger_error, 'a) tx"

record balance_drift =
  dr_sku_id :: int
  dr_warehouse :: warehouse
  dr_stored :: int
  dr_derived :: int

definition delta :: "balance_drift \<Rightarrow> int" where
  "delta r = dr_derived r - dr_stored r"

text \<open>The two grouped sums over a time range, and the checkpointed base.\<close>

definition received :: "(instant \<Rightarrow> bool) \<Rightarrow> inventory_db \<Rightarrow> stock_key \<Rightarrow> int" where
  "received P d k = sum_where (\<lambda>e. en_key e = k \<and> P (en_created_at e)) en_quantity (entries d)"

definition dispatched :: "(instant \<Rightarrow> bool) \<Rightarrow> inventory_db \<Rightarrow> stock_key \<Rightarrow> int" where
  "dispatched P d k = sum_where (\<lambda>x. ex_key x = k \<and> P (ex_created_at x)) ex_quantity (exits d)"

definition base_quantity :: "inventory_db \<Rightarrow> stock_key \<Rightarrow> int" where
  "base_quantity d k = coalesce (map_option cp_quantity (map_of (checkpoints d) k)) 0"

definition derived_quantity :: "instant \<Rightarrow> inventory_db \<Rightarrow> stock_key \<Rightarrow> int" where
  "derived_quantity wm d k =
     base_quantity d k + received (\<lambda>t. wm \<le> t) d k - dispatched (\<lambda>t. wm \<le> t) d k"

text \<open>\<open>_DERIVE_BALANCES\<close>: one row per SKU.\<close>

definition derive_balances :: "instant \<Rightarrow> inventory_db \<Rightarrow> (stock_key \<times> int) list" where
  "derive_balances wm d = map (\<lambda>s. (sku_key s, derived_quantity wm d (sku_key s))) (skus d)"

definition watermark_row :: "inventory_db \<Rightarrow> (ledger_error exn + instant option)" where
  "watermark_row d =
     (let ts = map (cp_at \<circ> snd) (checkpoints d) in
      if ts = [] then Inr None
      else if Min (set ts) \<noteq> Max (set ts)
      then Inl (DomainError (LedgerCheckpointError ''stock ledger checkpoints disagree on their instant''))
      else Inr (Some (Max (set ts))))"

definition checkpoint_watermark :: "instant option ledger_tx" where
  "checkpoint_watermark = stmt (\<lambda>d. (watermark_row d, d))"

definition watermark_params :: "instant ledger_tx" where
  "watermark_params = bind checkpoint_watermark (\<lambda>wm. ret (coalesce wm BEGINNING_OF_TIME))"

text \<open>\<open>INSERT ... SELECT ... ON CONFLICT DO UPDATE\<close>: the select is read first, then upserted.\<close>

definition upsert_all :: "('k \<times> 'v) list \<Rightarrow> ('k \<times> 'v) list \<Rightarrow> ('k \<times> 'v) list" where
  "upsert_all rows t = fold (\<lambda>(k, v). AList.update k v) rows t"

definition checkpoint_rows :: "instant \<Rightarrow> instant \<Rightarrow> inventory_db \<Rightarrow> (stock_key \<times> ledger_checkpoint) list" where
  "checkpoint_rows wm cutoff d = map (\<lambda>s. (sku_key s,
     \<lparr>cp_quantity = base_quantity d (sku_key s)
        + received (\<lambda>t. wm \<le> t \<and> t < cutoff) d (sku_key s)
        - dispatched (\<lambda>t. wm \<le> t \<and> t < cutoff) d (sku_key s),
      cp_at = cutoff\<rparr>)) (skus d)"

definition upsert_checkpoints :: "instant \<Rightarrow> instant \<Rightarrow> inventory_db \<Rightarrow> inventory_db" where
  "upsert_checkpoints wm cutoff d =
     d\<lparr>checkpoints := upsert_all (checkpoint_rows wm cutoff d) (checkpoints d)\<rparr>"

definition write_ledger_checkpoint :: "instant \<Rightarrow> nat ledger_tx" where
  "write_ledger_checkpoint cutoff =
     bind watermark_params (\<lambda>wm.
       if cutoff \<le> wm
       then throw (DomainError (LedgerCheckpointError
              ''checkpoint cutoff must advance beyond the current watermark''))
       else stmt (\<lambda>d. (Inr (length (skus d)), upsert_checkpoints wm cutoff d)))"

definition upsert_balances :: "instant \<Rightarrow> instant \<Rightarrow> inventory_db \<Rightarrow> inventory_db" where
  "upsert_balances now wm d =
     d\<lparr>balances := upsert_all
        (map (\<lambda>(k, q). (k, \<lparr>bal_quantity = q, bal_updated_at = now\<rparr>)) (derive_balances wm d))
        (balances d)\<rparr>"

definition rebuild_stock_balances :: "instant \<Rightarrow> nat ledger_tx" where
  "rebuild_stock_balances now =
     bind watermark_params (\<lambda>wm.
       stmt (\<lambda>d. (Inr (length (skus d)), upsert_balances now wm d)))"

definition drift_rows :: "instant \<Rightarrow> inventory_db \<Rightarrow> balance_drift list" where
  "drift_rows wm d =
     map (\<lambda>(k, q). \<lparr>dr_sku_id = fst k, dr_warehouse = snd k,
                    dr_stored = current_stock d (fst k) (snd k), dr_derived = q\<rparr>)
       (sort_key fst
         (filter (\<lambda>(k, q). current_stock d (fst k) (snd k) \<noteq> q) (derive_balances wm d)))"

definition verify_stock_balances :: "balance_drift list ledger_tx" where
  "verify_stock_balances = bind watermark_params (\<lambda>wm. query (drift_rows wm))"

definition reconcile_stock_balances :: "instant \<Rightarrow> balance_drift list ledger_tx" where
  "reconcile_stock_balances now =
     bind verify_stock_balances (\<lambda>drifted.
       if drifted \<noteq> []
       then bind (rebuild_stock_balances now) (\<lambda>_. ret drifted)
       else ret drifted)"

text \<open>The scripts: \<open>reconcile_once\<close> commits; \<open>verify_main\<close> is the exit status of the other.\<close>

definition MAX_REPORTED :: nat where
  "MAX_REPORTED = 20"

definition reconcile_once :: "instant \<Rightarrow> nat ledger_tx" where
  "reconcile_once now =
     bind (reconcile_stock_balances now) (\<lambda>corrected.
       bind commit (\<lambda>_. ret (length corrected)))"

definition verify_main :: "(nat \<times> (int \<times> warehouse \<times> int) list) ledger_tx" where
  "verify_main =
     bind verify_stock_balances (\<lambda>drifted.
       ret (if drifted = [] then 0 else 1,
            map (\<lambda>r. (dr_sku_id r, dr_warehouse r, dr_derived r - dr_stored r))
              (take MAX_REPORTED drifted)))"

text \<open>The backfill of the migration that created the table.\<close>

definition backfill_balances :: "instant \<Rightarrow> inventory_db \<Rightarrow> inventory_db" where
  "backfill_balances now d =
     d\<lparr>balances := map (\<lambda>s. (sku_key s,
        \<lparr>bal_quantity = received (\<lambda>t. True) d (sku_key s) - dispatched (\<lambda>t. True) d (sku_key s),
         bal_updated_at = now\<rparr>)) (skus d)\<rparr>"

section \<open>The schema's invariants\<close>

text \<open>Primary keys, serial counters, foreign keys and CHECK constraints of the inventory tables.\<close>

definition schema_ok :: "inventory_db \<Rightarrow> bool" where
  "schema_ok d \<longleftrightarrow>
     distinct (map cl_id (clients d)) \<and> distinct (map sku_id (skus d)) \<and>
     distinct (map fst (balances d)) \<and> distinct (map fst (checkpoints d)) \<and>
     (\<forall>s\<in>set (skus d). sku_id s < next_sku d) \<and>
     (\<forall>s\<in>set (skus d). sku_client_id s \<in> cl_id ` set (clients d) \<and> 0 \<le> sku_min_threshold s) \<and>
     fst ` set (balances d) \<subseteq> sku_key ` set (skus d) \<and>
     fst ` set (checkpoints d) \<subseteq> sku_key ` set (skus d) \<and>
     (\<forall>e\<in>set (entries d). en_id e < next_entry d \<and> 0 < en_quantity e \<and>
        en_key e \<in> sku_key ` set (skus d)) \<and>
     (\<forall>x\<in>set (exits d). ex_id x < next_exit d \<and> 0 < ex_quantity x \<and>
        tracking_rule (ex_type x) (ex_tracking x) \<and> ex_key x \<in> sku_key ` set (skus d)) \<and>
     distinct (map en_id (entries d)) \<and> distinct (map ex_id (exits d)) \<and>
     (\<forall>v\<in>set (stockouts d). so_stock_exit_id v \<in> ex_id ` set (exits d)) \<and>
     (\<forall>v\<in>set (discrepancies d). di_stock_exit_id v \<in> ex_id ` set (exits d)) \<and>
     distinct (map di_stock_exit_id (discrepancies d)) \<and>
     distinct (map so_stock_exit_id (stockouts d))"

lemma distinct_sku_keys: "distinct (map sku_id ss) \<Longrightarrow> distinct (map sku_key ss)"
  by (auto simp: distinct_map sku_key_def inj_on_def)

section \<open>Lemmas\<close>

lemma map_of_upsert_all:
  "distinct (map fst rows) \<Longrightarrow>
   map_of (upsert_all rows t) k = (case map_of rows k of None \<Rightarrow> map_of t k | Some v \<Rightarrow> Some v)"
proof (induction rows arbitrary: t)
  case (Cons r rows)
  obtain k' v where r: "r = (k', v)" by force
  with Cons.prems have "map_of rows k' = None" by (auto simp: map_of_eq_None_iff)
  with Cons r show ?case
    by (auto simp: upsert_all_def map_of_upsert split: option.splits)
qed (simp add: upsert_all_def)

lemma distinct_upsert_all:
  "distinct (map fst t) \<Longrightarrow> distinct (map fst (upsert_all rows t))"
  by (induction rows arbitrary: t) (auto simp: upsert_all_def split: prod.splits)

lemma keys_upsert_all: "fst ` set (upsert_all rows t) = fst ` set rows \<union> fst ` set t"
  by (induction rows arbitrary: t) (auto simp: upsert_all_def keys_upsert split: prod.splits)

lemma map_of_sku_rows:
  assumes "distinct (map sku_id (skus d))" and "s \<in> set (skus d)"
  shows "map_of (map (\<lambda>s. (sku_key s, f (sku_key s))) (skus d)) (sku_key s) = Some (f (sku_key s))"
proof -
  have "distinct (map fst (map (\<lambda>s. (sku_key s, f (sku_key s))) (skus d)))"
    using distinct_sku_keys [OF assms(1)] by (simp add: comp_def)
  with assms(2) show ?thesis by (intro map_of_is_SomeI) auto
qed

lemma map_of_derived_rows:
  assumes "distinct (map sku_id (skus d))" and "s \<in> set (skus d)"
  shows "map_of (map (\<lambda>(k, q). (k, g q)) (derive_balances wm d)) (sku_key s) =
    Some (g (derived_quantity wm d (sku_key s)))"
  using map_of_sku_rows [OF assms, of "\<lambda>k. g (derived_quantity wm d k)"]
  by (simp add: derive_balances_def comp_def)

lemma range_split:
  "wm \<le> c \<Longrightarrow> received (\<lambda>t. wm \<le> t) d k =
     received (\<lambda>t. wm \<le> t \<and> t < c) d k + received (\<lambda>t. c \<le> t) d k"
  "wm \<le> c \<Longrightarrow> dispatched (\<lambda>t. wm \<le> t) d k =
     dispatched (\<lambda>t. wm \<le> t \<and> t < c) d k + dispatched (\<lambda>t. c \<le> t) d k"
  unfolding received_def dispatched_def
  by (subst sum_where_split [where R = "\<lambda>e. en_created_at e < c"],
      intro arg_cong2 [where f = "(+)"] sum_where_cong, auto)
     (subst sum_where_split [where R = "\<lambda>e. ex_created_at e < c"],
      intro arg_cong2 [where f = "(+)"] sum_where_cong, auto)

lemma upsert_checkpoints_fields [simp]:
  "clients (upsert_checkpoints wm c d) = clients d"
  "skus (upsert_checkpoints wm c d) = skus d"
  "entries (upsert_checkpoints wm c d) = entries d"
  "exits (upsert_checkpoints wm c d) = exits d"
  "stockouts (upsert_checkpoints wm c d) = stockouts d"
  "discrepancies (upsert_checkpoints wm c d) = discrepancies d"
  "balances (upsert_checkpoints wm c d) = balances d"
  by (simp_all add: upsert_checkpoints_def)

lemma upsert_balances_fields [simp]:
  "clients (upsert_balances now wm d) = clients d"
  "skus (upsert_balances now wm d) = skus d"
  "entries (upsert_balances now wm d) = entries d"
  "exits (upsert_balances now wm d) = exits d"
  "stockouts (upsert_balances now wm d) = stockouts d"
  "discrepancies (upsert_balances now wm d) = discrepancies d"
  "checkpoints (upsert_balances now wm d) = checkpoints d"
  by (simp_all add: upsert_balances_def)

lemma base_after_checkpoint:
  assumes "distinct (map sku_id (skus d))" and "s \<in> set (skus d)"
  shows "base_quantity (upsert_checkpoints wm c d) (sku_key s) =
    base_quantity d (sku_key s) + received (\<lambda>t. wm \<le> t \<and> t < c) d (sku_key s)
      - dispatched (\<lambda>t. wm \<le> t \<and> t < c) d (sku_key s)"
proof -
  let ?f = "\<lambda>k. \<lparr>cp_quantity = base_quantity d k + received (\<lambda>t. wm \<le> t \<and> t < c) d k
        - dispatched (\<lambda>t. wm \<le> t \<and> t < c) d k, cp_at = c\<rparr>"
  have rows: "checkpoint_rows wm c d = map (\<lambda>s. (sku_key s, ?f (sku_key s))) (skus d)"
    by (simp add: checkpoint_rows_def)
  have "distinct (map fst (checkpoint_rows wm c d))"
    using distinct_sku_keys [OF assms(1)] by (simp add: rows comp_def)
  then have "map_of (checkpoints (upsert_checkpoints wm c d)) (sku_key s) = Some (?f (sku_key s))"
    using map_of_sku_rows [OF assms, of ?f]
    by (simp add: upsert_checkpoints_def map_of_upsert_all rows)
  then show ?thesis by (simp add: base_quantity_def)
qed

lemma derived_after_checkpoint:
  assumes "distinct (map sku_id (skus d))" and "s \<in> set (skus d)" and "wm \<le> c"
  shows "derived_quantity c (upsert_checkpoints wm c d) (sku_key s) = derived_quantity wm d (sku_key s)"
  using base_after_checkpoint [OF assms(1,2), of wm c] range_split [OF assms(3), of d]
  by (simp add: derived_quantity_def received_def dispatched_def)

section \<open>Checkpoints keep the derivation\<close>

text \<open>
  The contract retention rests on, over an abstract store: taking a checkpoint at a later instant
  leaves every derived value unchanged, and so does forgetting what is older than the checkpoint.
  The client's lemma is the whole retention run.
\<close>

locale checkpointed_ledger =
  fixes derived :: "instant \<Rightarrow> 'db \<Rightarrow> 'k \<Rightarrow> int"
    and checkpoint :: "instant \<Rightarrow> instant \<Rightarrow> 'db \<Rightarrow> 'db"
    and forgets :: "instant \<Rightarrow> 'db \<Rightarrow> 'db \<Rightarrow> bool"
    and live :: "'db \<Rightarrow> 'k \<Rightarrow> bool"
  assumes checkpoint_derived:
      "live d k \<Longrightarrow> wm \<le> c \<Longrightarrow> derived c (checkpoint wm c d) k = derived wm d k"
    and checkpoint_live: "live (checkpoint wm c d) k = live d k"
    and forgets_derived: "forgets c d d' \<Longrightarrow> derived c d' k = derived c d k"
    and forgets_live: "forgets c d d' \<Longrightarrow> live d' k = live d k"
begin

lemma forgets_star_derived: "(forgets c)\<^sup>*\<^sup>* d d' \<Longrightarrow> derived c d' k = derived c d k"
  by (induction rule: rtranclp_induct) (auto simp: forgets_derived)

lemma forgets_star_live: "(forgets c)\<^sup>*\<^sup>* d d' \<Longrightarrow> live d' k = live d k"
  by (induction rule: rtranclp_induct) (auto simp: forgets_live)

lemma retention_run:
  "live d k \<Longrightarrow> wm \<le> c \<Longrightarrow> (forgets c)\<^sup>*\<^sup>* (checkpoint wm c d) d' \<Longrightarrow>
   derived c d' k = derived wm d k"
  by (simp add: forgets_star_derived checkpoint_derived)

lemma retention_chain:
  "live d k \<Longrightarrow> wm \<le> c \<Longrightarrow> c \<le> c' \<Longrightarrow> (forgets c)\<^sup>*\<^sup>* (checkpoint wm c d) d' \<Longrightarrow>
   (forgets c')\<^sup>*\<^sup>* (checkpoint c c' d') d'' \<Longrightarrow> derived c' d'' k = derived wm d k"
  by (metis retention_run checkpoint_live forgets_star_live)

end

text \<open>What a retention delete may do to the database: drop movements older than the cutoff, and
  rows of the two tables that hang off exits.\<close>

definition forgets_before :: "instant \<Rightarrow> inventory_db \<Rightarrow> inventory_db \<Rightarrow> bool" where
  "forgets_before c d d' \<longleftrightarrow>
     filter (\<lambda>e. c \<le> en_created_at e) (entries d') = filter (\<lambda>e. c \<le> en_created_at e) (entries d) \<and>
     filter (\<lambda>x. c \<le> ex_created_at x) (exits d') = filter (\<lambda>x. c \<le> ex_created_at x) (exits d) \<and>
     skus d' = skus d \<and> clients d' = clients d \<and> balances d' = balances d \<and>
     checkpoints d' = checkpoints d"

lemma received_filter:
  "received (\<lambda>t. c \<le> t) d k =
   sum_where (\<lambda>e. en_key e = k) en_quantity (filter (\<lambda>e. c \<le> en_created_at e) (entries d))"
  by (auto simp: received_def sum_where_filter intro!: sum_where_cong)

lemma dispatched_filter:
  "dispatched (\<lambda>t. c \<le> t) d k =
   sum_where (\<lambda>x. ex_key x = k) ex_quantity (filter (\<lambda>x. c \<le> ex_created_at x) (exits d))"
  by (auto simp: dispatched_def sum_where_filter intro!: sum_where_cong)

lemma forgets_before_derived:
  "forgets_before c d d' \<Longrightarrow> derived_quantity c d' k = derived_quantity c d k"
  by (simp add: derived_quantity_def base_quantity_def received_filter dispatched_filter
      forgets_before_def)

definition live_key :: "inventory_db \<Rightarrow> stock_key \<Rightarrow> bool" where
  "live_key d k \<longleftrightarrow> distinct (map sku_id (skus d)) \<and> k \<in> sku_key ` set (skus d)"

interpretation ledger: checkpointed_ledger derived_quantity upsert_checkpoints forgets_before live_key
proof
  show "derived_quantity c (upsert_checkpoints wm c d) k = derived_quantity wm d k"
    if "live_key d k" and "wm \<le> c" for d k wm c
    using that derived_after_checkpoint by (auto simp: live_key_def)
  show "live_key (upsert_checkpoints wm c d) k = live_key d k" for wm c d k
    by (simp add: live_key_def)
  show "derived_quantity c d' k = derived_quantity c d k" if "forgets_before c d d'" for c d d' k
    using that by (rule forgets_before_derived)
  show "live_key d' k = live_key d k" if "forgets_before c d d'" for c d d' k
    using that by (simp add: live_key_def forgets_before_def)
qed

section \<open>Watermarks\<close>

text \<open>A ledger is at \<open>wm\<close> when every checkpoint row carries that instant (\<open>BEGINNING_OF_TIME\<close> when
  there is none).\<close>

definition ledger_at :: "instant \<Rightarrow> inventory_db \<Rightarrow> bool" where
  "ledger_at wm d \<longleftrightarrow>
     (if checkpoints d = [] then wm = BEGINNING_OF_TIME else set (map (cp_at \<circ> snd) (checkpoints d)) = {wm})"

lemma singleton_Min_Max:
  fixes S :: "int set"
  assumes "finite S" and "S \<noteq> {}"
  shows "S = {x} \<longleftrightarrow> Min S = Max S \<and> Max S = x"
proof
  assume mm: "Min S = Max S \<and> Max S = x"
  have "y = x" if "y \<in> S" for y
    using Min_le [OF assms(1) that] Max_ge [OF assms(1) that] mm by simp
  moreover have "x \<in> S" using Max_in [OF assms] mm by simp
  ultimately show "S = {x}" by blast
qed simp

lemma watermark_row_at:
  "ledger_at wm d \<longleftrightarrow> (\<exists>r. watermark_row d = Inr r \<and> coalesce r BEGINNING_OF_TIME = wm)"
proof (cases "checkpoints d = []")
  case False
  define S where "S = set (map (cp_at \<circ> snd) (checkpoints d))"
  have S: "finite S" "S \<noteq> {}" using False by (simp_all add: S_def)
  have row: "watermark_row d = (if Min S \<noteq> Max S
      then Inl (DomainError (LedgerCheckpointError ''stock ledger checkpoints disagree on their instant''))
      else Inr (Some (Max S)))"
    using False unfolding watermark_row_def Let_def S_def by simp
  have "ledger_at wm d \<longleftrightarrow> S = {wm}"
    using False unfolding ledger_at_def S_def by simp
  then show ?thesis
    unfolding row singleton_Min_Max [OF S] by auto
qed (auto simp: ledger_at_def watermark_row_def)

lemma ledger_at_cong: "checkpoints d = checkpoints d' \<Longrightarrow> ledger_at wm d = ledger_at wm d'"
  by (simp add: ledger_at_def)

lemma ledger_at_unique: "ledger_at wm d \<Longrightarrow> ledger_at wm' d \<Longrightarrow> wm = wm'"
  by (auto simp: watermark_row_at)

lemma ledger_at_upsert:
  assumes "fst ` set (checkpoints d) \<subseteq> sku_key ` set (skus d)"
    and "distinct (map fst (checkpoints d))" and "distinct (map sku_id (skus d))" and "skus d \<noteq> []"
  shows "ledger_at c (upsert_checkpoints wm c d)"
proof -
  let ?t = "checkpoints (upsert_checkpoints wm c d)" and ?rows = "checkpoint_rows wm c d"
  have keys: "fst ` set ?rows = sku_key ` set (skus d)"
    by (force simp: checkpoint_rows_def)
  have dist: "distinct (map fst ?rows)"
    using distinct_sku_keys [OF assms(3)] by (simp add: checkpoint_rows_def comp_def)
  have kt: "fst ` set ?t = sku_key ` set (skus d)"
    using assms(1) by (auto simp: upsert_checkpoints_def keys_upsert_all keys)
  have "cp_at v = c" if kv: "(k, v) \<in> set ?t" for k v
  proof -
    have "distinct (map fst ?t)"
      using assms(2) by (simp add: upsert_checkpoints_def distinct_upsert_all)
    with kv have "map_of ?t k = Some v" by simp
    moreover have "k \<in> fst ` set ?rows" using kv kt keys by force
    then obtain v' where v': "map_of ?rows k = Some v'" by (auto simp: map_of_eq_None_iff dest!: weak_map_of_SomeI)
    ultimately have "v = v'"
      by (simp add: upsert_checkpoints_def map_of_upsert_all [OF dist])
    with map_of_SomeD [OF v'] show ?thesis by (auto simp: checkpoint_rows_def)
  qed
  then have "set (map (cp_at \<circ> snd) ?t) \<subseteq> {c}" by auto
  moreover have "?t \<noteq> []" using kt assms(4) by (metis image_is_empty set_empty)
  then have "set (map (cp_at \<circ> snd) ?t) \<noteq> {}" by simp
  ultimately have "set (map (cp_at \<circ> snd) ?t) = {c}" by (metis subset_singletonD)
  with \<open>?t \<noteq> []\<close> show ?thesis by (simp add: ledger_at_def del: set_map)
qed

section \<open>The transactions\<close>

text \<open>Every function of the module starts from a watermark; what that gives.\<close>

lemma wp_watermark_params:
  assumes "\<And>fs. True \<in> set (faults s) \<Longrightarrow> set fs \<subseteq> set (faults s) \<Longrightarrow> E SQLAlchemyError (s\<lparr>faults := fs\<rparr>)"
    and "\<And>fs e. \<nexists>wm. ledger_at wm (working s) \<Longrightarrow> set fs \<subseteq> set (faults s) \<Longrightarrow>
      E (DomainError (LedgerCheckpointError e)) (s\<lparr>faults := fs\<rparr>)"
    and "\<And>fs wm. ledger_at wm (working s) \<Longrightarrow> set fs \<subseteq> set (faults s) \<Longrightarrow> Q wm (s\<lparr>faults := fs\<rparr>)"
  shows "wp watermark_params Q E s"
proof -
  have err: "watermark_row (working s) = Inl e \<Longrightarrow>
      (\<exists>m. e = DomainError (LedgerCheckpointError m)) \<and> (\<nexists>wm. ledger_at wm (working s))" for e
    by (auto simp: watermark_row_at watermark_row_def Let_def split: if_splits)
  show ?thesis
    unfolding watermark_params_def checkpoint_watermark_def wp_bind
  proof (rule wp_stmtI)
    show "E SQLAlchemyError (s\<lparr>faults := fs\<rparr>)"
      if "True \<in> set (faults s)" and "set fs \<subseteq> set (faults s)" for fs
      using that by (rule assms(1))
  next
    fix fs r d
    assume run: "(watermark_row (working s), working s) = (r, d)" and fs: "set fs \<subseteq> set (faults s)"
    show "case r of Inl e \<Rightarrow> E e (s\<lparr>working := d, faults := fs\<rparr>)
        | Inr v \<Rightarrow> wp (ret (coalesce v BEGINNING_OF_TIME)) Q E (s\<lparr>working := d, faults := fs\<rparr>)"
    proof (cases r)
      case (Inl e)
      with run err [of e] assms(2) fs show ?thesis by auto
    next
      case (Inr v)
      with run have "ledger_at (coalesce v BEGINNING_OF_TIME) (working s)"
        by (auto simp: watermark_row_at)
      with run Inr assms(3) fs show ?thesis by (auto simp: wp_ret)
    qed
  qed
qed

text \<open>A weakest precondition holds at the result.\<close>

lemma wp_result: "wp m Q E s \<Longrightarrow> m s = (Inr v, s') \<Longrightarrow> Q v s'"
  by (simp add: wp_def)

lemma wp_error: "wp m Q E s \<Longrightarrow> m s = (Inl e, s') \<Longrightarrow> E e s'"
  by (simp add: wp_def)

lemma wp_mono:
  assumes "wp m Q E s" and "\<And>v s. Q v s \<Longrightarrow> Q' v s" and "\<And>e s. E e s \<Longrightarrow> E' e s"
  shows "wp m Q' E' s"
  using assms by (auto simp: wp_def split: prod.splits sum.splits)

lemma wp_verify:
  "wp verify_stock_balances
     (\<lambda>rows s'. (\<exists>wm. ledger_at wm (working s) \<and> rows = drift_rows wm (working s)) \<and>
        working s' = working s \<and> committed s' = committed s \<and> set (faults s') \<subseteq> set (faults s))
     (\<lambda>e s'. working s' = working s \<and> committed s' = committed s \<and>
        (e = SQLAlchemyError \<and> True \<in> set (faults s) \<or>
         (\<exists>m. e = DomainError (LedgerCheckpointError m)) \<and> (\<nexists>wm. ledger_at wm (working s)))) s"
  unfolding verify_stock_balances_def wp_bind
  by (intro wp_watermark_params wp_queryI) auto

lemma wp_rebuild:
  "wp (rebuild_stock_balances now)
     (\<lambda>n s'. (\<exists>wm. ledger_at wm (working s) \<and> working s' = upsert_balances now wm (working s)) \<and>
        n = length (skus (working s)) \<and> committed s' = committed s)
     (\<lambda>e s'. working s' = working s \<and> committed s' = committed s) s"
  unfolding rebuild_stock_balances_def wp_bind
  by (intro wp_watermark_params wp_stmtI) auto

lemma wp_reconcile:
  "wp (reconcile_stock_balances now)
     (\<lambda>rows s'. (\<exists>wm. ledger_at wm (working s) \<and> rows = drift_rows wm (working s) \<and>
          working s' = (if rows = [] then working s else upsert_balances now wm (working s))) \<and>
        committed s' = committed s)
     (\<lambda>e s'. committed s' = committed s) s"
  unfolding reconcile_stock_balances_def wp_simps
  apply (rule wp_mono [OF wp_verify])
  subgoal for rows s1
    by (auto simp: wp_ret intro!: wp_mono [OF wp_rebuild]) (metis ledger_at_unique)
  by simp

lemma wp_write_checkpoint:
  "wp (write_ledger_checkpoint cutoff)
     (\<lambda>n s'. (\<exists>wm. ledger_at wm (working s) \<and> wm < cutoff \<and>
          working s' = upsert_checkpoints wm cutoff (working s)) \<and>
        n = length (skus (working s)) \<and> committed s' = committed s \<and>
        set (faults s') \<subseteq> set (faults s))
     (\<lambda>e s'. working s' = working s \<and> committed s' = committed s \<and>
        (e = SQLAlchemyError \<and> True \<in> set (faults s) \<or>
         (\<exists>m. e = DomainError (LedgerCheckpointError m)) \<and>
         (\<nexists>wm. ledger_at wm (working s) \<and> wm < cutoff))) s"
  unfolding write_ledger_checkpoint_def wp_bind
proof (rule wp_watermark_params)
  fix fs wm
  assume at: "ledger_at wm (working s)" and fs: "set fs \<subseteq> set (faults s)"
  have advance: "cutoff \<le> wm \<Longrightarrow> \<nexists>wm. ledger_at wm (working s) \<and> wm < cutoff"
    using ledger_at_unique [OF at] by auto
  show "wp (if cutoff \<le> wm
        then throw (DomainError (LedgerCheckpointError
              ''checkpoint cutoff must advance beyond the current watermark''))
        else stmt (\<lambda>d. (Inr (length (skus d)), upsert_checkpoints wm cutoff d)))
     (\<lambda>n s'. (\<exists>wm. ledger_at wm (working s) \<and> wm < cutoff \<and>
          working s' = upsert_checkpoints wm cutoff (working s)) \<and>
        n = length (skus (working s)) \<and> committed s' = committed s \<and>
        set (faults s') \<subseteq> set (faults s))
     (\<lambda>e s'. working s' = working s \<and> committed s' = committed s \<and>
        (e = SQLAlchemyError \<and> True \<in> set (faults s) \<or>
         (\<exists>m. e = DomainError (LedgerCheckpointError m)) \<and>
         (\<nexists>wm. ledger_at wm (working s) \<and> wm < cutoff))) (s\<lparr>faults := fs\<rparr>)"
  proof (cases "cutoff \<le> wm")
    case True
    with advance show ?thesis by (simp add: wp_throw)
  next
    case False
    with at fs show ?thesis by (auto intro!: wp_stmtI exI [of _ wm]) blast
  qed
qed auto

section \<open>Drift\<close>

definition no_drift :: "instant \<Rightarrow> inventory_db \<Rightarrow> bool" where
  "no_drift wm d \<longleftrightarrow>
     (\<forall>s\<in>set (skus d). current_stock d (sku_id s) (sku_warehouse s) = derived_quantity wm d (sku_key s))"

lemma drift_rows_empty: "drift_rows wm d = [] \<longleftrightarrow> no_drift wm d"
  by (auto simp: drift_rows_def filter_empty_conv derive_balances_def no_drift_def sku_key_def)

lemma drift_rows_mem:
  "r \<in> set (drift_rows wm d) \<longleftrightarrow>
     (\<exists>s\<in>set (skus d). r = \<lparr>dr_sku_id = sku_id s, dr_warehouse = sku_warehouse s,
         dr_stored = current_stock d (sku_id s) (sku_warehouse s),
         dr_derived = derived_quantity wm d (sku_key s)\<rparr> \<and>
       dr_stored r \<noteq> dr_derived r)"
  by (auto simp: drift_rows_def derive_balances_def sku_key_def image_iff)

lemma current_stock_rebuilt:
  assumes "distinct (map sku_id (skus d))" and "s \<in> set (skus d)"
  shows "current_stock (upsert_balances now wm d) (sku_id s) (sku_warehouse s) =
    derived_quantity wm d (sku_key s)"
proof -
  let ?g = "\<lambda>q. \<lparr>bal_quantity = q, bal_updated_at = now\<rparr>"
  have "distinct (map fst (map (\<lambda>(k, q). (k, ?g q)) (derive_balances wm d)))"
    using distinct_sku_keys [OF assms(1)] by (simp add: derive_balances_def comp_def)
  then show ?thesis
    using map_of_derived_rows [OF assms, of ?g wm]
    by (simp add: current_stock_def upsert_balances_def map_of_upsert_all sku_key_def)
qed

lemma no_drift_rebuilt:
  assumes "distinct (map sku_id (skus d))"
  shows "no_drift wm (upsert_balances now wm d)"
  using current_stock_rebuilt [OF assms]
  by (simp add: no_drift_def derived_quantity_def base_quantity_def received_def dispatched_def)

lemma ledger_at_rebuilt [simp]: "ledger_at wm (upsert_balances now wm' d) = ledger_at wm d"
  by (simp add: ledger_at_def)

lemma sorted_drift_rows:
  "sorted (map (\<lambda>r. (dr_sku_id r, dr_warehouse r)) (drift_rows wm d))"
proof -
  have eq: "map (\<lambda>r. (dr_sku_id r, dr_warehouse r)) (drift_rows wm d) =
      map fst (sort_key fst
         (filter (\<lambda>(k, q). current_stock d (fst k) (snd k) \<noteq> q) (derive_balances wm d)))"
    by (simp add: drift_rows_def comp_def case_prod_beta)
  show ?thesis unfolding eq by simp
qed

section \<open>An example database\<close>

text \<open>One client, one SKU with threshold 5 in warehouse LA, 20 units received at instant 100, 4
  dispatched at instant 200; the stored balance is given.\<close>

definition example_sku :: sku where
  "example_sku = \<lparr>sku_id = 1, sku_name = ''Lamp'', sku_code = ''LMP'', sku_client_id = ''c1'',
     sku_min_threshold = 5, sku_category = Electronics, sku_warehouse = LA\<rparr>"

definition example_db :: "int \<Rightarrow> inventory_db" where
  "example_db q =
     \<lparr>clients = [\<lparr>cl_id = ''c1'', cl_display_name = ''Acme'', cl_created_at = 1, cl_updated_at = 1\<rparr>],
      skus = [example_sku],
      entries = [\<lparr>en_id = 1, en_sku_id = 1, en_quantity = 20, en_reference = ''PO'',
                  en_warehouse = LA, en_created_at = 100, en_user_uuid = ''u''\<rparr>],
      exits = [\<lparr>ex_id = 1, ex_sku_id = 1, ex_quantity = 4, ex_type = Dispatch,
                ex_tracking = Some ''T1'', ex_warehouse = LA, ex_created_at = 200,
                ex_user_uuid = ''u''\<rparr>],
      stockouts = [], discrepancies = [],
      balances = [((1, LA), \<lparr>bal_quantity = q, bal_updated_at = 200\<rparr>)],
      checkpoints = [], next_sku = 2, next_entry = 2, next_exit = 2, next_stockout = 1,
      next_discrepancy = 1\<rparr>"

lemmas example_simps = example_db_def example_sku_def sku_key_def en_key_def ex_key_def

lemma example_schema: "schema_ok (example_db q)"
  by (simp add: schema_ok_def example_simps tracking_rule_def)

lemma example_at: "ledger_at 0 (example_db q)"
  by (simp add: ledger_at_def example_simps BEGINNING_OF_TIME_def)

lemma example_derived: "derived_quantity 0 (example_db q) (1, LA) = 16"
  by (simp add: derived_quantity_def base_quantity_def received_def dispatched_def example_simps)

lemma example_drift:
  "drift_rows 0 (example_db 18) =
     [\<lparr>dr_sku_id = 1, dr_warehouse = LA, dr_stored = 18, dr_derived = 16\<rparr>]"
  by (simp add: drift_rows_def derive_balances_def derived_quantity_def base_quantity_def
      received_def dispatched_def current_stock_def example_simps)

section \<open>Properties\<close>

text \<open>Verification reports exactly the drift. When \<open>verify_stock_balances\<close> returns, its rows
  are sorted by SKU and warehouse, and are exactly the SKUs whose stored balance differs from the
  checkpointed base plus later movements, with both values; nothing is written. With a database
  that answers it returns if and only if the checkpoints agree on one instant.\<close>

theorem verify_reports_exactly_the_drift:
  assumes "verify_stock_balances (open_session d fs) = (r, s')"
  shows "working s' = d \<and> committed s' = d \<and>
    (\<forall>rows. r = Inr rows \<longrightarrow> (\<exists>wm. ledger_at wm d \<and>
       sorted (map (\<lambda>r. (dr_sku_id r, dr_warehouse r)) rows) \<and>
       (\<forall>row. row \<in> set rows \<longleftrightarrow> (\<exists>s\<in>set (skus d).
          row = \<lparr>dr_sku_id = sku_id s, dr_warehouse = sku_warehouse s,
             dr_stored = current_stock d (sku_id s) (sku_warehouse s),
             dr_derived = derived_quantity wm d (sku_key s)\<rparr> \<and> delta row \<noteq> 0)))) \<and>
    (fs = [] \<longrightarrow> (\<exists>rows. r = Inr rows) \<longleftrightarrow> (\<exists>wm. ledger_at wm d))"
proof (intro conjI allI impI)
  note vr = wp_verify [of "open_session d fs"]
  show "working s' = d" "committed s' = d"
    using vr assms by (auto simp: wp_def split: sum.splits)
  show "\<exists>wm. ledger_at wm d \<and> sorted (map (\<lambda>r. (dr_sku_id r, dr_warehouse r)) rows) \<and>
       (\<forall>row. row \<in> set rows \<longleftrightarrow> (\<exists>s\<in>set (skus d).
          row = \<lparr>dr_sku_id = sku_id s, dr_warehouse = sku_warehouse s,
             dr_stored = current_stock d (sku_id s) (sku_warehouse s),
             dr_derived = derived_quantity wm d (sku_key s)\<rparr> \<and> delta row \<noteq> 0))"
    if "r = Inr rows" for rows
  proof -
    from wp_result [OF vr] assms that obtain wm
      where "ledger_at wm d" and "rows = drift_rows wm d" by auto
    then show ?thesis
      by (intro exI [of _ wm]) (auto simp: sorted_drift_rows drift_rows_mem delta_def)
  qed
  show "(\<exists>rows. r = Inr rows) \<longleftrightarrow> (\<exists>wm. ledger_at wm d)" if "fs = []"
    using assms that
    by (auto simp: verify_stock_balances_def watermark_params_def checkpoint_watermark_def
        tx_defs watermark_row_at split: sum.splits)
qed

theorem verify_reports_witness:
  "\<exists>wm. ledger_at wm (example_db 18) \<and> snd (verify_stock_balances (open_session (example_db 18) []))
      = open_session (example_db 18) []"
  using verify_reports_exactly_the_drift [of "example_db 18" "[]", OF prod.collapse [symmetric]]
    example_at [of 18]
  by (auto intro!: exI [of _ 0] simp: verify_stock_balances_def watermark_params_def
      checkpoint_watermark_def tx_defs watermark_row_def example_simps)

lemma run_reconcile_once:
  assumes "run_request (reconcile_once now) d fs = (r, d')"
  shows "case r of
      Inl e \<Rightarrow> d' = d
    | Inr n \<Rightarrow> \<exists>wm. ledger_at wm d \<and> n = length (drift_rows wm d) \<and>
        d' = (if n = 0 then d else upsert_balances now wm d)"
proof -
  have "wp (reconcile_once now)
      (\<lambda>n s'. \<exists>wm. ledger_at wm d \<and> n = length (drift_rows wm d) \<and>
         committed s' = (if n = 0 then d else upsert_balances now wm d))
      (\<lambda>e s'. committed s' = d) (open_session d fs)"
    unfolding reconcile_once_def wp_simps
    by (rule wp_mono [OF wp_reconcile]) (auto simp: wp_ret intro!: wp_commitI)
  from wp_run_request [OF this, of "\<lambda>p. case p of (Inl e, d') \<Rightarrow> d' = d
      | (Inr n, d') \<Rightarrow> \<exists>wm. ledger_at wm d \<and> n = length (drift_rows wm d) \<and>
          d' = (if n = 0 then d else upsert_balances now wm d)"]
  show ?thesis by (simp add: assms split: sum.splits)
qed



text \<open>C26: a ledger checkpoint moves the base of the derivation and never its value. When
  \<open>write_ledger_checkpoint\<close> returns, the cutoff lay strictly after the previous watermark, every
  SKU was checkpointed at the cutoff, and every SKU derives the same quantity from the new
  checkpoint as from the old one; when it raises nothing was written; and it is refused when the
  cutoff does not advance or the checkpoints disagree.\<close>

theorem checkpoint_keeps_derivation:
  assumes "schema_ok d" and "write_ledger_checkpoint cutoff (open_session d fs) = (r, s')"
  shows "(case r of
      Inl e \<Rightarrow> working s' = d
    | Inr n \<Rightarrow> \<exists>wm. ledger_at wm d \<and> wm < cutoff \<and> n = length (skus d) \<and>
        (skus d \<noteq> [] \<longrightarrow> ledger_at cutoff (working s')) \<and>
        (\<forall>s\<in>set (skus d). derived_quantity cutoff (working s') (sku_key s) =
           derived_quantity wm d (sku_key s))) \<and> committed s' = d \<and>
    ((\<nexists>wm. ledger_at wm d \<and> wm < cutoff) \<longrightarrow> (\<exists>e. r = Inl e))"
proof -
  note wpr = wp_write_checkpoint [of cutoff "open_session d fs"]
  have dist: "distinct (map sku_id (skus d))" "distinct (map fst (checkpoints d))"
    and fk: "fst ` set (checkpoints d) \<subseteq> sku_key ` set (skus d)"
    using assms(1) by (simp_all add: schema_ok_def)
  show ?thesis
  proof (cases r)
    case (Inl e)
    with wp_error [OF wpr] assms(2) show ?thesis by auto
  next
    case (Inr n)
    with wp_result [OF wpr] assms(2) obtain wm where wm: "ledger_at wm d" "wm < cutoff"
      and s': "working s' = upsert_checkpoints wm cutoff d" "n = length (skus d)" "committed s' = d"
      by auto
    have "\<forall>s\<in>set (skus d). derived_quantity cutoff (working s') (sku_key s) =
        derived_quantity wm d (sku_key s)"
      using ledger.checkpoint_derived [of d _ wm cutoff] wm(2) dist(1) s'(1)
      by (auto simp: live_key_def)
    with wm s' Inr ledger_at_upsert [OF fk dist(2,1), where c = cutoff and wm = wm] show ?thesis by auto
  qed
qed

theorem checkpoint_keeps_derivation_witness:
  "\<exists>s'. write_ledger_checkpoint 150 (open_session (example_db 16) []) = (Inr 1, s') \<and>
     derived_quantity 150 (working s') (1, LA) = 16"
proof -
  have run: "fst (write_ledger_checkpoint 150 (open_session (example_db 16) [])) = Inr 1"
    by (simp add: write_ledger_checkpoint_def watermark_params_def checkpoint_watermark_def
        tx_defs watermark_row_def BEGINNING_OF_TIME_def example_simps)
  then obtain s' where s': "write_ledger_checkpoint 150 (open_session (example_db 16) []) = (Inr 1, s')"
    by (metis prod.collapse)
  have sk: "skus (example_db 16) = [example_sku]" "sku_key example_sku = (1, LA)"
    by (simp_all add: example_simps)
  from checkpoint_keeps_derivation [OF example_schema s']
  obtain wm where "ledger_at wm (example_db 16)"
    and "derived_quantity 150 (working s') (1, LA) = derived_quantity wm (example_db 16) (1, LA)"
    by (auto simp: sk)
  with s' ledger_at_unique [OF example_at [of 16]] example_derived [of 16] show ?thesis by metis
qed

text \<open>The migration that introduced the balance table backfills it with what the ledger derives:
  on a ledger without checkpoints, whose movements are not older than 1970, no SKU drifts after
  the backfill, and every SKU has a row.\<close>

theorem backfill_agrees_with_ledger:
  assumes "distinct (map sku_id (skus d))" and "checkpoints d = []"
    and "\<forall>e\<in>set (entries d). BEGINNING_OF_TIME \<le> en_created_at e"
    and "\<forall>x\<in>set (exits d). BEGINNING_OF_TIME \<le> ex_created_at x"
  shows "no_drift BEGINNING_OF_TIME (backfill_balances now d) \<and>
    fst ` set (balances (backfill_balances now d)) = sku_key ` set (skus d)"
proof -
  let ?d = "backfill_balances now d"
  let ?f = "\<lambda>k. \<lparr>bal_quantity = received (\<lambda>t. True) d k - dispatched (\<lambda>t. True) d k,
      bal_updated_at = now\<rparr>"
  have all: "received (\<lambda>t. BEGINNING_OF_TIME \<le> t) d k = received (\<lambda>t. True) d k"
    "dispatched (\<lambda>t. BEGINNING_OF_TIME \<le> t) d k = dispatched (\<lambda>t. True) d k" for k
    unfolding received_def dispatched_def using assms(3,4) by (auto intro!: sum_where_cong)
  have "derived_quantity BEGINNING_OF_TIME ?d k = bal_quantity (?f k)" for k
    using all [of k] assms(2)
    by (simp add: derived_quantity_def base_quantity_def received_def dispatched_def
        backfill_balances_def)
  moreover have "map_of (balances ?d) (sku_key s) = Some (?f (sku_key s))" if "s \<in> set (skus d)" for s
    using map_of_sku_rows [OF assms(1) that, of ?f] by (simp add: backfill_balances_def)
  ultimately have "no_drift BEGINNING_OF_TIME ?d"
    by (auto simp: no_drift_def current_stock_def sku_key_def backfill_balances_def)
  moreover have "fst ` set (balances ?d) = sku_key ` set (skus d)"
    by (force simp: backfill_balances_def)
  ultimately show ?thesis by simp
qed

theorem backfill_agrees_witness:
  "no_drift 0 (backfill_balances 300 (example_db 99))"
  using backfill_agrees_with_ledger [of "example_db 99" 300]
  by (simp add: example_simps BEGINNING_OF_TIME_def)

end
