(* ===== verification/InventoryService.thy ===== *)
theory InventoryService
  imports Balances
begin

text \<open>
  The transactional rules of \<open>domains/inventory/service.py\<close>: every method of
  \<open>InventoryService\<close>, with the statements it issues in order, its \<open>try\<close> block and its
  \<open>except\<close> clauses.

  \<open>session.add\<close> queues a row; its \<open>INSERT\<close> is issued by the next flush (the autoflush of the
  balance update, or the commit), and that is where the statement stands here. \<open>session.refresh\<close>
  is a query. \<open>utc_now()\<close> is an argument for each call of it.
\<close>

section \<open>Responses\<close>

record sku_read =
  sr_id :: int
  sr_name :: string
  sr_sku :: string
  sr_client_id :: uuid
  sr_client_name :: string
  sr_category :: category
  sr_warehouse :: warehouse
  sr_min_threshold :: int
  sr_current_stock :: int

definition product_response :: "sku \<Rightarrow> string \<Rightarrow> int \<Rightarrow> sku_read" where
  "product_response s client_name stock =
     \<lparr>sr_id = sku_id s, sr_name = sku_name s, sr_sku = sku_code s, sr_client_id = sku_client_id s,
      sr_client_name = client_name, sr_category = sku_category s, sr_warehouse = sku_warehouse s,
      sr_min_threshold = sku_min_threshold s, sr_current_stock = stock\<rparr>"

definition client_response :: "client \<Rightarrow> uuid \<times> string" where
  "client_response c = (cl_id c, cl_display_name c)"

record movement_read =
  mr_movement :: movement_record
  mr_sku :: sku
  mr_client_name :: string

definition movement_response :: "movement_record \<times> sku \<times> string \<Rightarrow> movement_read" where
  "movement_response r = (case r of (m, s, c) \<Rightarrow> \<lparr>mr_movement = m, mr_sku = s, mr_client_name = c\<rparr>)"

record 'a paged =
  pg_items :: "'a list"
  pg_total :: nat
  pg_limit :: nat
  pg_offset :: nat

section \<open>Shared clauses\<close>

abbreviation inventory_error_of :: "nat \<Rightarrow> string \<Rightarrow> inventory_exn" where
  "inventory_error_of code text \<equiv> DomainError (InventoryError code text None)"

definition unavailable :: inventory_exn where
  "unavailable = inventory_error_of 503 ''Inventory service temporarily unavailable''"

definition require_admin :: "string \<Rightarrow> unit inventory_tx" where
  "require_admin role =
     (if role \<noteq> ''admin'' then throw (inventory_error_of 403 ''Administrator role required'') else ret ())"

definition persistence_failure :: "'a inventory_tx" where
  "persistence_failure = bind rollback (\<lambda>_. throw unavailable)"

text \<open>
  The \<open>except\<close> clauses. \<open>IntegrityError\<close> is a \<open>SQLAlchemyError\<close>: a method without a clause of its
  own for it (\<open>on_constraint\<close> gives nothing) answers 503. A \<open>RuntimeError\<close> is not caught.
\<close>

definition handle :: "(string \<Rightarrow> inventory_exn option) \<Rightarrow> inventory_exn \<Rightarrow> 'a inventory_tx" where
  "handle on_constraint e =
     (case e of
        DomainError x \<Rightarrow> bind rollback (\<lambda>_. throw (DomainError x))
      | IntegrityError name \<Rightarrow>
          (case on_constraint name of
             None \<Rightarrow> persistence_failure
           | Some e' \<Rightarrow> bind rollback (\<lambda>_. throw e'))
      | SQLAlchemyError \<Rightarrow> persistence_failure
      | RuntimeError m \<Rightarrow> throw (RuntimeError m))"

definition refresh :: "'a \<Rightarrow> 'a inventory_tx" where
  "refresh row = query (\<lambda>_. row)"

definition validate_sku_warehouse :: "sku option \<Rightarrow> warehouse \<Rightarrow> sku inventory_tx" where
  "validate_sku_warehouse s w =
     (case s of
        None \<Rightarrow> throw (inventory_error_of 404 ''SKU not found'')
      | Some r \<Rightarrow>
          if sku_warehouse r \<noteq> w
          then throw (inventory_error_of 400 ''Movement warehouse must match SKU warehouse'')
          else ret r)"

section \<open>Products and clients\<close>

definition service_list_products :: "nat \<Rightarrow> nat \<Rightarrow> sku_read paged inventory_tx" where
  "service_list_products limit offset =
     bind (try_except (query (\<lambda>d. list_products d limit offset)) (handle (\<lambda>_. None)))
       (\<lambda>(rows, total). ret \<lparr>pg_items = map (\<lambda>(s, c, n). product_response s c n) rows,
          pg_total = total, pg_limit = limit, pg_offset = offset\<rparr>)"

definition create_sku :: "sku_create \<Rightarrow> sku_read inventory_tx" where
  "create_sku p =
     bind (query (\<lambda>d. get_client d (sc_client_id p))) (\<lambda>client.
       if client = None then throw (inventory_error_of 422 ''Client not found'')
       else
         bind (try_except
           (bind (stmt (insert_sku
              \<lparr>sku_id = 0, sku_name = sc_name p, sku_code = sc_sku p, sku_client_id = sc_client_id p,
               sku_min_threshold = sc_min_threshold p, sku_category = sc_category p,
               sku_warehouse = sc_warehouse p\<rparr>)) (\<lambda>s.
            bind commit (\<lambda>_. refresh s)))
           (handle (\<lambda>name.
              if name = ''uq_skus_sku_warehouse''
              then Some (inventory_error_of 409 (''SKU '' @ quoted (sc_sku p) @
                '' already exists in warehouse '' @ quoted (warehouse_value (sc_warehouse p))))
              else if name = ''skus_client_id_fkey''
              then Some (inventory_error_of 422 ''Client not found'')
              else None)))
         (\<lambda>s. bind (query (\<lambda>d. get_client d (sc_client_id p))) (\<lambda>client.
           (case client of
              None \<Rightarrow> throw (RuntimeError ''Persisted SKU client is missing'')
            | Some c \<Rightarrow> ret (product_response s (cl_display_name c) 0)))))"

definition service_get_product :: "int \<Rightarrow> sku_read inventory_tx" where
  "service_get_product i =
     bind (try_except (query (\<lambda>d. get_product d i)) (handle (\<lambda>_. None)))
       (\<lambda>product. (case product of
          None \<Rightarrow> throw (inventory_error_of 404 ''SKU not found'')
        | Some (s, c, n) \<Rightarrow> ret (product_response s c n)))"

definition update_sku :: "int \<Rightarrow> sku_update \<Rightarrow> sku_read inventory_tx" where
  "update_sku i p =
     try_except
       (bind (query (\<lambda>d. get_sku_for_update d i)) (\<lambda>row.
        (case row of
           None \<Rightarrow> throw (inventory_error_of 404 ''SKU not found'')
         | Some s \<Rightarrow>
             if (case su_client_id p of None \<Rightarrow> False | Some c \<Rightarrow> c \<noteq> sku_client_id s)
             then throw (inventory_error_of 409 ''CLIENT_ID_IMMUTABLE'')
             else let s' = (case su_min_threshold p of None \<Rightarrow> s | Some t \<Rightarrow> s\<lparr>sku_min_threshold := t\<rparr>) in
               bind (execute (set_threshold i (sku_min_threshold s'))) (\<lambda>_.
               bind commit (\<lambda>_.
               bind (refresh s') (\<lambda>s'.
               bind (query (\<lambda>d. get_client d (sku_client_id s'))) (\<lambda>client.
               (case client of
                  None \<Rightarrow> throw (RuntimeError ''Persisted SKU client is missing'')
                | Some c \<Rightarrow>
                    bind (query (\<lambda>d. current_stock d i (sku_warehouse s'))) (\<lambda>n.
                      ret (product_response s' (cl_display_name c) n))))))))))
       (handle (\<lambda>_. None))"

definition service_list_clients :: "(uuid \<times> string) list inventory_tx" where
  "service_list_clients =
     bind (try_except (query list_clients) (handle (\<lambda>_. None)))
       (\<lambda>rows. ret (map client_response rows))"

definition client_name_clash :: "string \<Rightarrow> inventory_exn option" where
  "client_name_clash name =
     (if name = ''uq_clients_display_name''
      then Some (inventory_error_of 409 ''CLIENT_NAME_EXISTS'') else None)"

definition create_client ::
  "uuid \<Rightarrow> string \<Rightarrow> string \<Rightarrow> instant \<Rightarrow> instant \<Rightarrow> (uuid \<times> string) inventory_tx" where
  "create_client new_id display_name role now now' =
     bind (require_admin role) (\<lambda>_.
     bind (try_except
       (bind (stmt (insert_client
          \<lparr>cl_id = new_id, cl_display_name = display_name, cl_created_at = now, cl_updated_at = now'\<rparr>)) (\<lambda>c.
        bind commit (\<lambda>_. refresh c)))
       (handle client_name_clash))
     (\<lambda>c. ret (client_response c)))"

definition rename_client :: "uuid \<Rightarrow> string \<Rightarrow> string \<Rightarrow> instant \<Rightarrow> (uuid \<times> string) inventory_tx" where
  "rename_client c name role now =
     bind (require_admin role) (\<lambda>_.
     bind (try_except
       (bind (query (\<lambda>d. get_client d c)) (\<lambda>row.
        (case row of
           None \<Rightarrow> throw (inventory_error_of 404 ''Client not found'')
         | Some r \<Rightarrow>
             bind (stmt (rename_client_row c name now)) (\<lambda>_.
             bind commit (\<lambda>_.
             refresh (r\<lparr>cl_display_name := name, cl_updated_at := now\<rparr>))))))
       (handle client_name_clash))
     (\<lambda>r. ret (client_response r)))"

section \<open>Movements\<close>

definition entry_row :: "stock_entry_create \<Rightarrow> string \<Rightarrow> instant \<Rightarrow> stock_entry" where
  "entry_row p user now =
     \<lparr>en_id = 0, en_sku_id = ec_sku_id p, en_quantity = ec_quantity p,
      en_reference = ec_reference p, en_warehouse = ec_warehouse p, en_created_at = now,
      en_user_uuid = user\<rparr>"

definition record_inbound ::
  "stock_entry_create \<Rightarrow> string \<Rightarrow> instant \<Rightarrow> instant \<Rightarrow> stock_entry inventory_tx" where
  "record_inbound p user now now' =
     try_except
       (bind (query (\<lambda>d. get_sku_for_update d (ec_sku_id p))) (\<lambda>row.
        bind (validate_sku_warehouse row (ec_warehouse p)) (\<lambda>_.
        bind (stmt (insert_entry (entry_row p user now))) (\<lambda>entry.
        bind (execute (apply_balance_delta (ec_sku_id p) (ec_warehouse p) (ec_quantity p) now')) (\<lambda>_.
        bind commit (\<lambda>_.
        refresh entry))))))
       (handle (\<lambda>_. None))"

definition dispatch_rejection_of :: "stock_exit_create \<Rightarrow> string \<Rightarrow> dispatch_rejection option" where
  "dispatch_rejection_of p reason =
     (if xc_exit_type p \<noteq> Dispatch then None
      else Some \<lparr>rej_warehouse = xc_warehouse p, rej_reason = reason, rej_quantity = xc_quantity p\<rparr>)"

definition insufficient_stock_detail :: "string \<Rightarrow> int \<Rightarrow> int \<Rightarrow> string" where
  "insufficient_stock_detail code available requested =
     ''Insufficient stock for SKU '' @ quoted code @ ''. Available: '' @ str_int available @
     '', requested: '' @ str_int requested @ ''.''"

definition exit_row :: "stock_exit_create \<Rightarrow> string \<Rightarrow> instant \<Rightarrow> stock_exit" where
  "exit_row p user now =
     \<lparr>ex_id = 0, ex_sku_id = xc_sku_id p, ex_quantity = xc_quantity p, ex_type = xc_exit_type p,
      ex_tracking = xc_tracking p, ex_warehouse = xc_warehouse p, ex_created_at = now,
      ex_user_uuid = user\<rparr>"

definition stockout_row :: "sku \<Rightarrow> stock_exit \<Rightarrow> int \<Rightarrow> stockout_event" where
  "stockout_row s x after =
     \<lparr>so_id = 0, so_sku_id = ex_sku_id x, so_warehouse = ex_warehouse x,
      so_client_id = sku_client_id s, so_threshold = sku_min_threshold s, so_stock_after = after,
      so_stock_exit_id = ex_id x, so_occurred_at = ex_created_at x\<rparr>"

definition crosses_threshold :: "int \<Rightarrow> int \<Rightarrow> int \<Rightarrow> bool" where
  "crosses_threshold threshold available after \<longleftrightarrow>
     0 < threshold \<and> threshold < available \<and> after \<le> threshold"

definition record_outbound ::
  "stock_exit_create \<Rightarrow> string \<Rightarrow> instant \<Rightarrow> instant \<Rightarrow> stock_exit inventory_tx" where
  "record_outbound p user now now' =
     try_except
       (bind (query (\<lambda>d. get_sku_for_update d (xc_sku_id p))) (\<lambda>row.
        (case row of
           None \<Rightarrow> throw (DomainError (InventoryError 404 ''SKU not found''
                      (dispatch_rejection_of p ''SKU_NOT_FOUND'')))
         | Some s \<Rightarrow>
             if sku_warehouse s \<noteq> xc_warehouse p
             then throw (DomainError (InventoryError 400 ''Movement warehouse must match SKU warehouse''
                      (dispatch_rejection_of p ''WAREHOUSE_MISMATCH'')))
             else
               bind (query (\<lambda>d. current_stock d (xc_sku_id p) (xc_warehouse p))) (\<lambda>available.
               if available < xc_quantity p
               then throw (DomainError (InventoryError 400
                      (insufficient_stock_detail (sku_code s) available (xc_quantity p))
                      (dispatch_rejection_of p ''INSUFFICIENT_STOCK'')))
               else
                 bind (stmt (insert_exit (exit_row p user now))) (\<lambda>x.
                 bind (execute (apply_balance_delta (xc_sku_id p) (xc_warehouse p) (- xc_quantity p) now')) (\<lambda>_.
                 let after = available - xc_quantity p in
                 bind (if crosses_threshold (sku_min_threshold s) available after
                       then stmt (insert_stockout (stockout_row s x after)) else ret ()) (\<lambda>_.
                 bind commit (\<lambda>_.
                 refresh x))))))))
       (handle (\<lambda>_. None))"

definition record_discrepancy ::
  "discrepancy_create \<Rightarrow> string option \<Rightarrow> discrepancy_source \<Rightarrow> instant \<Rightarrow> discrepancy inventory_tx" where
  "record_discrepancy p user source now =
     try_except
       (bind (query (\<lambda>d. get_exit d (dc_stock_exit_id p))) (\<lambda>row.
        (case row of
           None \<Rightarrow> throw (inventory_error_of 404 ''Stock exit not found'')
         | Some x \<Rightarrow>
             if ex_type x \<noteq> Dispatch
             then throw (inventory_error_of 422 ''Discrepancy requires a dispatch stock exit'')
             else
               bind (query (\<lambda>d. discrepancy_exists d (dc_stock_exit_id p))) (\<lambda>exists.
               if exists then throw (inventory_error_of 409 ''DISCREPANCY_EXISTS'')
               else
                 bind (query (\<lambda>d. get_sku_for_update d (ex_sku_id x))) (\<lambda>owner.
                 (case owner of
                    None \<Rightarrow> throw (inventory_error_of 422 ''Stock exit SKU ownership is invalid'')
                  | Some s \<Rightarrow>
                      if sku_warehouse s \<noteq> ex_warehouse x
                      then throw (inventory_error_of 422 ''Stock exit SKU ownership is invalid'')
                      else
                        bind (stmt (insert_discrepancy
                          \<lparr>di_id = 0, di_stock_exit_id = dc_stock_exit_id p, di_sku_id = ex_sku_id x,
                           di_warehouse = ex_warehouse x, di_client_id = sku_client_id s,
                           di_quantity_delta = dc_quantity_delta p, di_source = source,
                           di_detected_at = now, di_user_uuid = user\<rparr>)) (\<lambda>v.
                        bind commit (\<lambda>_.
                        refresh v))))))))
       (handle (\<lambda>name.
          if name = ''uq_inventory_discrepancies_stock_exit_id''
          then Some (inventory_error_of 409 ''DISCREPANCY_EXISTS'') else None))"

definition service_list_movements :: "nat \<Rightarrow> nat \<Rightarrow> movement_read paged inventory_tx" where
  "service_list_movements limit offset =
     bind (try_except (query (\<lambda>d. list_movements d limit offset)) (handle (\<lambda>_. None)))
       (\<lambda>(rows, total). ret \<lparr>pg_items = map movement_response rows, pg_total = total,
          pg_limit = limit, pg_offset = offset\<rparr>)"

section \<open>Effects\<close>

text \<open>What a successful movement makes of the committed database.\<close>

definition inbound_db :: "stock_entry_create \<Rightarrow> string \<Rightarrow> instant \<Rightarrow> instant \<Rightarrow> inventory_db \<Rightarrow> inventory_db" where
  "inbound_db p user now now' d =
     apply_balance_delta (ec_sku_id p) (ec_warehouse p) (ec_quantity p) now'
       (d\<lparr>entries := entries d @ [(entry_row p user now)\<lparr>en_id := next_entry d\<rparr>],
          next_entry := next_entry d + 1\<rparr>)"

definition exit_db :: "stock_exit_create \<Rightarrow> string \<Rightarrow> instant \<Rightarrow> instant \<Rightarrow> inventory_db \<Rightarrow> inventory_db" where
  "exit_db p user now now' d =
     apply_balance_delta (xc_sku_id p) (xc_warehouse p) (- xc_quantity p) now'
       (d\<lparr>exits := exits d @ [(exit_row p user now)\<lparr>ex_id := next_exit d\<rparr>],
          next_exit := next_exit d + 1\<rparr>)"

definition outbound_db ::
  "stock_exit_create \<Rightarrow> string \<Rightarrow> instant \<Rightarrow> instant \<Rightarrow> sku \<Rightarrow> inventory_db \<Rightarrow> inventory_db" where
  "outbound_db p user now now' s d =
     (let x = (exit_row p user now)\<lparr>ex_id := next_exit d\<rparr>;
          available = current_stock d (xc_sku_id p) (xc_warehouse p);
          after = available - xc_quantity p;
          d' = exit_db p user now now' d
      in if crosses_threshold (sku_min_threshold s) available after
         then d'\<lparr>stockouts := stockouts d' @ [(stockout_row s x after)\<lparr>so_id := next_stockout d\<rparr>],
                 next_stockout := next_stockout d + 1\<rparr>
         else d')"

definition discrepancy_db ::
  "discrepancy_create \<Rightarrow> string option \<Rightarrow> discrepancy_source \<Rightarrow> instant \<Rightarrow> stock_exit \<Rightarrow> sku \<Rightarrow>
   inventory_db \<Rightarrow> inventory_db" where
  "discrepancy_db p user source now x s d =
     d\<lparr>discrepancies := discrepancies d @
          [\<lparr>di_id = next_discrepancy d, di_stock_exit_id = dc_stock_exit_id p, di_sku_id = ex_sku_id x,
            di_warehouse = ex_warehouse x, di_client_id = sku_client_id s,
            di_quantity_delta = dc_quantity_delta p, di_source = source, di_detected_at = now,
            di_user_uuid = user\<rparr>],
       next_discrepancy := next_discrepancy d + 1\<rparr>"

section \<open>Preconditions of the clauses\<close>

lemma wp_handle [wp_simps]:
  "wp (handle f e) Q E s =
     (case e of
        DomainError x \<Rightarrow> E (DomainError x) (do_rollback s)
      | IntegrityError name \<Rightarrow>
          (case f name of None \<Rightarrow> E unavailable (do_rollback s) | Some e' \<Rightarrow> E e' (do_rollback s))
      | SQLAlchemyError \<Rightarrow> E unavailable (do_rollback s)
      | RuntimeError m \<Rightarrow> E (RuntimeError m) s)"
  by (simp add: handle_def persistence_failure_def wp_simps split: exn.splits option.splits)

lemma wp_refreshI:
  assumes "\<And>fs. True \<in> set (faults s) \<Longrightarrow> set fs \<subseteq> set (faults s) \<Longrightarrow> E SQLAlchemyError (s\<lparr>faults := fs\<rparr>)"
    and "\<And>fs. set fs \<subseteq> set (faults s) \<Longrightarrow> Q row (s\<lparr>faults := fs\<rparr>)"
  shows "wp (refresh row) Q E s"
  unfolding refresh_def using assms by (rule wp_queryI)

lemma do_rollback_fields [simp]:
  "committed (do_rollback s) = committed s" "working (do_rollback s) = committed s"
  by (simp_all add: do_rollback_def)

lemma sku_found_key:
  "get_sku_for_update d i = Some s \<Longrightarrow> s \<in> set (skus d) \<and> sku_id s = i"
  by (auto simp: get_sku_for_update_def dest: find_Some_in)

lemma sku_found_exists:
  "get_sku_for_update d i = Some s \<Longrightarrow> sku_warehouse s = w \<Longrightarrow> sku_key_exists d (i, w)"
  using sku_found_key [of d i s] by (force simp: sku_key_exists_def sku_key_def)

text \<open>A request that was committed, and one that raised. \<open>done\<close> is the committed effect.\<close>

lemma wp_record_inbound:
  assumes "0 < ec_quantity p"
  shows "wp (record_inbound p user now now')
     (\<lambda>row s'. (\<exists>s. get_sku_for_update d (ec_sku_id p) = Some s \<and> sku_warehouse s = ec_warehouse p) \<and>
        row = (entry_row p user now)\<lparr>en_id := next_entry d\<rparr> \<and>
        committed s' = inbound_db p user now now' d)
     (\<lambda>e s'. (e = unavailable \<and> True \<in> set fs \<and>
          (committed s' = d \<or> committed s' = inbound_db p user now now' d \<and>
            (\<exists>s. get_sku_for_update d (ec_sku_id p) = Some s \<and> sku_warehouse s = ec_warehouse p))) \<or>
        (e = inventory_error_of 404 ''SKU not found'' \<and> committed s' = d \<and>
          get_sku_for_update d (ec_sku_id p) = None) \<or>
        (e = inventory_error_of 400 ''Movement warehouse must match SKU warehouse'' \<and> committed s' = d \<and>
          (\<exists>s. get_sku_for_update d (ec_sku_id p) = Some s \<and> sku_warehouse s \<noteq> ec_warehouse p)))
     (open_session d fs)"
proof -
  have ins: "sku_warehouse s = ec_warehouse p \<Longrightarrow> get_sku_for_update d (ec_sku_id p) = Some s \<Longrightarrow>
      insert_entry (entry_row p user now) d =
        (Inr ((entry_row p user now)\<lparr>en_id := next_entry d\<rparr>),
         d\<lparr>entries := entries d @ [(entry_row p user now)\<lparr>en_id := next_entry d\<rparr>],
           next_entry := next_entry d + 1\<rparr>)" for s
    using assms sku_found_exists [of d "ec_sku_id p" s "ec_warehouse p"]
    by (simp add: insert_entry_def entry_row_def en_key_def Let_def)
  show ?thesis
    unfolding record_inbound_def wp_simps
    apply (rule wp_queryI)
    subgoal by simp
    subgoal for fs1
      apply (cases "get_sku_for_update d (ec_sku_id p)")
      subgoal by (simp add: validate_sku_warehouse_def wp_simps)
      subgoal for s
        apply (cases "sku_warehouse s = ec_warehouse p")
        subgoal
          apply (simp add: validate_sku_warehouse_def wp_simps)
          apply (rule wp_stmtI)
          subgoal by auto
          subgoal for fs2 r d1
            apply (simp add: ins)
            apply (elim conjE)
            apply hypsubst
            by (auto simp: inbound_db_def intro!: wp_executeI wp_commitI wp_refreshI) blast+
          done
        subgoal by (simp add: validate_sku_warehouse_def wp_simps)
        done
      done
    done
qed

lemma insert_exit_valid:
  assumes "valid_exit_create p" and "get_sku_for_update d (xc_sku_id p) = Some s"
    and "sku_warehouse s = xc_warehouse p"
  shows "insert_exit (exit_row p user now) d =
    (Inr ((exit_row p user now)\<lparr>ex_id := next_exit d\<rparr>),
     d\<lparr>exits := exits d @ [(exit_row p user now)\<lparr>ex_id := next_exit d\<rparr>],
       next_exit := next_exit d + 1\<rparr>)"
  using assms(1) sku_found_exists [OF assms(2,3)]
  by (cases "xc_exit_type p")
    (auto simp: insert_exit_def exit_row_def ex_key_def Let_def valid_exit_create_def tracking_rule_def)

lemma insert_stockout_crossing:
  assumes "schema_ok d" and "crosses_threshold (sku_min_threshold s) available after"
    and "ex_id x = next_exit d"
  shows "insert_stockout (stockout_row s x after) (apply_balance_delta i w n t
      (d\<lparr>exits := exits d @ [x], next_exit := next_exit d + 1\<rparr>)) =
    (Inr (), let d' = apply_balance_delta i w n t
        (d\<lparr>exits := exits d @ [x], next_exit := next_exit d + 1\<rparr>)
      in d'\<lparr>stockouts := stockouts d' @ [(stockout_row s x after)\<lparr>so_id := next_stockout d\<rparr>],
            next_stockout := next_stockout d + 1\<rparr>)"
proof -
  have old: "so_stock_exit_id r \<noteq> next_exit d" if "r \<in> set (stockouts d)" for r
    using assms(1) that by (force simp: schema_ok_def)
  have "next_stockout (apply_balance_delta i w n t
      (d\<lparr>exits := exits d @ [x], next_exit := next_exit d + 1\<rparr>)) = next_stockout d"
    by (simp add: apply_balance_delta_def)
  then show ?thesis
    using assms old
    by (auto simp: insert_stockout_def stockout_row_def get_exit_def find_append
        crosses_threshold_def Let_def find_None_iff split: option.splits)
qed

text \<open>The rejections of \<open>record_outbound\<close>, in the order the code tests them.\<close>

definition outbound_rejection :: "stock_exit_create \<Rightarrow> inventory_db \<Rightarrow> inventory_error option" where
  "outbound_rejection p d =
     (case get_sku_for_update d (xc_sku_id p) of
        None \<Rightarrow> Some (InventoryError 404 ''SKU not found'' (dispatch_rejection_of p ''SKU_NOT_FOUND''))
      | Some s \<Rightarrow>
          if sku_warehouse s \<noteq> xc_warehouse p
          then Some (InventoryError 400 ''Movement warehouse must match SKU warehouse''
                 (dispatch_rejection_of p ''WAREHOUSE_MISMATCH''))
          else if current_stock d (xc_sku_id p) (xc_warehouse p) < xc_quantity p
          then Some (InventoryError 400
                 (insufficient_stock_detail (sku_code s)
                    (current_stock d (xc_sku_id p) (xc_warehouse p)) (xc_quantity p))
                 (dispatch_rejection_of p ''INSUFFICIENT_STOCK''))
          else None)"

definition accepted_outbound ::
  "stock_exit_create \<Rightarrow> string \<Rightarrow> instant \<Rightarrow> instant \<Rightarrow> inventory_db \<Rightarrow> inventory_db" where
  "accepted_outbound p user now now' d =
     (case get_sku_for_update d (xc_sku_id p) of
        None \<Rightarrow> d | Some s \<Rightarrow> outbound_db p user now now' s d)"

lemma wp_record_outbound:
  assumes "schema_ok d" and "valid_exit_create p"
  shows "wp (record_outbound p user now now')
     (\<lambda>row s'. outbound_rejection p d = None \<and>
        row = (exit_row p user now)\<lparr>ex_id := next_exit d\<rparr> \<and>
        committed s' = accepted_outbound p user now now' d)
     (\<lambda>e s'. (e = unavailable \<and> True \<in> set fs \<and>
          (committed s' = d \<or> outbound_rejection p d = None \<and>
             committed s' = accepted_outbound p user now now' d)) \<or>
        (\<exists>r. outbound_rejection p d = Some r \<and> e = DomainError r \<and> committed s' = d))
     (open_session d fs)"
proof (cases "get_sku_for_update d (xc_sku_id p)")
  case None
  then show ?thesis
    unfolding record_outbound_def wp_simps
    by (intro wp_queryI) (auto simp: wp_simps outbound_rejection_def)
next
  case (Some s)
  show ?thesis
  proof (cases "sku_warehouse s = xc_warehouse p")
    case False
    with Some show ?thesis
      unfolding record_outbound_def wp_simps
      by (intro wp_queryI) (auto simp: wp_simps outbound_rejection_def)
  next
    case True
    note ins = insert_exit_valid [OF assms(2) Some True, of user now]
    show ?thesis
    proof (cases "current_stock d (xc_sku_id p) (xc_warehouse p) < xc_quantity p")
      case short: True
      with Some True show ?thesis
        unfolding record_outbound_def wp_simps
        apply (intro wp_queryI)
         apply (simp)
        apply (simp add: wp_simps)
        apply (rule wp_queryI)
        by (auto simp: wp_simps outbound_rejection_def)
    next
      case enough: False
      let ?a = "current_stock d (xc_sku_id p) (xc_warehouse p)"
      have acc: "outbound_rejection p d = None"
        "accepted_outbound p user now now' d = outbound_db p user now now' s d"
        using Some True enough by (simp_all add: outbound_rejection_def accepted_outbound_def)
      show ?thesis
        unfolding record_outbound_def wp_simps acc
        apply (rule wp_queryI)
        subgoal by simp
        subgoal for fs1
          apply (simp add: Some True wp_simps)
          apply (rule wp_queryI)
          subgoal by auto
          subgoal for fs2
            apply (simp add: enough wp_simps)
            apply (rule wp_stmtI)
            subgoal by auto
            subgoal for fs3 r d1
              apply (simp add: ins)
              apply (elim conjE)
              apply hypsubst
              apply (simp add: wp_simps)
              apply (rule wp_executeI)
              subgoal by auto
              subgoal for fs4
                apply (cases "crosses_threshold (sku_min_threshold s) ?a (?a - xc_quantity p)")
                subgoal
                  apply (simp add: wp_simps Let_def)
                  apply (rule wp_stmtI)
                  subgoal by auto
                  subgoal for fs5 r5 d5
                    apply (simp add: insert_stockout_crossing [OF assms(1)])
                    apply (elim conjE)
                    apply hypsubst
                    by (auto simp: wp_simps outbound_db_def exit_db_def Let_def intro!: wp_commitI wp_refreshI)
                      blast+
                  done
                subgoal
                  by (auto simp: wp_simps Let_def outbound_db_def exit_db_def
                      intro!: wp_commitI wp_refreshI) blast+
                done
              done
            done
          done
        done
    qed
  qed
qed

definition discrepancy_rejection :: "discrepancy_create \<Rightarrow> inventory_db \<Rightarrow> (nat \<times> string) option" where
  "discrepancy_rejection p d =
     (case get_exit d (dc_stock_exit_id p) of
        None \<Rightarrow> Some (404, ''Stock exit not found'')
      | Some x \<Rightarrow>
          if ex_type x \<noteq> Dispatch then Some (422, ''Discrepancy requires a dispatch stock exit'')
          else if discrepancy_exists d (dc_stock_exit_id p) then Some (409, ''DISCREPANCY_EXISTS'')
          else (case get_sku_for_update d (ex_sku_id x) of
              None \<Rightarrow> Some (422, ''Stock exit SKU ownership is invalid'')
            | Some s \<Rightarrow> if sku_warehouse s \<noteq> ex_warehouse x
                then Some (422, ''Stock exit SKU ownership is invalid'') else None))"

definition accepted_discrepancy ::
  "discrepancy_create \<Rightarrow> string option \<Rightarrow> discrepancy_source \<Rightarrow> instant \<Rightarrow> inventory_db \<Rightarrow> inventory_db" where
  "accepted_discrepancy p user source now d =
     (case get_exit d (dc_stock_exit_id p) of
        None \<Rightarrow> d
      | Some x \<Rightarrow> (case get_sku_for_update d (ex_sku_id x) of
            None \<Rightarrow> d | Some s \<Rightarrow> discrepancy_db p user source now x s d))"

lemma wp_record_discrepancy:
  assumes "valid_discrepancy_create p"
  shows "wp (record_discrepancy p user source now)
     (\<lambda>row s'. discrepancy_rejection p d = None \<and>
        committed s' = accepted_discrepancy p user source now d)
     (\<lambda>e s'. (e = unavailable \<and> True \<in> set fs \<and>
          (committed s' = d \<or> discrepancy_rejection p d = None \<and>
             committed s' = accepted_discrepancy p user source now d)) \<or>
        (\<exists>code text. discrepancy_rejection p d = Some (code, text) \<and>
           e = inventory_error_of code text \<and> committed s' = d))
     (open_session d fs)"
proof (cases "get_exit d (dc_stock_exit_id p)")
  case None
  then show ?thesis
    unfolding record_discrepancy_def wp_simps
    by (intro wp_queryI) (auto simp: wp_simps discrepancy_rejection_def)
next
  case (Some x)
  have nz: "dc_quantity_delta p \<noteq> 0" using assms by (simp add: valid_discrepancy_create_def)
  show ?thesis
  proof (cases "ex_type x = Dispatch \<and> \<not> discrepancy_exists d (dc_stock_exit_id p)")
    case False
    with Some show ?thesis
      unfolding record_discrepancy_def wp_simps
      by (intro wp_queryI) (auto simp: wp_simps discrepancy_rejection_def intro!: wp_queryI)
  next
    case fresh: True
    show ?thesis
    proof (cases "get_sku_for_update d (ex_sku_id x)")
      case None
      with Some fresh show ?thesis
        unfolding record_discrepancy_def wp_simps
        apply (intro wp_queryI)
         apply (auto simp: wp_simps discrepancy_rejection_def intro!: wp_queryI)
        by blast+
    next
      case owner: (Some s)
      show ?thesis
      proof (cases "sku_warehouse s = ex_warehouse x")
        case False
        have rej: "discrepancy_rejection p d = Some (422, ''Stock exit SKU ownership is invalid'')"
          using Some fresh owner False by (simp add: discrepancy_rejection_def)
        show ?thesis
          unfolding record_discrepancy_def wp_simps rej
          apply (intro wp_queryI)
           apply (auto simp: Some fresh owner False wp_simps intro!: wp_queryI)
          by blast+
      next
        case True
        have acc: "discrepancy_rejection p d = None"
          "accepted_discrepancy p user source now d = discrepancy_db p user source now x s d"
          using Some fresh owner True by (simp_all add: discrepancy_rejection_def accepted_discrepancy_def)
        show ?thesis
          unfolding record_discrepancy_def wp_simps acc
          apply (intro wp_queryI)
           apply (auto simp: Some fresh owner True nz wp_simps insert_discrepancy_def Let_def
                  discrepancy_db_def intro!: wp_queryI wp_stmtI wp_commitI wp_refreshI split: if_splits)
          by blast+
      qed
    qed
  qed
qed

definition sku_row :: "sku_create \<Rightarrow> int \<Rightarrow> sku" where
  "sku_row p i =
     \<lparr>sku_id = i, sku_name = sc_name p, sku_code = sc_sku p, sku_client_id = sc_client_id p,
      sku_min_threshold = sc_min_threshold p, sku_category = sc_category p, sku_warehouse = sc_warehouse p\<rparr>"

definition sku_taken :: "sku_create \<Rightarrow> inventory_db \<Rightarrow> bool" where
  "sku_taken p d \<longleftrightarrow> (\<exists>r\<in>set (skus d). sku_code r = sc_sku p \<and> sku_warehouse r = sc_warehouse p)"

definition created_sku :: "sku_create \<Rightarrow> inventory_db \<Rightarrow> inventory_db" where
  "created_sku p d = d\<lparr>skus := skus d @ [sku_row p (next_sku d)], next_sku := next_sku d + 1\<rparr>"

lemma insert_sku_valid:
  assumes "valid_sku_create p" and "get_client d (sc_client_id p) = Some c"
  shows "insert_sku \<lparr>sku_id = 0, sku_name = sc_name p, sku_code = sc_sku p, sku_client_id = sc_client_id p,
      sku_min_threshold = sc_min_threshold p, sku_category = sc_category p, sku_warehouse = sc_warehouse p\<rparr> d =
    (if sku_taken p d then (Inl (IntegrityError ''uq_skus_sku_warehouse''), d)
     else (Inr (sku_row p (next_sku d)), created_sku p d))"
  using assms by (simp add: insert_sku_def valid_sku_create_def sku_taken_def sku_row_def created_sku_def Let_def)

lemma created_sku_client [simp]: "get_client (created_sku p d) c = get_client d c"
  by (simp add: get_client_def created_sku_def)

lemma wp_create_sku:
  assumes "valid_sku_create p"
  shows "wp (create_sku p)
     (\<lambda>row s'. \<not> sku_taken p d \<and> committed s' = created_sku p d \<and>
        (\<exists>c. get_client d (sc_client_id p) = Some c \<and>
          row = product_response (sku_row p (next_sku d)) (cl_display_name c) 0))
     (\<lambda>e s'. ((e = unavailable \<or> e = SQLAlchemyError) \<and> True \<in> set fs \<and>
          (committed s' = d \<or> committed s' = created_sku p d \<and> \<not> sku_taken p d \<and>
             get_client d (sc_client_id p) \<noteq> None)) \<or>
        (e = inventory_error_of 422 ''Client not found'' \<and> committed s' = d \<and>
           get_client d (sc_client_id p) = None) \<or>
        (\<exists>text. e = inventory_error_of 409 text \<and> committed s' = d \<and> sku_taken p d))
     (open_session d fs)"
proof (cases "get_client d (sc_client_id p)")
  case None
  then show ?thesis
    unfolding create_sku_def wp_simps by (intro wp_queryI) (auto simp: wp_simps)
next
  case (Some c)
  note ins = insert_sku_valid [OF assms Some]
  show ?thesis
    unfolding create_sku_def wp_simps
    apply (intro wp_queryI)
    subgoal by simp
    subgoal for fs1
      apply (simp add: Some wp_simps)
      apply (intro wp_stmtI)
      subgoal by auto
      subgoal for fs2 r d1
        apply (cases "sku_taken p d")
        subgoal by (auto simp: ins)
        subgoal
          apply (simp add: ins)
          apply (elim conjE)
          apply hypsubst
          apply (auto simp: wp_simps Some intro!: wp_commitI wp_refreshI wp_queryI)
          by blast+
        done
      done
    done
qed

definition updated_sku :: "sku_update \<Rightarrow> sku \<Rightarrow> sku" where
  "updated_sku p s = (case su_min_threshold p of None \<Rightarrow> s | Some t \<Rightarrow> s\<lparr>sku_min_threshold := t\<rparr>)"

lemma updated_sku_fields [simp]:
  "sku_id (updated_sku p s) = sku_id s" "sku_client_id (updated_sku p s) = sku_client_id s"
  "sku_warehouse (updated_sku p s) = sku_warehouse s" "sku_key (updated_sku p s) = sku_key s"
  by (simp_all add: updated_sku_def sku_key_def split: option.splits)

lemma wp_update_sku:
  "wp (update_sku i p)
     (\<lambda>row s'. \<exists>s. get_sku_for_update d i = Some s \<and>
        (su_client_id p = None \<or> su_client_id p = Some (sku_client_id s)) \<and>
        committed s' = set_threshold i (sku_min_threshold (updated_sku p s)) d \<and>
        sr_id row = sku_id s \<and> sr_min_threshold row = sku_min_threshold (updated_sku p s) \<and>
        sr_current_stock row = current_stock (committed s') i (sku_warehouse s))
     (\<lambda>e s'. committed s' = d \<and>
          (e = unavailable \<and> True \<in> set fs \<or>
           e = inventory_error_of 404 ''SKU not found'' \<and> get_sku_for_update d i = None \<or>
           e = inventory_error_of 409 ''CLIENT_ID_IMMUTABLE'' \<and>
             (\<exists>s c. get_sku_for_update d i = Some s \<and> su_client_id p = Some c \<and> c \<noteq> sku_client_id s)) \<or>
        (\<exists>s. get_sku_for_update d i = Some s \<and>
          committed s' = set_threshold i (sku_min_threshold (updated_sku p s)) d \<and>
          (e = unavailable \<and> True \<in> set fs \<or>
           (\<exists>m. e = RuntimeError m) \<and> get_client d (sku_client_id s) = None)))
     (open_session d fs)"
proof (cases "get_sku_for_update d i")
  case None
  then show ?thesis
    unfolding update_sku_def wp_simps by (intro wp_queryI) (auto simp: wp_simps)
next
  case (Some s)
  have cl: "get_client (set_threshold i t d) c = get_client d c" for t c
    by (simp add: get_client_def set_threshold_def)
  show ?thesis
  proof (cases "case su_client_id p of None \<Rightarrow> False | Some c \<Rightarrow> c \<noteq> sku_client_id s")
    case True
    with Some show ?thesis
      unfolding update_sku_def wp_simps
      by (intro wp_queryI) (auto simp: wp_simps split: option.splits)
  next
    case False
    then have same: "su_client_id p = None \<or> su_client_id p = Some (sku_client_id s)"
      by (auto split: option.splits)
    show ?thesis
      unfolding update_sku_def wp_simps
      apply (intro wp_queryI)
      subgoal by simp
      subgoal for fs1
        apply (simp add: Some False wp_simps updated_sku_def [symmetric] Let_def)
        apply (intro wp_executeI)
        subgoal by auto
        subgoal for fs2
          using same
          apply (cases "get_client d (sku_client_id s)")
           apply (auto simp: wp_simps cl product_response_def Some
                  intro!: wp_commitI wp_refreshI wp_queryI)
          by blast+
        done
      done
  qed
qed

definition client_row :: "uuid \<Rightarrow> string \<Rightarrow> instant \<Rightarrow> instant \<Rightarrow> client" where
  "client_row i name now now' =
     \<lparr>cl_id = i, cl_display_name = name, cl_created_at = now, cl_updated_at = now'\<rparr>"

definition name_taken :: "string \<Rightarrow> inventory_db \<Rightarrow> bool" where
  "name_taken name d \<longleftrightarrow> name \<in> cl_display_name ` set (clients d)"

lemma wp_create_client:
  assumes "new_id \<notin> cl_id ` set (clients d)"
  shows "wp (create_client new_id name role now now')
     (\<lambda>row s'. role = ''admin'' \<and> \<not> name_taken name d \<and> row = (new_id, name) \<and>
        committed s' = d\<lparr>clients := clients d @ [client_row new_id name now now']\<rparr>)
     (\<lambda>e s'. committed s' = d \<and>
          (e = unavailable \<and> True \<in> set fs \<or>
           e = inventory_error_of 403 ''Administrator role required'' \<and> role \<noteq> ''admin'' \<or>
           e = inventory_error_of 409 ''CLIENT_NAME_EXISTS'' \<and> name_taken name d \<and> role = ''admin'') \<or>
        committed s' = d\<lparr>clients := clients d @ [client_row new_id name now now']\<rparr> \<and>
          role = ''admin'' \<and> \<not> name_taken name d \<and> e = unavailable \<and> True \<in> set fs)
     (open_session d fs)"
proof (cases "role = ''admin''")
  case False
  then show ?thesis
    unfolding create_client_def require_admin_def by (simp add: wp_simps)
next
  case True
  have ins: "insert_client (client_row new_id name now now') d =
      (if name_taken name d then (Inl (IntegrityError ''uq_clients_display_name''), d)
       else (Inr (client_row new_id name now now'),
             d\<lparr>clients := clients d @ [client_row new_id name now now']\<rparr>))"
    using assms by (force simp: insert_client_def client_row_def name_taken_def)
  have clash: "client_name_clash ''uq_clients_display_name'' =
      Some (inventory_error_of 409 ''CLIENT_NAME_EXISTS'')"
    by (simp add: client_name_clash_def)
  show ?thesis
    unfolding create_client_def require_admin_def client_row_def [symmetric]
    apply (simp only: True wp_simps simp_thms if_False)
    apply (rule wp_stmtI)
    subgoal by (simp add: wp_simps)
    subgoal for fs1 r d1
      apply (cases "name_taken name d")
      subgoal by (auto simp: ins clash wp_simps)
      subgoal
        apply (simp add: ins)
        apply (elim conjE)
        apply hypsubst
        apply (auto simp: wp_simps client_response_def client_row_def intro!: wp_commitI wp_refreshI)
        by blast+
      done
    done
qed

definition renamed :: "uuid \<Rightarrow> string \<Rightarrow> instant \<Rightarrow> inventory_db \<Rightarrow> inventory_db" where
  "renamed c name now d =
     d\<lparr>clients := map (\<lambda>r. if cl_id r = c then r\<lparr>cl_display_name := name, cl_updated_at := now\<rparr> else r)
         (clients d)\<rparr>"

definition name_taken_by_other :: "uuid \<Rightarrow> string \<Rightarrow> inventory_db \<Rightarrow> bool" where
  "name_taken_by_other c name d \<longleftrightarrow> (\<exists>r\<in>set (clients d). cl_id r \<noteq> c \<and> cl_display_name r = name)"

lemma wp_rename_client:
  "wp (rename_client c name role now)
     (\<lambda>row s'. role = ''admin'' \<and> get_client d c \<noteq> None \<and> \<not> name_taken_by_other c name d \<and>
        row = (c, name) \<and> committed s' = renamed c name now d)
     (\<lambda>e s'. committed s' = d \<and>
          (e = unavailable \<and> True \<in> set fs \<or>
           e = inventory_error_of 403 ''Administrator role required'' \<and> role \<noteq> ''admin'' \<or>
           e = inventory_error_of 404 ''Client not found'' \<and> get_client d c = None \<and> role = ''admin'' \<or>
           e = inventory_error_of 409 ''CLIENT_NAME_EXISTS'' \<and> name_taken_by_other c name d \<and>
             role = ''admin'') \<or>
        committed s' = renamed c name now d \<and> role = ''admin'' \<and> get_client d c \<noteq> None \<and>
          \<not> name_taken_by_other c name d \<and> e = unavailable \<and> True \<in> set fs)
     (open_session d fs)"
proof (cases "role = ''admin''")
  case False
  then show ?thesis
    unfolding rename_client_def require_admin_def by (simp add: wp_simps)
next
  case True
  have ren: "rename_client_row c name now d =
      (if name_taken_by_other c name d then (Inl (IntegrityError ''uq_clients_display_name''), d)
       else (Inr (), renamed c name now d))"
    by (simp add: rename_client_row_def name_taken_by_other_def renamed_def)
  have clash: "client_name_clash ''uq_clients_display_name'' =
      Some (inventory_error_of 409 ''CLIENT_NAME_EXISTS'')"
    by (simp add: client_name_clash_def)
  show ?thesis
  proof (cases "get_client d c")
    case None
    show ?thesis
      unfolding rename_client_def require_admin_def
      apply (simp only: True wp_simps simp_thms if_False)
      apply (rule wp_queryI)
      using None by (auto simp: wp_simps)
  next
    case (Some r0)
    then have r0: "cl_id r0 = c" by (auto simp: get_client_def dest: find_Some_in)
    show ?thesis
      unfolding rename_client_def require_admin_def
      apply (simp only: True wp_simps simp_thms if_False)
      apply (rule wp_queryI)
      subgoal by (simp add: wp_simps)
      subgoal for fs1
        apply (simp add: Some wp_simps)
        apply (rule wp_stmtI)
        subgoal by (auto simp: wp_simps)
        subgoal for fs2 r d1
          apply (cases "name_taken_by_other c name d")
          subgoal by (auto simp: ren clash wp_simps)
          subgoal
            apply (simp add: ren)
            apply (elim conjE)
            apply hypsubst
            apply (auto simp: wp_simps client_response_def r0 intro!: wp_commitI wp_refreshI)
            by blast+
          done
        done
      done
  qed
qed

end
