(* ===== verification/LedgerPruner.thy ===== *)
theory LedgerPruner
  imports Balances
begin

text \<open>
  The retention job of the movement ledger (\<open>scripts/prune_movement_ledger.py\<close>): refuse while
  balances drift, checkpoint and commit, then delete old rows in four foreign-key-ordered steps of
  committed micro-batches under a time budget.

  \<open>time.monotonic\<close> is the argument \<open>clock\<close>: \<open>clock i\<close> is what its \<open>i\<close>-th reading returns. Every
  statement and commit of the session may fail (the fault list), which is how a run is interrupted.
\<close>

section \<open>Definitions\<close>

definition MINIMUM_MOVEMENT_RETENTION_DAYS :: int where
  "MINIMUM_MOVEMENT_RETENTION_DAYS = 25"

definition REPORTING_RECOMPUTE_DAYS :: int where
  "REPORTING_RECOMPUTE_DAYS = 21"

definition DEFAULT_BATCH_SIZE :: nat where
  "DEFAULT_BATCH_SIZE = 1000"

definition retention_cutoff :: "instant \<Rightarrow> int \<Rightarrow> ledger_error exn + instant" where
  "retention_cutoff now retention_days =
     (if retention_days < MINIMUM_MOVEMENT_RETENTION_DAYS
      then Inl (DomainError (RetentionWindowTooShort
             ''movement retention must exceed the reporting recompute window''))
      else Inr (now - days retention_days))"

datatype prune_step = PruneDiscrepancies | PruneStockouts | PruneExits | PruneEntries

definition step_name :: "prune_step \<Rightarrow> string" where
  "step_name st = (case st of
      PruneDiscrepancies \<Rightarrow> ''inventory_discrepancies'' | PruneStockouts \<Rightarrow> ''stockout_events''
    | PruneExits \<Rightarrow> ''stock_exits'' | PruneEntries \<Rightarrow> ''stock_entries'')"

definition STEPS :: "prune_step list" where
  "STEPS = [PruneDiscrepancies, PruneStockouts, PruneExits, PruneEntries]"

text \<open>\<open>SELECT id ... WHERE created_at < :cutoff AND P ORDER BY id LIMIT :batch\<close>.\<close>

definition old_exit_batch :: "(int \<Rightarrow> bool) \<Rightarrow> instant \<Rightarrow> nat \<Rightarrow> inventory_db \<Rightarrow> int list" where
  "old_exit_batch P cutoff batch d =
     take batch (sort (map ex_id (filter (\<lambda>x. ex_created_at x < cutoff \<and> P (ex_id x)) (exits d))))"

definition old_entry_batch :: "instant \<Rightarrow> nat \<Rightarrow> inventory_db \<Rightarrow> int list" where
  "old_entry_batch cutoff batch d =
     take batch (sort (map en_id (filter (\<lambda>e. en_created_at e < cutoff) (entries d))))"

text \<open>
  One \<open>DELETE\<close>: the rows left, with the number of rows removed. Deleting an exit that a child still
  references violates the child's foreign key.
\<close>

definition step_delete ::
  "prune_step \<Rightarrow> instant \<Rightarrow> nat \<Rightarrow> inventory_db \<Rightarrow> (ledger_error exn + nat) \<times> inventory_db" where
  "step_delete st cutoff batch d =
     (case st of
        PruneDiscrepancies \<Rightarrow>
          (let ids = old_exit_batch (\<lambda>i. i \<in> di_stock_exit_id ` set (discrepancies d)) cutoff batch d;
               kept = filter (\<lambda>v. di_stock_exit_id v \<notin> set ids) (discrepancies d)
           in (Inr (length (discrepancies d) - length kept), d\<lparr>discrepancies := kept\<rparr>))
      | PruneStockouts \<Rightarrow>
          (let ids = old_exit_batch (\<lambda>i. i \<in> so_stock_exit_id ` set (stockouts d)) cutoff batch d;
               kept = filter (\<lambda>v. so_stock_exit_id v \<notin> set ids) (stockouts d)
           in (Inr (length (stockouts d) - length kept), d\<lparr>stockouts := kept\<rparr>))
      | PruneExits \<Rightarrow>
          (let ids = old_exit_batch (\<lambda>i. True) cutoff batch d;
               kept = filter (\<lambda>x. ex_id x \<notin> set ids) (exits d)
           in if \<exists>v\<in>set (discrepancies d). di_stock_exit_id v \<in> set ids
              then (Inl (IntegrityError ''inventory_discrepancies_stock_exit_id_fkey''), d)
              else if \<exists>v\<in>set (stockouts d). so_stock_exit_id v \<in> set ids
              then (Inl (IntegrityError ''stockout_events_stock_exit_id_fkey''), d)
              else (Inr (length (exits d) - length kept), d\<lparr>exits := kept\<rparr>))
      | PruneEntries \<Rightarrow>
          (let ids = old_entry_batch cutoff batch d;
               kept = filter (\<lambda>e. en_id e \<notin> set ids) (entries d)
           in (Inr (length (entries d) - length kept), d\<lparr>entries := kept\<rparr>)))"

definition step_rows :: "prune_step \<Rightarrow> inventory_db \<Rightarrow> nat" where
  "step_rows st d = (case st of
      PruneDiscrepancies \<Rightarrow> length (discrepancies d) | PruneStockouts \<Rightarrow> length (stockouts d)
    | PruneExits \<Rightarrow> length (exits d) | PruneEntries \<Rightarrow> length (entries d))"

lemma step_delete_count:
  "step_delete st cutoff batch d = (Inr n, d') \<Longrightarrow> step_rows st d' + n = step_rows st d"
  by (auto simp: step_delete_def step_rows_def Let_def split: prune_step.splits if_splits)

text \<open>\<open>_delete_in_batches\<close>: the loop ends because a batch that removes nothing ends it. The result
  carries the rows deleted, whether the step finished, and the next clock reading.\<close>

function delete_in_batches ::
  "(nat \<Rightarrow> int) \<Rightarrow> int \<Rightarrow> nat \<Rightarrow> instant \<Rightarrow> prune_step \<Rightarrow> nat \<Rightarrow> nat \<Rightarrow>
   (nat \<times> bool \<times> nat) ledger_tx" where
  "delete_in_batches clock deadline batch cutoff st i deleted s =
     (if deadline \<le> clock i then (Inr (deleted, False, Suc i), s)
      else case stmt (step_delete st cutoff batch) s of
          (Inl e, s1) \<Rightarrow> (Inl e, s1)
        | (Inr removed, s1) \<Rightarrow> (case commit s1 of
              (Inl e, s2) \<Rightarrow> (Inl e, s2)
            | (Inr _, s2) \<Rightarrow>
                if removed = 0 then (Inr (deleted, True, Suc i), s2)
                else delete_in_batches clock deadline batch cutoff st (Suc i) (deleted + removed) s2))"
  by pat_completeness auto

lemma stmt_commit_rows:
  assumes "stmt (step_delete st cutoff batch) s = (Inr n, s1)" and "commit s1 = (Inr u, s2)"
  shows "step_rows st (working s2) + n = step_rows st (working s)"
proof -
  have "working s2 = working s1"
    using assms(2) by (auto simp: commit_def do_commit_def split: list.splits bool.splits)
  with assms(1) show ?thesis
    by (auto simp: stmt_def split: list.splits bool.splits prod.splits dest: step_delete_count)
qed

termination delete_in_batches
  by (relation "measure (\<lambda>(_, _, _, _, st, _, _, s). step_rows st (working s))")
    (auto dest: stmt_commit_rows [OF sym sym])

declare delete_in_batches.simps [simp del]

fun run_steps ::
  "(nat \<Rightarrow> int) \<Rightarrow> int \<Rightarrow> nat \<Rightarrow> instant \<Rightarrow> prune_step list \<Rightarrow> nat \<Rightarrow> (string \<times> nat) list \<Rightarrow>
   ((string \<times> nat) list) ledger_tx" where
  "run_steps clock deadline batch cutoff [] i counts = ret counts"
| "run_steps clock deadline batch cutoff (st # sts) i counts =
     bind (delete_in_batches clock deadline batch cutoff st i 0) (\<lambda>(removed, finished, j).
       let counts' = counts @ [(step_name st, removed)] in
       if finished then run_steps clock deadline batch cutoff sts j counts' else ret counts')"

definition prune_once ::
  "instant \<Rightarrow> int \<Rightarrow> nat \<Rightarrow> int \<Rightarrow> (nat \<Rightarrow> int) \<Rightarrow> ((string \<times> nat) list) ledger_tx" where
  "prune_once now retention_days batch max_seconds clock =
     (case retention_cutoff now retention_days of
        Inl e \<Rightarrow> throw e
      | Inr cutoff \<Rightarrow>
          bind verify_stock_balances (\<lambda>drifted.
            if drifted \<noteq> []
            then throw (DomainError (BalancesDrifted ''stock balances disagree with the ledger''))
            else bind (write_ledger_checkpoint cutoff) (\<lambda>_.
              bind commit (\<lambda>_.
                run_steps clock (clock 0 + max_seconds) batch cutoff STEPS 1 []))))"

section \<open>One delete\<close>

definition old_exit_ids :: "instant \<Rightarrow> inventory_db \<Rightarrow> int set" where
  "old_exit_ids cutoff d = ex_id ` {x \<in> set (exits d). ex_created_at x < cutoff}"

text \<open>A step is done when nothing it may delete is left; the exits step may only run when no old
  exit has a child.\<close>

definition step_done :: "prune_step \<Rightarrow> instant \<Rightarrow> inventory_db \<Rightarrow> bool" where
  "step_done st cutoff d = (case st of
      PruneDiscrepancies \<Rightarrow> (\<forall>v\<in>set (discrepancies d). di_stock_exit_id v \<notin> old_exit_ids cutoff d)
    | PruneStockouts \<Rightarrow> (\<forall>v\<in>set (stockouts d). so_stock_exit_id v \<notin> old_exit_ids cutoff d)
    | PruneExits \<Rightarrow> (\<forall>x\<in>set (exits d). cutoff \<le> ex_created_at x)
    | PruneEntries \<Rightarrow> (\<forall>e\<in>set (entries d). cutoff \<le> en_created_at e))"

definition step_ready :: "prune_step \<Rightarrow> instant \<Rightarrow> inventory_db \<Rightarrow> bool" where
  "step_ready st cutoff d \<longleftrightarrow>
     (st = PruneExits \<longrightarrow> step_done PruneDiscrepancies cutoff d \<and> step_done PruneStockouts cutoff d)"

definition shrinks :: "inventory_db \<Rightarrow> inventory_db \<Rightarrow> bool" where
  "shrinks d d' \<longleftrightarrow> set (entries d') \<subseteq> set (entries d) \<and> set (exits d') \<subseteq> set (exits d) \<and>
     set (stockouts d') \<subseteq> set (stockouts d) \<and> set (discrepancies d') \<subseteq> set (discrepancies d)"

lemma step_done_shrinks: "shrinks d d' \<Longrightarrow> step_done st cutoff d \<Longrightarrow> step_done st cutoff d'"
  unfolding step_done_def shrinks_def old_exit_ids_def
  by (cases st) (simp_all; blast)+

lemma step_ready_shrinks: "shrinks d d' \<Longrightarrow> step_ready st cutoff d \<Longrightarrow> step_ready st cutoff d'"
  by (auto simp: step_ready_def step_done_shrinks)

lemma shrinks_refl [simp]: "shrinks d d"
  by (simp add: shrinks_def)

lemma shrinks_trans: "shrinks d d' \<Longrightarrow> shrinks d' d'' \<Longrightarrow> shrinks d d''"
  by (auto simp: shrinks_def)

lemma old_exit_batch_sub:
  "i \<in> set (old_exit_batch P cutoff batch d) \<Longrightarrow> i \<in> old_exit_ids cutoff d \<and> P i"
  by (auto simp: old_exit_batch_def old_exit_ids_def dest!: in_set_takeD)

lemma old_exit_batch_empty:
  "0 < batch \<Longrightarrow> old_exit_batch P cutoff batch d = [] \<Longrightarrow>
   \<forall>x\<in>set (exits d). ex_created_at x < cutoff \<longrightarrow> \<not> P (ex_id x)"
  by (auto simp: old_exit_batch_def filter_empty_conv)

lemma old_entry_batch_sub:
  "i \<in> set (old_entry_batch cutoff batch d) \<Longrightarrow> \<exists>e\<in>set (entries d). en_id e = i \<and> en_created_at e < cutoff"
  by (auto simp: old_entry_batch_def dest!: in_set_takeD)

lemma old_entry_batch_empty:
  "0 < batch \<Longrightarrow> old_entry_batch cutoff batch d = [] \<Longrightarrow> \<forall>e\<in>set (entries d). cutoff \<le> en_created_at e"
  by (auto simp: old_entry_batch_def filter_empty_conv)

lemma kept_all:
  assumes "length (filter P xs) = length xs" and "x \<in> set xs"
  shows "P x"
  using assms by (metis filter_id_conv length_filter_less less_irrefl)

text \<open>Keeping the rows outside a set of ids keeps every row that is not older than the cutoff, when
  ids are unique and the ids in the set belong to old rows.\<close>

lemma filter_ids_recent:
  assumes "distinct (map key xs)" and "\<And>i. i \<in> ids \<Longrightarrow> \<exists>x\<in>set xs. key x = i \<and> \<not> R x"
  shows "filter R (filter (\<lambda>x. key x \<notin> ids) xs) = filter R xs"
proof -
  have "key x \<notin> ids" if "x \<in> set xs" and "R x" for x
  proof
    assume "key x \<in> ids"
    then obtain y where "y \<in> set xs" "key y = key x" "\<not> R y" using assms(2) by blast
    with assms(1) that show False by (auto simp: distinct_map inj_on_def)
  qed
  then show ?thesis by (auto simp: intro!: filter_cong)
qed

lemma distinct_map_filter_key: "distinct (map f xs) \<Longrightarrow> distinct (map f (filter P xs))"
  by (rule distinct_map_filter)

definition step_effect ::
  "prune_step \<Rightarrow> instant \<Rightarrow> nat \<Rightarrow> inventory_db \<Rightarrow> nat \<Rightarrow> inventory_db \<Rightarrow> bool" where
  "step_effect st cutoff batch d n d' \<longleftrightarrow>
     schema_ok d' \<and> forgets_before cutoff d d' \<and> shrinks d d' \<and>
     (0 < batch \<and> n = 0 \<longrightarrow> step_done st cutoff d')"

lemma schema_ok_fewer_children:
  "schema_ok d \<Longrightarrow> schema_ok (d\<lparr>discrepancies := filter P (discrepancies d)\<rparr>)"
  "schema_ok d \<Longrightarrow> schema_ok (d\<lparr>stockouts := filter Q (stockouts d)\<rparr>)"
  by (simp_all add: schema_ok_def distinct_map_filter)

lemma delete_discrepancies_ok:
  assumes "schema_ok d" and "step_delete PruneDiscrepancies cutoff batch d = (r, d')"
  shows "\<exists>n. r = Inr n \<and> step_effect PruneDiscrepancies cutoff batch d n d'"
proof -
  let ?P = "\<lambda>i. i \<in> di_stock_exit_id ` set (discrepancies d)"
  let ?ids = "old_exit_batch ?P cutoff batch d"
  let ?kept = "filter (\<lambda>v. di_stock_exit_id v \<notin> set ?ids) (discrepancies d)"
  have d': "d' = d\<lparr>discrepancies := ?kept\<rparr>"
    and r: "r = Inr (length (discrepancies d) - length ?kept)"
    using assms(2) by (simp_all add: step_delete_def Let_def)
  have "step_done PruneDiscrepancies cutoff d'"
    if b: "0 < batch" and "length (discrepancies d) - length ?kept = 0"
  proof -
    have "length ?kept = length (discrepancies d)"
      using that(2) length_filter_le [of "\<lambda>v. di_stock_exit_id v \<notin> set ?ids" "discrepancies d"] by simp
    from kept_all [OF this] have "v \<in> set (discrepancies d) \<Longrightarrow> di_stock_exit_id v \<notin> set ?ids" for v .
    with old_exit_batch_sub [of _ ?P cutoff batch d] have "i \<notin> set ?ids" for i by blast
    then have "?ids = []" using neq_Nil_conv [of ?ids] by fastforce
    from old_exit_batch_empty [OF b this] show ?thesis
      unfolding d' step_done_def old_exit_ids_def by (auto simp: image_iff) metis
  qed
  then show ?thesis
    using assms(1) by (simp add: r step_effect_def d' schema_ok_fewer_children forgets_before_def shrinks_def)
qed

lemma delete_stockouts_ok:
  assumes "schema_ok d" and "step_delete PruneStockouts cutoff batch d = (r, d')"
  shows "\<exists>n. r = Inr n \<and> step_effect PruneStockouts cutoff batch d n d'"
proof -
  let ?P = "\<lambda>i. i \<in> so_stock_exit_id ` set (stockouts d)"
  let ?ids = "old_exit_batch ?P cutoff batch d"
  let ?kept = "filter (\<lambda>v. so_stock_exit_id v \<notin> set ?ids) (stockouts d)"
  have d': "d' = d\<lparr>stockouts := ?kept\<rparr>"
    and r: "r = Inr (length (stockouts d) - length ?kept)"
    using assms(2) by (simp_all add: step_delete_def Let_def)
  have "step_done PruneStockouts cutoff d'"
    if b: "0 < batch" and "length (stockouts d) - length ?kept = 0"
  proof -
    have "length ?kept = length (stockouts d)"
      using that(2) length_filter_le [of "\<lambda>v. so_stock_exit_id v \<notin> set ?ids" "stockouts d"] by simp
    from kept_all [OF this] have "v \<in> set (stockouts d) \<Longrightarrow> so_stock_exit_id v \<notin> set ?ids" for v .
    with old_exit_batch_sub [of _ ?P cutoff batch d] have "i \<notin> set ?ids" for i by blast
    then have "?ids = []" using neq_Nil_conv [of ?ids] by fastforce
    from old_exit_batch_empty [OF b this] show ?thesis
      unfolding d' step_done_def old_exit_ids_def by (auto simp: image_iff) metis
  qed
  then show ?thesis
    using assms(1) by (simp add: r step_effect_def d' schema_ok_fewer_children forgets_before_def shrinks_def)
qed

lemma delete_exits_ok:
  assumes "schema_ok d" and ready: "step_ready PruneExits cutoff d"
    and "step_delete PruneExits cutoff batch d = (r, d')"
  shows "\<exists>n. r = Inr n \<and> step_effect PruneExits cutoff batch d n d'"
proof -
  let ?ids = "old_exit_batch (\<lambda>i. True) cutoff batch d"
  let ?kept = "filter (\<lambda>x. ex_id x \<notin> set ?ids) (exits d)"
  have old: "i \<in> set ?ids \<Longrightarrow> i \<in> old_exit_ids cutoff d" for i
    using old_exit_batch_sub [of i "\<lambda>i. True"] by blast
  have kids: "\<forall>v\<in>set (discrepancies d). di_stock_exit_id v \<notin> set ?ids"
    "\<forall>v\<in>set (stockouts d). so_stock_exit_id v \<notin> set ?ids"
    using ready old by (auto simp: step_ready_def step_done_def)
  then have d': "d' = d\<lparr>exits := ?kept\<rparr>" and r: "r = Inr (length (exits d) - length ?kept)"
    using assms(3) by (auto simp: step_delete_def Let_def)
  have uniq: "distinct (map ex_id (exits d))" using assms(1) by (simp add: schema_ok_def)
  have "schema_ok d'"
    using assms(1) kids unfolding d'
    by (auto simp: schema_ok_def image_iff intro: distinct_map_filter) metis+
  moreover have "filter (\<lambda>x. cutoff \<le> ex_created_at x) ?kept = filter (\<lambda>x. cutoff \<le> ex_created_at x) (exits d)"
    using old by (intro filter_ids_recent [OF uniq]) (force simp: old_exit_ids_def)
  then have "forgets_before cutoff d d'" by (simp add: d' forgets_before_def)
  moreover have "shrinks d d'" by (auto simp: d' shrinks_def)
  moreover have "step_done PruneExits cutoff d'" if "0 < batch" "length (exits d) - length ?kept = 0"
  proof -
    have "length ?kept = length (exits d)"
      using that(2) length_filter_le [of "\<lambda>x. ex_id x \<notin> set ?ids" "exits d"] by simp
    from kept_all [OF this] old have "?ids = []"
      by (auto simp: old_exit_ids_def) (metis (no_types, lifting) imageE list.set_intros(1) mem_Collect_eq neq_Nil_conv)
    from old_exit_batch_empty [OF that(1) this] show ?thesis by (auto simp: d' step_done_def)
  qed
  ultimately show ?thesis by (simp add: step_effect_def r)
qed

lemma delete_entries_ok:
  assumes "schema_ok d" and "step_delete PruneEntries cutoff batch d = (r, d')"
  shows "\<exists>n. r = Inr n \<and> step_effect PruneEntries cutoff batch d n d'"
proof -
  let ?ids = "old_entry_batch cutoff batch d"
  let ?kept = "filter (\<lambda>e. en_id e \<notin> set ?ids) (entries d)"
  have d': "d' = d\<lparr>entries := ?kept\<rparr>" and r: "r = Inr (length (entries d) - length ?kept)"
    using assms(2) by (auto simp: step_delete_def Let_def)
  have uniq: "distinct (map en_id (entries d))" using assms(1) by (simp add: schema_ok_def)
  have "schema_ok d'"
    using assms(1) unfolding d' by (auto simp: schema_ok_def intro: distinct_map_filter)
  moreover have "filter (\<lambda>e. cutoff \<le> en_created_at e) ?kept = filter (\<lambda>e. cutoff \<le> en_created_at e) (entries d)"
    using old_entry_batch_sub [of _ cutoff batch d] by (intro filter_ids_recent [OF uniq]) force
  then have "forgets_before cutoff d d'" by (simp add: d' forgets_before_def)
  moreover have "shrinks d d'" by (auto simp: d' shrinks_def)
  moreover have "step_done PruneEntries cutoff d'" if "0 < batch" "length (entries d) - length ?kept = 0"
  proof -
    have "length ?kept = length (entries d)"
      using that(2) length_filter_le [of "\<lambda>e. en_id e \<notin> set ?ids" "entries d"] by simp
    from kept_all [OF this] old_entry_batch_sub [of _ cutoff batch d] have "?ids = []"
      by (metis list.set_intros(1) neq_Nil_conv)
    from old_entry_batch_empty [OF that(1) this] show ?thesis by (auto simp: d' step_done_def)
  qed
  ultimately show ?thesis by (simp add: step_effect_def r)
qed

lemma step_delete_ok:
  assumes "schema_ok d" and "step_ready st cutoff d" and "step_delete st cutoff batch d = (r, d')"
  shows "\<exists>n. r = Inr n \<and> step_effect st cutoff batch d n d'"
  using assms delete_discrepancies_ok delete_stockouts_ok delete_exits_ok delete_entries_ok by (cases st) auto

section \<open>The batches of a step\<close>

lemma delete_in_batches_eq:
  "delete_in_batches clock deadline batch cutoff st i deleted =
     (if deadline \<le> clock i then ret (deleted, False, Suc i)
      else bind (stmt (step_delete st cutoff batch)) (\<lambda>removed.
        bind commit (\<lambda>_.
          if removed = 0 then ret (deleted, True, Suc i)
          else delete_in_batches clock deadline batch cutoff st (Suc i) (deleted + removed))))"
  by (rule ext)
    (subst delete_in_batches.simps, auto simp: bind_def ret_def split: prod.splits sum.splits)

text \<open>What a retention run may have made of a committed state.\<close>

definition pruned_to :: "instant \<Rightarrow> inventory_db \<Rightarrow> inventory_db \<Rightarrow> bool" where
  "pruned_to cutoff d d' \<longleftrightarrow> schema_ok d' \<and> (forgets_before cutoff)\<^sup>*\<^sup>* d d' \<and> shrinks d d'"

lemma pruned_to_refl: "schema_ok d \<Longrightarrow> pruned_to cutoff d d"
  by (simp add: pruned_to_def)

lemma pruned_to_step:
  "step_effect st cutoff batch d n d1 \<Longrightarrow> pruned_to cutoff d1 d' \<Longrightarrow> pruned_to cutoff d d'"
  by (auto simp: pruned_to_def step_effect_def intro: shrinks_trans converse_rtranclp_into_rtranclp)

lemma pruned_to_trans: "pruned_to cutoff d d1 \<Longrightarrow> pruned_to cutoff d1 d2 \<Longrightarrow> pruned_to cutoff d d2"
  by (auto simp: pruned_to_def intro: shrinks_trans rtranclp_trans)

lemma pruned_to_stays:
  "pruned_to cutoff d d' \<Longrightarrow> schema_ok d'"
  "pruned_to cutoff d d' \<Longrightarrow> step_ready st cutoff d \<Longrightarrow> step_ready st cutoff d'"
  "pruned_to cutoff d d' \<Longrightarrow> step_done st cutoff d \<Longrightarrow> step_done st cutoff d'"
  by (auto simp: pruned_to_def intro: step_ready_shrinks step_done_shrinks)

text \<open>What a step returns and what it leaves when it raises. Only a failing statement raises.\<close>

definition step_post ::
  "(nat \<Rightarrow> int) \<Rightarrow> int \<Rightarrow> nat \<Rightarrow> instant \<Rightarrow> prune_step \<Rightarrow> inventory_db session \<Rightarrow>
   nat \<times> bool \<times> nat \<Rightarrow> inventory_db session \<Rightarrow> bool" where
  "step_post clock deadline batch cutoff st s r s' \<longleftrightarrow>
     (case r of (n, finished, j) \<Rightarrow>
        pruned_to cutoff (committed s) (committed s') \<and> working s' = committed s' \<and>
        set (faults s') \<subseteq> set (faults s) \<and>
        (finished \<and> 0 < batch \<longrightarrow> step_done st cutoff (committed s')) \<and>
        (\<not> finished \<longrightarrow> (\<exists>i. deadline \<le> clock i)))"

definition step_err ::
  "instant \<Rightarrow> inventory_db session \<Rightarrow> ledger_error exn \<Rightarrow> inventory_db session \<Rightarrow> bool" where
  "step_err cutoff s e s' \<longleftrightarrow>
     e = SQLAlchemyError \<and> True \<in> set (faults s) \<and> pruned_to cutoff (committed s) (committed s')"

lemma wp_delete_in_batches:
  assumes "schema_ok (committed s)" and "step_ready st cutoff (committed s)"
    and "working s = committed s"
  shows "wp (delete_in_batches clock deadline batch cutoff st i deleted)
     (step_post clock deadline batch cutoff st s) (step_err cutoff s) s"
  using assms
proof (induction "step_rows st (working s)" arbitrary: s i deleted rule: less_induct)
  case less
  note here = pruned_to_refl [OF less.prems(1), of cutoff]
  show ?case
    apply (subst delete_in_batches_eq)
    apply (simp only: wp_simps split: if_split)
    apply (intro conjI impI)
    subgoal using here less.prems(3) by (auto simp: step_post_def)
    apply (rule wp_stmtI)
    subgoal using here by (simp add: step_err_def)
    subgoal for fs r d1
    proof -
      assume run: "step_delete st cutoff batch (working s) = (r, d1)"
        and fs: "set fs \<subseteq> set (faults s)"
      have run': "step_delete st cutoff batch (committed s) = (r, d1)"
        using run less.prems(3) by simp
      from step_delete_ok [OF less.prems(1,2) run'] obtain n
        where r: "r = Inr n" and eff: "step_effect st cutoff batch (committed s) n d1" by auto
      have d1: "schema_ok d1" using eff by (simp add: step_effect_def)
      have ready: "step_ready st cutoff d1"
        using eff less.prems(2) by (auto simp: step_effect_def intro: step_ready_shrinks)
      have to: "pruned_to cutoff (committed s) d1"
        using eff pruned_to_refl [OF d1] by (rule pruned_to_step)
      have rec: "wp (delete_in_batches clock deadline batch cutoff st (Suc i) (deleted + n))
         (step_post clock deadline batch cutoff st s) (step_err cutoff s)
         (s\<lparr>working := d1, committed := d1, faults := fs'\<rparr>)"
        if "n \<noteq> 0" and "set fs' \<subseteq> set (faults s)" for fs'
      proof (rule wp_mono [OF less.hyps])
        show "step_rows st (working (s\<lparr>working := d1, committed := d1, faults := fs'\<rparr>)) < step_rows st (working s)"
          using step_delete_count [of st cutoff batch "working s" n d1] run r that(1) by simp
      qed (use d1 ready pruned_to_trans [OF to] that(2) in
            \<open>auto simp: step_post_def step_err_def split: prod.splits\<close>)
      show ?thesis
        unfolding r
        apply (simp only: sum.case wp_bind)
        apply (rule wp_commitI)
        subgoal using here fs by (auto simp: step_err_def)
        subgoal using rec eff to fs by (auto simp: wp_ret step_effect_def step_post_def)
        done
    qed
    done
qed

section \<open>The whole run\<close>

text \<open>A list of steps is in foreign-key order when exits come after both of their children.\<close>

fun fk_ordered :: "prune_step set \<Rightarrow> prune_step list \<Rightarrow> bool" where
  "fk_ordered D [] = True"
| "fk_ordered D (st # sts) =
     ((st = PruneExits \<longrightarrow> {PruneDiscrepancies, PruneStockouts} \<subseteq> D) \<and> fk_ordered (insert st D) sts)"

lemma STEPS_fk_ordered: "fk_ordered {} STEPS"
  by (simp add: STEPS_def)

lemma wp_run_steps:
  assumes "schema_ok (committed s)" and "working s = committed s" and "0 < batch"
    and "\<forall>st\<in>D. step_done st cutoff (committed s)" and "fk_ordered D sts"
  shows "wp (run_steps clock deadline batch cutoff sts i counts)
     (\<lambda>counts s'. pruned_to cutoff (committed s) (committed s') \<and>
        ((\<forall>i. clock i < deadline) \<longrightarrow> (\<forall>st\<in>D \<union> set sts. step_done st cutoff (committed s'))))
     (step_err cutoff s) s"
  using assms
proof (induction sts arbitrary: D i counts s)
  case Nil
  then show ?case by (simp add: wp_ret pruned_to_refl)
next
  case (Cons st sts)
  have ready: "step_ready st cutoff (committed s)"
    using Cons.prems(4,5) by (auto simp: step_ready_def)
  show ?case
    unfolding run_steps.simps wp_bind
  proof (rule wp_mono [OF wp_delete_in_batches [OF Cons.prems(1) ready Cons.prems(2)]])
    fix r s1
    assume post: "step_post clock deadline batch cutoff st s r s1"
    obtain n finished j where r: "r = (n, finished, j)" by (cases r)
    note p = post [unfolded step_post_def r prod.case]
    show "wp (case r of (removed, finished, j) \<Rightarrow>
             let counts' = counts @ [(step_name st, removed)] in
             if finished then run_steps clock deadline batch cutoff sts j counts' else ret counts')
         (\<lambda>counts s'. pruned_to cutoff (committed s) (committed s') \<and>
            ((\<forall>i. clock i < deadline) \<longrightarrow>
             (\<forall>st\<in>D \<union> set (st # sts). step_done st cutoff (committed s'))))
         (step_err cutoff s) s1"
    proof (cases finished)
      case True
      have all_done: "\<forall>st'\<in>insert st D. step_done st' cutoff (committed s1)"
        using p True Cons.prems(3,4) pruned_to_stays(3) by blast
      have s1: "schema_ok (committed s1)" using p pruned_to_stays(1) by blast
      have "wp (run_steps clock deadline batch cutoff sts j (counts @ [(step_name st, n)]))
         (\<lambda>counts s'. pruned_to cutoff (committed s1) (committed s') \<and>
            ((\<forall>i. clock i < deadline) \<longrightarrow>
             (\<forall>st\<in>insert st D \<union> set sts. step_done st cutoff (committed s'))))
         (step_err cutoff s1) s1"
        using Cons.IH [OF s1 _ Cons.prems(3) all_done] p Cons.prems(5) by simp
      then show ?thesis
        unfolding r prod.case Let_def using True p pruned_to_trans
        by (auto simp: step_err_def elim!: wp_mono)
    next
      case False
      with p show ?thesis by (auto simp: r wp_ret not_less [symmetric])
    qed
  qed
qed

lemma schema_ok_checkpointed:
  "schema_ok d \<Longrightarrow> schema_ok (upsert_checkpoints wm c d)"
  unfolding schema_ok_def
  by (auto simp: upsert_checkpoints_def distinct_upsert_all keys_upsert_all checkpoint_rows_def)

lemma no_drift_pruned:
  assumes "schema_ok d" and "wm < c" and "no_drift wm d"
    and "pruned_to c (upsert_checkpoints wm c d) d'"
  shows "no_drift c d'" and "\<forall>s\<in>set (skus d). derived_quantity c d' (sku_key s) = derived_quantity wm d (sku_key s)"
    and "skus d' = skus d" and "balances d' = balances d" and "schema_ok d'"
    and "skus d \<noteq> [] \<Longrightarrow> ledger_at c d'"
    and "filter (\<lambda>e. c \<le> en_created_at e) (entries d') = filter (\<lambda>e. c \<le> en_created_at e) (entries d)"
    and "filter (\<lambda>x. c \<le> ex_created_at x) (exits d') = filter (\<lambda>x. c \<le> ex_created_at x) (exits d)"
proof -
  let ?d1 = "upsert_checkpoints wm c d"
  have star: "(forgets_before c)\<^sup>*\<^sup>* ?d1 d'" and sch: "schema_ok d'"
    using assms(4) by (auto simp: pruned_to_def)
  have same: "skus d' = skus ?d1 \<and> balances d' = balances ?d1 \<and> checkpoints d' = checkpoints ?d1 \<and>
     filter (\<lambda>e. c \<le> en_created_at e) (entries d') = filter (\<lambda>e. c \<le> en_created_at e) (entries ?d1) \<and>
     filter (\<lambda>x. c \<le> ex_created_at x) (exits d') = filter (\<lambda>x. c \<le> ex_created_at x) (exits ?d1)"
    using star by (induction rule: rtranclp_induct) (auto simp: forgets_before_def)
  then show "skus d' = skus d" "balances d' = balances d" "schema_ok d'"
    "filter (\<lambda>e. c \<le> en_created_at e) (entries d') = filter (\<lambda>e. c \<le> en_created_at e) (entries d)"
    "filter (\<lambda>x. c \<le> ex_created_at x) (exits d') = filter (\<lambda>x. c \<le> ex_created_at x) (exits d)"
    using sch by simp_all
  have dist: "distinct (map sku_id (skus d))" "distinct (map fst (checkpoints d))"
    and fk: "fst ` set (checkpoints d) \<subseteq> sku_key ` set (skus d)"
    using assms(1) by (simp_all add: schema_ok_def)
  show der: "\<forall>s\<in>set (skus d). derived_quantity c d' (sku_key s) = derived_quantity wm d (sku_key s)"
    using ledger.retention_run [OF _ less_imp_le [OF assms(2)] star] dist(1)
    by (auto simp: live_key_def)
  show "no_drift c d'"
    using der assms(3) same by (simp add: no_drift_def current_stock_def)
  show "ledger_at c d'" if "skus d \<noteq> []"
    using ledger_at_upsert [OF fk dist(2,1) that, of c wm] same
      ledger_at_cong [of d' ?d1] by simp
qed

lemma wp_prune_once:
  assumes "schema_ok d" and "0 < batch"
  shows "wp (prune_once now retention_days batch max_seconds clock)
     (\<lambda>counts s'. 25 \<le> retention_days \<and>
        (\<exists>wm. ledger_at wm d \<and> no_drift wm d \<and> wm < now - days retention_days \<and>
           pruned_to (now - days retention_days) (upsert_checkpoints wm (now - days retention_days) d) (committed s')) \<and>
        ((\<forall>i. clock i < clock 0 + max_seconds) \<longrightarrow>
          (\<forall>st\<in>set STEPS. step_done st (now - days retention_days) (committed s'))))
     (\<lambda>e s'. (committed s' = d \<and>
         (retention_days < 25 \<or> (\<nexists>wm. ledger_at wm d \<and> no_drift wm d \<and> wm < now - days retention_days)) \<and>
         (\<exists>le. e = DomainError le)) \<or>
       (e = SQLAlchemyError \<and> True \<in> set fs \<and>
         (committed s' = d \<or> (\<exists>wm. ledger_at wm d \<and> no_drift wm d \<and> wm < now - days retention_days \<and>
           pruned_to (now - days retention_days) (upsert_checkpoints wm (now - days retention_days) d) (committed s')))))
     (open_session d fs)"
proof (cases "retention_days < 25")
  case True
  then show ?thesis
    by (simp add: prune_once_def retention_cutoff_def MINIMUM_MOVEMENT_RETENTION_DAYS_def wp_throw)
next
  case False
  let ?c = "now - days retention_days"
  have steps: "wp (run_steps clock (clock 0 + max_seconds) batch ?c STEPS i [])
     (\<lambda>counts s'. pruned_to ?c (upsert_checkpoints wm ?c d) (committed s') \<and>
        ((\<forall>i. clock i < clock 0 + max_seconds) \<longrightarrow> (\<forall>st\<in>set STEPS. step_done st ?c (committed s'))))
     (step_err ?c s) s"
    if "committed s = upsert_checkpoints wm ?c d" and "working s = committed s" for s wm i
    using wp_run_steps [OF _ that(2) assms(2) _ STEPS_fk_ordered, where cutoff = ?c]
      that(1) schema_ok_checkpointed [OF assms(1)] by simp
  show ?thesis
    unfolding prune_once_def retention_cutoff_def MINIMUM_MOVEMENT_RETENTION_DAYS_def
    apply (simp only: False if_False sum.case wp_simps)
    apply (rule wp_mono [OF wp_verify])
    subgoal for rows s1
      apply (simp only: wp_simps split: if_split)
      apply (intro conjI impI)
      subgoal by (auto simp: drift_rows_empty dest: ledger_at_unique)
      apply (rule wp_mono [OF wp_write_checkpoint])
      subgoal for n s2
        apply (simp only: wp_bind)
        apply (rule wp_commitI)
        subgoal by auto
        subgoal for fs'
          apply clarsimp
          subgoal for wm wm'
            using ledger_at_unique [of wm d wm'] False drift_rows_empty [of wm d]
            by (intro wp_mono [OF steps [of _ wm']]) (auto simp: step_err_def)
          done
        done
      subgoal by (auto simp: drift_rows_empty)
      done
    subgoal by auto
    done
qed

text \<open>The result of a run, from the calculus.\<close>

definition prune_ok :: "instant \<Rightarrow> inventory_db \<Rightarrow> inventory_db \<Rightarrow> bool" where
  "prune_ok c d d' \<longleftrightarrow> d' = d \<or>
     (\<exists>wm. ledger_at wm d \<and> no_drift wm d \<and> wm < c \<and> pruned_to c (upsert_checkpoints wm c d) d')"

lemma run_prune_once:
  assumes "schema_ok d" and "0 < batch"
    and "run_request (prune_once now rd batch ms clock) d fs = (r, d')"
  shows "prune_ok (now - days rd) d d' \<and>
    (case r of
      Inr counts \<Rightarrow> 25 \<le> rd \<and> (\<exists>wm. ledger_at wm d \<and> no_drift wm d \<and> wm < now - days rd) \<and>
        ((\<forall>i. clock i < clock 0 + ms) \<longrightarrow> (\<forall>st\<in>set STEPS. step_done st (now - days rd) d'))
    | Inl e \<Rightarrow> e = SQLAlchemyError \<and> True \<in> set fs \<or>
        (\<exists>le. e = DomainError le) \<and> d' = d \<and>
        (rd < 25 \<or> (\<nexists>wm. ledger_at wm d \<and> no_drift wm d \<and> wm < now - days rd)))"
proof -
  let ?P = "\<lambda>p. case p of (r, d') \<Rightarrow> prune_ok (now - days rd) d d' \<and>
    (case r of
      Inr counts \<Rightarrow> 25 \<le> rd \<and> (\<exists>wm. ledger_at wm d \<and> no_drift wm d \<and> wm < now - days rd) \<and>
        ((\<forall>i. clock i < clock 0 + ms) \<longrightarrow> (\<forall>st\<in>set STEPS. step_done st (now - days rd) d'))
    | Inl e \<Rightarrow> e = SQLAlchemyError \<and> True \<in> set fs \<or>
        (\<exists>le. e = DomainError le) \<and> d' = d \<and>
        (rd < 25 \<or> (\<nexists>wm. ledger_at wm d \<and> no_drift wm d \<and> wm < now - days rd)))"
  have "?P (run_request (prune_once now rd batch ms clock) d fs)"
    by (rule wp_run_request [OF wp_prune_once [OF assms(1,2)]]) (unfold prune_ok_def prod.case sum.case, blast+)
  with assms(3) show ?thesis by simp
qed

lemma prune_ok_facts:
  assumes "schema_ok d" and "prune_ok c d d'" and "d' \<noteq> d"
  shows "\<exists>wm. ledger_at wm d \<and> wm < c \<and> no_drift c d' \<and>
      (skus d \<noteq> [] \<longrightarrow> ledger_at c d') \<and>
      (\<forall>s\<in>set (skus d). derived_quantity c d' (sku_key s) = derived_quantity wm d (sku_key s)) \<and>
      filter (\<lambda>e. c \<le> en_created_at e) (entries d') = filter (\<lambda>e. c \<le> en_created_at e) (entries d) \<and>
      filter (\<lambda>x. c \<le> ex_created_at x) (exits d') = filter (\<lambda>x. c \<le> ex_created_at x) (exits d)"
    and "schema_ok d'" and "skus d' = skus d" and "balances d' = balances d"
proof -
  from assms(2,3) obtain wm where wm: "ledger_at wm d" "no_drift wm d" "wm < c"
    and to: "pruned_to c (upsert_checkpoints wm c d) d'"
    by (auto simp: prune_ok_def)
  note facts = no_drift_pruned [OF assms(1) wm(3,2) to]
  show "schema_ok d'" "skus d' = skus d" "balances d' = balances d" by (fact facts)+
  show "\<exists>wm. ledger_at wm d \<and> wm < c \<and> no_drift c d' \<and>
      (skus d \<noteq> [] \<longrightarrow> ledger_at c d') \<and>
      (\<forall>s\<in>set (skus d). derived_quantity c d' (sku_key s) = derived_quantity wm d (sku_key s)) \<and>
      filter (\<lambda>e. c \<le> en_created_at e) (entries d') = filter (\<lambda>e. c \<le> en_created_at e) (entries d) \<and>
      filter (\<lambda>x. c \<le> ex_created_at x) (exits d') = filter (\<lambda>x. c \<le> ex_created_at x) (exits d)"
    using wm facts by blast
qed

section \<open>Properties\<close>

text \<open>C3: retention never changes stock, wherever it is interrupted. Whatever statement fails and
  wherever the time budget ends the run, the committed database still satisfies every key and
  foreign key, no stored balance moved, and either nothing changed or: the checkpoints stand at the
  cutoff, no SKU drifts, every SKU derives the quantity it derived before, and every movement at or
  after the cutoff is still there. The job never fails with an integrity error.\<close>

theorem prune_preserves_stock:
  assumes "schema_ok d" and "0 < batch"
    and "run_request (prune_once now rd batch ms clock) d fs = (r, d')"
  shows "schema_ok d' \<and> skus d' = skus d \<and> balances d' = balances d \<and>
    (\<forall>name. r \<noteq> Inl (IntegrityError name)) \<and>
    (d' = d \<or> (\<exists>wm. ledger_at wm d \<and> wm < now - days rd \<and> no_drift (now - days rd) d' \<and>
      (skus d \<noteq> [] \<longrightarrow> ledger_at (now - days rd) d') \<and>
      (\<forall>s\<in>set (skus d). derived_quantity (now - days rd) d' (sku_key s) = derived_quantity wm d (sku_key s)) \<and>
      filter (\<lambda>e. now - days rd \<le> en_created_at e) (entries d') =
        filter (\<lambda>e. now - days rd \<le> en_created_at e) (entries d) \<and>
      filter (\<lambda>x. now - days rd \<le> ex_created_at x) (exits d') =
        filter (\<lambda>x. now - days rd \<le> ex_created_at x) (exits d)))"
proof -
  note run = run_prune_once [OF assms]
  have "r \<noteq> Inl (IntegrityError name)" for name using run by auto
  moreover have "prune_ok (now - days rd) d d'" using run by blast
  ultimately show ?thesis
    using prune_ok_facts [OF assms(1)] assms(1) by (cases "d' = d") blast+
qed

lemma example_prune_run:
  "run_request (prune_once (days 25 + 150) 25 1000 10 (\<lambda>_. 0)) (example_db 16) [] =
     (Inr [(''inventory_discrepancies'', 0), (''stockout_events'', 0), (''stock_exits'', 0),
           (''stock_entries'', 1)],
      (upsert_checkpoints 0 150 (example_db 16))\<lparr>entries := []\<rparr>)"
proof -
  have v: "verify_stock_balances (open_session (example_db 16) []) =
      (Inr [], open_session (example_db 16) [])"
    by (simp add: verify_stock_balances_def watermark_params_def checkpoint_watermark_def tx_defs
        watermark_row_def BEGINNING_OF_TIME_def drift_rows_def derive_balances_def
        derived_quantity_def base_quantity_def received_def dispatched_def current_stock_def
        example_simps)
  let ?d1 = "upsert_checkpoints 0 150 (example_db 16)"
  have c: "write_ledger_checkpoint 150 (open_session (example_db 16) []) =
      (Inr 1, \<lparr>committed = example_db 16, working = ?d1, faults = []\<rparr>)"
    by (simp add: write_ledger_checkpoint_def watermark_params_def checkpoint_watermark_def tx_defs
        watermark_row_def BEGINNING_OF_TIME_def example_db_def)
  have rows: "entries ?d1 = entries (example_db 16)" "exits ?d1 = exits (example_db 16)"
    "discrepancies ?d1 = []" "stockouts ?d1 = []"
    by (simp_all add: example_db_def)
  have del: "step_delete PruneDiscrepancies 150 1000 ?d1 = (Inr 0, ?d1)"
    "step_delete PruneStockouts 150 1000 ?d1 = (Inr 0, ?d1)"
    "step_delete PruneExits 150 1000 ?d1 = (Inr 0, ?d1)"
    "step_delete PruneEntries 150 1000 ?d1 = (Inr 1, ?d1\<lparr>entries := []\<rparr>)"
    "step_delete PruneEntries 150 1000 (?d1\<lparr>entries := []\<rparr>) = (Inr 0, ?d1\<lparr>entries := []\<rparr>)"
    by (simp_all add: step_delete_def old_exit_batch_def old_entry_batch_def rows example_db_def
        upsert_checkpoints_def Let_def)
  show ?thesis
    unfolding run_request_def prune_once_def retention_cutoff_def MINIMUM_MOVEMENT_RETENTION_DAYS_def
    using v c del
    by (simp add: bind_def commit_def do_commit_def ret_def STEPS_def stmt_def
        delete_in_batches.simps step_name_def)
qed

theorem prune_preserves_stock_witness:
  "schema_ok (snd (run_request (prune_once (days 25 + 150) 25 1000 10 (\<lambda>_. 0)) (example_db 16) [])) \<and>
   no_drift 150 (snd (run_request (prune_once (days 25 + 150) 25 1000 10 (\<lambda>_. 0)) (example_db 16) []))"
  using prune_preserves_stock [OF example_schema _ example_prune_run]
  by (simp add: example_prune_run) (auto simp: example_db_def dest!: arg_cong [where f = entries])

text \<open>C20: the job terminates with everything old deleted. On a database that answers, whose balances
  agree with the ledger, with at least 25 days of retention, a positive batch size, a cutoff past
  the watermark and time left, the run returns, and afterwards no exit and no entry is older than
  the cutoff, while every stockout event and discrepancy still has its exit.\<close>

theorem prune_completes:
  assumes "schema_ok d" and "0 < batch" and "25 \<le> rd"
    and "ledger_at wm d" and "no_drift wm d" and "wm < now - days rd"
    and "\<And>i. clock i < clock 0 + ms" and "True \<notin> set fs"
  shows "\<exists>counts d'. run_request (prune_once now rd batch ms clock) d fs = (Inr counts, d') \<and>
    (\<forall>x\<in>set (exits d'). now - days rd \<le> ex_created_at x) \<and>
    (\<forall>e\<in>set (entries d'). now - days rd \<le> en_created_at e) \<and>
    (\<forall>v\<in>set (stockouts d'). so_stock_exit_id v \<in> ex_id ` set (exits d')) \<and>
    (\<forall>v\<in>set (discrepancies d'). di_stock_exit_id v \<in> ex_id ` set (exits d'))"
proof -
  obtain r d' where run: "run_request (prune_once now rd batch ms clock) d fs = (r, d')" by fastforce
  note facts = run_prune_once [OF assms(1,2) run]
  have agrees: "\<exists>wm. ledger_at wm d \<and> no_drift wm d \<and> wm < now - days rd" and "\<not> rd < 25"
    using assms(3-6) by auto
  then obtain counts where r: "r = Inr counts"
    using facts assms(8) by (cases r) auto
  have all_done: "step_done PruneExits (now - days rd) d'" "step_done PruneEntries (now - days rd) d'"
    using facts assms(7) by (auto simp: r STEPS_def)
  have "schema_ok d'"
    using facts prune_ok_facts(2) [OF assms(1)] assms(1) by metis
  with run r all_done show ?thesis by (simp add: step_done_def schema_ok_def)
qed

theorem prune_completes_witness:
  "\<exists>counts d'. run_request (prune_once (days 25 + 150) 25 1000 10 (\<lambda>_. 0)) (example_db 16) []
      = (Inr counts, d') \<and> (\<forall>e\<in>set (entries d'). 150 \<le> en_created_at e)"
proof -
  have "no_drift 0 (example_db 16)"
    using example_derived by (simp add: no_drift_def current_stock_def example_simps)
  with prune_completes [OF example_schema _ _ example_at, of 1000 25 16 "days 25 + 150" "\<lambda>_. 0" 10 "[]"]
  show ?thesis by auto
qed

text \<open>The job refuses rather than deletes. With a retention shorter than 25 days it raises
  before it reads anything; while any SKU drifts, or the cutoff does not advance, it raises; in each
  case the database is as it was.\<close>

theorem prune_refuses:
  assumes "schema_ok d" and "0 < batch"
    and "rd < 25 \<or> (\<forall>wm. ledger_at wm d \<longrightarrow> \<not> no_drift wm d \<or> now - days rd \<le> wm)"
  shows "\<exists>e. run_request (prune_once now rd batch ms clock) d fs = (Inl e, d)"
proof -
  obtain r d' where run: "run_request (prune_once now rd batch ms clock) d fs = (r, d')" by fastforce
  note facts = run_prune_once [OF assms(1,2) run]
  show ?thesis
  proof (cases "rd < 25")
    case True
    then show ?thesis
      by (simp add: run_request_def prune_once_def retention_cutoff_def
          MINIMUM_MOVEMENT_RETENTION_DAYS_def throw_def)
  next
    case False
    with assms(3) have none: "\<not> (\<exists>wm. ledger_at wm d \<and> no_drift wm d \<and> wm < now - days rd)"
      by auto
    with facts have "d' = d" by (auto simp: prune_ok_def)
    moreover obtain e where "r = Inl e" using facts none by (cases r) auto
    ultimately show ?thesis using run by simp
  qed
qed

theorem prune_refuses_witness:
  "\<exists>e. run_request (prune_once (days 25 + 150) 25 1000 10 (\<lambda>_. 0)) (example_db 18) [] = (Inl e, example_db 18)"
proof -
  have "\<not> no_drift 0 (example_db 18)"
    using example_derived [of 18] by (simp add: no_drift_def current_stock_def example_simps)
  then have "\<forall>wm. ledger_at wm (example_db 18) \<longrightarrow> \<not> no_drift wm (example_db 18) \<or> days 25 + 150 - days 25 \<le> wm"
    using ledger_at_unique [OF example_at [of 18]] by metis
  then show ?thesis
    using prune_refuses [OF example_schema, of 1000 25 18 "days 25 + 150" 10 "\<lambda>_. 0" "[]"] by simp
qed

end
