(* ===== verification/InventorySystem.thy ===== *)
theory InventorySystem
  imports InventoryService LedgerPruner
begin

text \<open>
  The inventory domain as a whole: the consistency invariant that ties the ledger, the stored
  balances and the checkpoints together, the step relation of everything that writes the tables
  (the service's methods, reconciliation, retention), and the properties of the service.
\<close>

section \<open>Consistency\<close>

text \<open>
  At instant \<open>now\<close>: keys, foreign keys and checks hold; the checkpoints agree on one instant that is
  not in the future and no stored balance drifts from what the ledger derives; no stock is negative.
\<close>

definition stock_nonneg :: "inventory_db \<Rightarrow> bool" where
  "stock_nonneg d \<longleftrightarrow> (\<forall>s\<in>set (skus d). 0 \<le> current_stock d (sku_id s) (sku_warehouse s))"

definition consistent :: "instant \<Rightarrow> inventory_db \<Rightarrow> bool" where
  "consistent now d \<longleftrightarrow> schema_ok d \<and> stock_nonneg d \<and>
     (\<exists>wm \<le> now. ledger_at wm d \<and> no_drift wm d)"

lemma consistent_later: "consistent now d \<Longrightarrow> now \<le> now' \<Longrightarrow> consistent now' d"
  unfolding consistent_def by (meson order_trans)

lemma found_key:
  "get_sku_for_update d i = Some s \<Longrightarrow> sku_warehouse s = w \<Longrightarrow> (i, w) \<in> sku_key ` set (skus d)"
  using sku_found_key [of d i s] by (force simp: sku_key_def)

lemma found_unique:
  "schema_ok d \<Longrightarrow> s \<in> set (skus d) \<Longrightarrow> get_sku_for_update d (sku_id s) = Some s"
  unfolding get_sku_for_update_def by (rule find_key_unique) (simp_all add: schema_ok_def)

section \<open>Each effect keeps it\<close>

lemma schema_apply_delta:
  "schema_ok d \<Longrightarrow> (i, w) \<in> sku_key ` set (skus d) \<Longrightarrow> schema_ok (apply_balance_delta i w n t d)"
  by (simp add: schema_ok_def apply_balance_delta_def keys_upsert)

lemma schema_add_entry:
  assumes "schema_ok d" and "en_id e = next_entry d" and "0 < en_quantity e"
    and "en_key e \<in> sku_key ` set (skus d)"
  shows "schema_ok (d\<lparr>entries := entries d @ [e], next_entry := next_entry d + 1\<rparr>)"
  using assms unfolding schema_ok_def by force

lemma schema_add_exit:
  assumes "schema_ok d" and "ex_id x = next_exit d" and "0 < ex_quantity x"
    and "tracking_rule (ex_type x) (ex_tracking x)" and "ex_key x \<in> sku_key ` set (skus d)"
  shows "schema_ok (d\<lparr>exits := exits d @ [x], next_exit := next_exit d + 1\<rparr>)"
  using assms unfolding schema_ok_def by force

lemma schema_add_stockout:
  assumes "schema_ok d" and "so_stock_exit_id v \<in> ex_id ` set (exits d)"
    and "so_stock_exit_id v \<notin> so_stock_exit_id ` set (stockouts d)"
  shows "schema_ok (d\<lparr>stockouts := stockouts d @ [v], next_stockout := n\<rparr>)"
  using assms unfolding schema_ok_def by force

lemma schema_add_discrepancy:
  assumes "schema_ok d" and "di_stock_exit_id v \<in> ex_id ` set (exits d)"
    and "di_stock_exit_id v \<notin> di_stock_exit_id ` set (discrepancies d)"
  shows "schema_ok (d\<lparr>discrepancies := discrepancies d @ [v], next_discrepancy := n\<rparr>)"
  using assms unfolding schema_ok_def by force

text \<open>Only the ledger, the checkpoints, the balances and the SKU keys decide drift.\<close>

lemma drift_cong:
  assumes "skus d' = skus d" and "entries d' = entries d" and "exits d' = exits d"
    and "checkpoints d' = checkpoints d" and "balances d' = balances d"
  shows "no_drift wm d' = no_drift wm d" and "ledger_at wm d' = ledger_at wm d"
    and "stock_nonneg d' = stock_nonneg d"
  using assms
  by (simp_all add: no_drift_def derived_quantity_def base_quantity_def received_def dispatched_def
      current_stock_def ledger_at_def stock_nonneg_def)

lemma derived_apply_delta [simp]:
  "derived_quantity wm (apply_balance_delta i w n t d) k = derived_quantity wm d k"
  by (simp add: derived_quantity_def base_quantity_def received_def dispatched_def)

lemma ledger_at_apply_delta [simp]: "ledger_at wm (apply_balance_delta i w n t d) = ledger_at wm d"
  by (rule ledger_at_cong) simp

lemma derived_add_entry:
  "wm \<le> en_created_at e \<Longrightarrow>
   derived_quantity wm (d\<lparr>entries := entries d @ [e], next_entry := n\<rparr>) k =
     derived_quantity wm d k + (if k = en_key e then en_quantity e else 0)"
  by (auto simp: derived_quantity_def base_quantity_def received_def dispatched_def sum_where_append)

lemma derived_add_exit:
  "wm \<le> ex_created_at x \<Longrightarrow>
   derived_quantity wm (d\<lparr>exits := exits d @ [x], next_exit := n\<rparr>) k =
     derived_quantity wm d k - (if k = ex_key x then ex_quantity x else 0)"
  by (auto simp: derived_quantity_def base_quantity_def received_def dispatched_def sum_where_append)

lemma current_stock_update_simps [simp]:
  "current_stock (d\<lparr>entries := es, next_entry := n\<rparr>) i w = current_stock d i w"
  "current_stock (d\<lparr>exits := xs, next_exit := n\<rparr>) i w = current_stock d i w"
  by (simp_all add: current_stock_def)

lemma ledger_at_update_simps [simp]:
  "ledger_at wm (d\<lparr>entries := es, next_entry := n\<rparr>) = ledger_at wm d"
  "ledger_at wm (d\<lparr>exits := xs, next_exit := n\<rparr>) = ledger_at wm d"
  by (simp_all add: ledger_at_def)

lemma consistent_inbound:
  assumes "consistent now0 d" and "now0 \<le> now" and "now \<le> t" and "0 < ec_quantity p"
    and "(ec_sku_id p, ec_warehouse p) \<in> sku_key ` set (skus d)"
  shows "consistent t (inbound_db p user now now' d)"
proof -
  let ?e = "(entry_row p user now)\<lparr>en_id := next_entry d\<rparr>"
  let ?d' = "inbound_db p user now now' d"
  have e: "en_key ?e = (ec_sku_id p, ec_warehouse p)" "en_quantity ?e = ec_quantity p"
    "en_created_at ?e = now" "en_id ?e = next_entry d"
    by (simp_all add: entry_row_def en_key_def)
  from assms(1) obtain wm where wm: "wm \<le> now0" "ledger_at wm d" "no_drift wm d"
    and sch: "schema_ok d" and nn: "stock_nonneg d"
    by (auto simp: consistent_def)
  have cs: "current_stock ?d' i w = current_stock d i w +
      (if (i, w) = (ec_sku_id p, ec_warehouse p) then ec_quantity p else 0)" for i w
    by (simp add: inbound_db_def current_stock_apply_delta)
  have dq: "derived_quantity wm ?d' k = derived_quantity wm d k +
      (if k = (ec_sku_id p, ec_warehouse p) then ec_quantity p else 0)" for k
    using derived_add_entry [where wm = wm and e = ?e and d = d and n = "next_entry d + 1" and k = k] wm(1) assms(2) e
    by (simp add: inbound_db_def)
  have sk: "skus ?d' = skus d" by (simp add: inbound_db_def)
  have "schema_ok ?d'"
    unfolding inbound_db_def
    by (rule schema_apply_delta [OF schema_add_entry [OF sch]]) (use e assms(4,5) in simp_all)
  moreover have "stock_nonneg ?d'"
    using nn assms(4) by (auto simp: stock_nonneg_def cs sk)
  moreover have "no_drift wm ?d'"
    using wm(3) by (auto simp: no_drift_def cs dq sk sku_key_def)
  moreover have "ledger_at wm ?d'"
    using wm(2) by (simp add: inbound_db_def)
  ultimately show ?thesis
    unfolding consistent_def using wm(1) assms(2,3) by (meson order_trans)
qed

lemma consistent_exit:
  assumes "consistent now0 d" and "now0 \<le> now" and "now \<le> t" and "valid_exit_create p"
    and "(xc_sku_id p, xc_warehouse p) \<in> sku_key ` set (skus d)"
    and "xc_quantity p \<le> current_stock d (xc_sku_id p) (xc_warehouse p)"
  shows "consistent t (exit_db p user now now' d)"
proof -
  let ?x = "(exit_row p user now)\<lparr>ex_id := next_exit d\<rparr>"
  let ?d' = "exit_db p user now now' d"
  have x: "ex_key ?x = (xc_sku_id p, xc_warehouse p)" "ex_quantity ?x = xc_quantity p"
    "ex_created_at ?x = now" "ex_id ?x = next_exit d" "tracking_rule (ex_type ?x) (ex_tracking ?x)"
    "0 < xc_quantity p"
    using assms(4) by (simp_all add: exit_row_def ex_key_def valid_exit_create_def)
  from assms(1) obtain wm where wm: "wm \<le> now0" "ledger_at wm d" "no_drift wm d"
    and sch: "schema_ok d" and nn: "stock_nonneg d"
    by (auto simp: consistent_def)
  have cs: "current_stock ?d' i w = current_stock d i w -
      (if (i, w) = (xc_sku_id p, xc_warehouse p) then xc_quantity p else 0)" for i w
    by (simp add: exit_db_def current_stock_apply_delta)
  have dq: "derived_quantity wm ?d' k = derived_quantity wm d k -
      (if k = (xc_sku_id p, xc_warehouse p) then xc_quantity p else 0)" for k
    using derived_add_exit [where wm = wm and x = ?x and d = d and n = "next_exit d + 1" and k = k] wm(1) assms(2) x
    by (simp add: exit_db_def)
  have sk: "skus ?d' = skus d" by (simp add: exit_db_def)
  have "schema_ok ?d'"
    unfolding exit_db_def
    by (rule schema_apply_delta [OF schema_add_exit [OF sch]]) (use x assms(5) in simp_all)
  moreover have "stock_nonneg ?d'"
    using nn assms(6) by (auto simp: stock_nonneg_def cs sk)
  moreover have "no_drift wm ?d'"
    using wm(3) by (auto simp: no_drift_def cs dq sk sku_key_def)
  moreover have "ledger_at wm ?d'"
    using wm(2) by (simp add: exit_db_def)
  ultimately show ?thesis
    unfolding consistent_def using wm(1) assms(2,3) by (meson order_trans)
qed

lemma consistent_outbound:
  assumes "consistent now0 d" and "now0 \<le> now" and "now \<le> t" and "valid_exit_create p"
    and "outbound_rejection p d = None"
  shows "consistent t (accepted_outbound p user now now' d)"
proof -
  obtain s where s: "get_sku_for_update d (xc_sku_id p) = Some s" "sku_warehouse s = xc_warehouse p"
    and enough: "xc_quantity p \<le> current_stock d (xc_sku_id p) (xc_warehouse p)"
    using assms(5) by (auto simp: outbound_rejection_def split: option.splits if_splits)
  let ?d1 = "exit_db p user now now' d"
  let ?x = "(exit_row p user now)\<lparr>ex_id := next_exit d\<rparr>"
  have c1: "consistent t ?d1"
    by (rule consistent_exit [OF assms(1-4) found_key [OF s] enough])
  have old: "next_exit d \<notin> so_stock_exit_id ` set (stockouts d)"
    using assms(1) by (force simp: consistent_def schema_ok_def)
  have f1: "stockouts ?d1 = stockouts d" "next_exit d \<in> ex_id ` set (exits ?d1)"
    by (simp_all add: exit_db_def)
  have "consistent t (?d1\<lparr>stockouts := stockouts ?d1 @ [v], next_stockout := n\<rparr>)"
    if "so_stock_exit_id v = next_exit d" for v n
    using c1 schema_add_stockout [of ?d1 v n] f1 old that
      drift_cong [of "?d1\<lparr>stockouts := stockouts ?d1 @ [v], next_stockout := n\<rparr>" ?d1]
    by (auto simp: consistent_def)
  with c1 show ?thesis
    by (simp add: accepted_outbound_def s outbound_db_def Let_def stockout_row_def)
qed

lemma consistent_discrepancy:
  assumes "consistent now d" and "discrepancy_rejection p d = None"
  shows "consistent now (accepted_discrepancy p user source t d)"
proof -
  obtain x s where x: "get_exit d (dc_stock_exit_id p) = Some x" "ex_type x = Dispatch"
    and s: "get_sku_for_update d (ex_sku_id x) = Some s"
    and fresh: "dc_stock_exit_id p \<notin> di_stock_exit_id ` set (discrepancies d)"
    using assms(2)
    by (force simp: discrepancy_rejection_def discrepancy_exists_def split: option.splits if_splits)
  have xin: "dc_stock_exit_id p \<in> ex_id ` set (exits d)"
    using x(1) by (force simp: get_exit_def dest!: find_Some_in)
  have "consistent now (d\<lparr>discrepancies := discrepancies d @ [v], next_discrepancy := n\<rparr>)"
    if "di_stock_exit_id v = dc_stock_exit_id p" for v n
    using assms(1) schema_add_discrepancy [of d v n] that xin fresh
      drift_cong [of "d\<lparr>discrepancies := discrepancies d @ [v], next_discrepancy := n\<rparr>" d]
    by (auto simp: consistent_def)
  then show ?thesis
    by (simp add: accepted_discrepancy_def x s discrepancy_db_def)
qed

lemma schema_created_sku:
  assumes sch: "schema_ok d" and "sku_id r = next_sku d"
    and "sku_client_id r \<in> cl_id ` set (clients d)" and "0 \<le> sku_min_threshold r"
  shows "schema_ok (d\<lparr>skus := skus d @ [r], next_sku := next_sku d + 1\<rparr>)"
proof -
  have ids: "next_sku d \<notin> sku_id ` set (skus d)"
    using sch by (force simp: schema_ok_def)
  have less: "\<forall>s\<in>set (skus d @ [r]). sku_id s < next_sku d + 1"
    using sch assms(2) by (auto simp: schema_ok_def)
  have keys: "sku_key ` set (skus d @ [r]) = insert (sku_key r) (sku_key ` set (skus d))" by simp
  have mono: "K \<subseteq> sku_key ` set (skus d) \<Longrightarrow> K \<subseteq> sku_key ` set (skus d @ [r])"
    "k \<in> sku_key ` set (skus d) \<Longrightarrow> k \<in> sku_key ` set (skus d @ [r])" for K k
    by auto
  have dist: "distinct (map sku_id (skus d @ [r]))" using sch ids assms(2) by (simp add: schema_ok_def)
  have rows: "\<forall>s\<in>set (skus d @ [r]). sku_client_id s \<in> cl_id ` set (clients d) \<and> 0 \<le> sku_min_threshold s"
    using sch assms(3,4) by (simp add: schema_ok_def)
  let ?d' = "d\<lparr>skus := skus d @ [r], next_sku := next_sku d + 1\<rparr>"
  have f: "clients ?d' = clients d" "skus ?d' = skus d @ [r]" "entries ?d' = entries d"
    "exits ?d' = exits d" "stockouts ?d' = stockouts d" "discrepancies ?d' = discrepancies d"
    "balances ?d' = balances d" "checkpoints ?d' = checkpoints d" "next_sku ?d' = next_sku d + 1"
    "next_entry ?d' = next_entry d" "next_exit ?d' = next_exit d"
    by simp_all
  note c = sch [unfolded schema_ok_def]
  have old: "fst ` set (balances d) \<subseteq> sku_key ` set (skus d)"
    "fst ` set (checkpoints d) \<subseteq> sku_key ` set (skus d)"
    "\<forall>e\<in>set (entries d). en_id e < next_entry d \<and> 0 < en_quantity e \<and>
      en_key e \<in> sku_key ` set (skus d)"
    "\<forall>x\<in>set (exits d). ex_id x < next_exit d \<and> 0 < ex_quantity x \<and>
      tracking_rule (ex_type x) (ex_tracking x) \<and> ex_key x \<in> sku_key ` set (skus d)"
    using sch by (simp_all add: schema_ok_def)
  note bal = mono(1) [OF old(1)] and cps = mono(1) [OF old(2)]
  have ens: "\<forall>e\<in>set (entries d). en_id e < next_entry d \<and> 0 < en_quantity e \<and>
      en_key e \<in> sku_key ` set (skus d @ [r])"
    using old(3) mono(2) by meson
  have exs: "\<forall>x\<in>set (exits d). ex_id x < next_exit d \<and> 0 < ex_quantity x \<and>
      tracking_rule (ex_type x) (ex_tracking x) \<and> ex_key x \<in> sku_key ` set (skus d @ [r])"
    using old(4) mono(2) by meson
  show ?thesis
    unfolding schema_ok_def f using c less dist rows bal cps ens exs
    by (elim conjE) (intro conjI; assumption)
qed

lemma consistent_created_sku:
  assumes "consistent now d" and "valid_sku_create p" and "get_client d (sc_client_id p) \<noteq> None"
  shows "consistent now (created_sku p d)"
proof -
  let ?s = "sku_row p (next_sku d)" and ?d' = "created_sku p d"
  from assms(1) obtain wm where wm: "wm \<le> now" "ledger_at wm d" "no_drift wm d"
    and sch: "schema_ok d" and nn: "stock_nonneg d"
    by (auto simp: consistent_def)
  have key: "sku_key ?s = (next_sku d, sc_warehouse p)" "sku_id ?s = next_sku d"
    "sku_warehouse ?s = sc_warehouse p"
    by (simp_all add: sku_key_def sku_row_def)
  have new: "sku_key ?s \<notin> sku_key ` set (skus d)"
    using sch by (force simp: key schema_ok_def sku_key_def)
  have client: "sc_client_id p \<in> cl_id ` set (clients d)"
    using assms(3) by (force simp: get_client_def dest!: find_Some_in)
  have fields: "skus ?d' = skus d @ [?s]" "balances ?d' = balances d" "entries ?d' = entries d"
    "exits ?d' = exits d" "checkpoints ?d' = checkpoints d"
    by (simp_all add: created_sku_def)
  have "schema_ok ?d'"
    unfolding created_sku_def
    by (rule schema_created_sku [OF sch])
      (use client assms(2) in \<open>simp_all add: sku_row_def valid_sku_create_def\<close>)
  moreover have cs: "current_stock ?d' i w = current_stock d i w" for i w
    by (simp add: current_stock_def fields)
  have dq: "derived_quantity wm ?d' k = derived_quantity wm d k" for k
    by (simp add: derived_quantity_def base_quantity_def received_def dispatched_def fields)
  have "map_of (balances d) (sku_key ?s) = None" "map_of (checkpoints d) (sku_key ?s) = None"
    using sch new by (auto simp: schema_ok_def map_of_eq_None_iff)
  moreover from this have zero: "current_stock d (next_sku d) (sc_warehouse p) = 0"
    by (simp add: current_stock_def key)
  moreover have "received P d (sku_key ?s) = 0" "dispatched P d (sku_key ?s) = 0" for P
  proof -
    have "\<forall>e\<in>set (entries d). en_key e \<in> sku_key ` set (skus d)"
      "\<forall>x\<in>set (exits d). ex_key x \<in> sku_key ` set (skus d)"
      using sch by (simp_all add: schema_ok_def)
    then have "e \<in> set (entries d) \<Longrightarrow> en_key e \<noteq> sku_key ?s"
      "x \<in> set (exits d) \<Longrightarrow> ex_key x \<noteq> sku_key ?s" for e x
      using new by metis+
    then show "received P d (sku_key ?s) = 0" "dispatched P d (sku_key ?s) = 0"
      unfolding received_def dispatched_def by (simp_all add: sum_where_none)
  qed
  ultimately have new_derived: "derived_quantity wm d (next_sku d, sc_warehouse p) = 0"
    by (simp add: derived_quantity_def base_quantity_def key)
  have "no_drift wm ?d'"
    using wm(3) new_derived zero by (simp add: no_drift_def fields cs dq key)
  moreover have "stock_nonneg ?d'"
    using nn zero by (simp add: stock_nonneg_def fields cs key)
  moreover have "ledger_at wm ?d'"
    using wm(2) ledger_at_cong [of ?d' d] fields by simp
  ultimately show ?thesis
    using \<open>schema_ok ?d'\<close> wm(1) by (auto simp: consistent_def)
qed

lemma consistent_set_threshold:
  assumes "consistent now d" and "0 \<le> t"
  shows "consistent now (set_threshold i t d)"
proof -
  let ?f = "\<lambda>r. if sku_id r = i then r\<lparr>sku_min_threshold := t\<rparr> else r"
  have f: "sku_id (?f r) = sku_id r" "sku_warehouse (?f r) = sku_warehouse r"
    "sku_key (?f r) = sku_key r" "sku_client_id (?f r) = sku_client_id r" for r
    by (simp_all add: sku_key_def)
  have sk: "skus (set_threshold i t d) = map ?f (skus d)"
    and same: "balances (set_threshold i t d) = balances d" "entries (set_threshold i t d) = entries d"
      "exits (set_threshold i t d) = exits d" "checkpoints (set_threshold i t d) = checkpoints d"
      "clients (set_threshold i t d) = clients d" "stockouts (set_threshold i t d) = stockouts d"
      "discrepancies (set_threshold i t d) = discrepancies d" "next_sku (set_threshold i t d) = next_sku d"
      "next_entry (set_threshold i t d) = next_entry d" "next_exit (set_threshold i t d) = next_exit d"
    by (simp_all add: set_threshold_def)
  have keys: "sku_key ` set (map ?f (skus d)) = sku_key ` set (skus d)"
    by (simp only: set_map image_image f)
  have ids: "map sku_id (map ?f (skus d)) = map sku_id (skus d)"
    by (simp only: map_map comp_def f)
  have rows: "\<forall>s\<in>set (map ?f (skus d)). sku_client_id s \<in> cl_id ` set (clients d) \<and> 0 \<le> sku_min_threshold s"
    "\<forall>s\<in>set (map ?f (skus d)). sku_id s < next_sku d" if "schema_ok d"
    using that assms(2) by (auto simp: schema_ok_def)
  have "schema_ok (set_threshold i t d)" if "schema_ok d"
    using that rows [OF that] unfolding schema_ok_def sk same keys ids by blast
  moreover have "no_drift wm (set_threshold i t d) = no_drift wm d" for wm
    unfolding no_drift_def sk
    by (simp only: set_map ball_simps(9) f current_stock_def same derived_quantity_def base_quantity_def
        received_def dispatched_def)
  moreover have "stock_nonneg (set_threshold i t d) = stock_nonneg d"
    unfolding stock_nonneg_def sk by (simp only: set_map ball_simps(9) f current_stock_def same)
  moreover have "ledger_at wm (set_threshold i t d) = ledger_at wm d" for wm
    by (rule ledger_at_cong) (simp add: same)
  ultimately show ?thesis using assms(1) by (auto simp: consistent_def)
qed

lemma consistent_clients:
  assumes "consistent now d" and "distinct (map cl_id cs)"
    and "cl_id ` set (clients d) \<subseteq> cl_id ` set cs"
  shows "consistent now (d\<lparr>clients := cs\<rparr>)"
proof -
  have "schema_ok (d\<lparr>clients := cs\<rparr>)"
    using assms by (auto simp: consistent_def schema_ok_def)
  with assms(1) drift_cong [of "d\<lparr>clients := cs\<rparr>" d] show ?thesis
    by (auto simp: consistent_def)
qed

lemma consistent_renamed: "consistent now d \<Longrightarrow> consistent now (renamed c name t d)"
proof -
  assume c: "consistent now d"
  let ?f = "\<lambda>r. if cl_id r = c then r\<lparr>cl_display_name := name, cl_updated_at := t\<rparr> else r"
  let ?cs = "map ?f (clients d)"
  have f: "cl_id (?f r) = cl_id r" for r by simp
  have eq: "map cl_id ?cs = map cl_id (clients d)" by (simp only: map_map comp_def f)
  have "distinct (map cl_id ?cs)"
    unfolding eq using c by (simp add: consistent_def schema_ok_def)
  moreover have "cl_id ` set ?cs = cl_id ` set (clients d)"
    by (simp only: set_map image_image f)
  then have "cl_id ` set (clients d) \<subseteq> cl_id ` set ?cs" by simp
  ultimately show ?thesis
    using consistent_clients [OF c] by (simp add: renamed_def)
qed

lemma consistent_pruned:
  assumes "consistent now0 d" and "now0 \<le> now" and "0 < batch"
    and "run_request (prune_once now rd batch ms clock) d fs = (r, d')"
  shows "consistent now d'"
proof (cases "d' = d")
  case True
  with assms(1,2) show ?thesis by (simp add: consistent_later)
next
  case False
  let ?c = "now - days rd"
  have sch: "schema_ok d" and nn: "stock_nonneg d" using assms(1) by (auto simp: consistent_def)
  have ok: "prune_ok ?c d d'" and rd: "25 \<le> rd"
    using run_prune_once [OF sch assms(3,4)] False
     apply blast
    using assms(4) False
    by (cases "rd < 25")
      (auto simp: run_request_def prune_once_def retention_cutoff_def
        MINIMUM_MOVEMENT_RETENTION_DAYS_def throw_def)
  note facts = prune_ok_facts [OF sch ok False]
  have "0 < days rd" using rd by simp
  then have c: "?c \<le> now" by linarith
  from facts(1) obtain wm where wm: "ledger_at wm d" "wm < ?c" "no_drift ?c d'"
    "skus d \<noteq> [] \<longrightarrow> ledger_at ?c d'" by blast
  have "stock_nonneg d'"
    using nn facts(3,4) by (simp add: stock_nonneg_def current_stock_def)
  moreover have "\<exists>wm \<le> now. ledger_at wm d' \<and> no_drift wm d'"
  proof (cases "skus d = []")
    case True
    then have "checkpoints d = []" using sch by (simp add: schema_ok_def)
    moreover from this have "wm = BEGINNING_OF_TIME" using wm(1) by (simp add: ledger_at_def)
    moreover have "checkpoints d' = []"
      using facts(2,3) True by (simp add: schema_ok_def)
    moreover have "no_drift wm d'" using facts(3) True by (simp add: no_drift_def)
    ultimately show ?thesis using wm(2) c by (intro exI [of _ wm]) (simp add: ledger_at_def)
  next
    case False
    with wm c show ?thesis by blast
  qed
  ultimately show ?thesis using facts(2) by (simp add: consistent_def)
qed

lemma consistent_reconciled:
  assumes "consistent now d" and "run_request (reconcile_once t) d fs = (r, d')"
  shows "d' = d"
proof (cases r)
  case (Inr n)
  with run_reconcile_once [OF assms(2)] obtain wm where wm: "ledger_at wm d"
    "n = length (drift_rows wm d)" "d' = (if n = 0 then d else upsert_balances t wm d)" by auto
  moreover from assms(1) wm(1) have "no_drift wm d"
    by (auto simp: consistent_def dest: ledger_at_unique)
  ultimately show ?thesis using drift_rows_empty by simp
qed (use run_reconcile_once [OF assms(2)] in simp)

section \<open>The system\<close>

text \<open>
  One step is one committed or failed request, or one run of a maintenance job, under any faults.
  The second component is a lower bound of the clock.
\<close>

inductive inventory_step :: "inventory_db \<times> instant \<Rightarrow> inventory_db \<times> instant \<Rightarrow> bool" where
  step_inbound:
    "valid_entry_create p \<Longrightarrow> now \<le> t \<Longrightarrow> t \<le> t' \<Longrightarrow>
     run_request (record_inbound p user t t') d fs = (r, d') \<Longrightarrow> inventory_step (d, now) (d', t')"
| step_outbound:
    "valid_exit_create p \<Longrightarrow> now \<le> t \<Longrightarrow> t \<le> t' \<Longrightarrow>
     run_request (record_outbound p user t t') d fs = (r, d') \<Longrightarrow> inventory_step (d, now) (d', t')"
| step_discrepancy:
    "valid_discrepancy_create p \<Longrightarrow> now \<le> t \<Longrightarrow>
     run_request (record_discrepancy p owner source t) d fs = (r, d') \<Longrightarrow> inventory_step (d, now) (d', t)"
| step_create_sku:
    "valid_sku_create p \<Longrightarrow> run_request (create_sku p) d fs = (r, d') \<Longrightarrow>
     inventory_step (d, now) (d', now)"
| step_update_sku:
    "valid_sku_update p \<Longrightarrow> run_request (update_sku i p) d fs = (r, d') \<Longrightarrow>
     inventory_step (d, now) (d', now)"
| step_create_client:
    "c \<notin> cl_id ` set (clients d) \<Longrightarrow> now \<le> t \<Longrightarrow> t \<le> t' \<Longrightarrow>
     run_request (create_client c name role t t') d fs = (r, d') \<Longrightarrow> inventory_step (d, now) (d', t')"
| step_rename_client:
    "now \<le> t \<Longrightarrow> run_request (rename_client c name role t) d fs = (r, d') \<Longrightarrow>
     inventory_step (d, now) (d', t)"
| step_reconcile:
    "now \<le> t \<Longrightarrow> run_request (reconcile_once t) d fs = (r, d') \<Longrightarrow> inventory_step (d, now) (d', t)"
| step_prune:
    "now \<le> t \<Longrightarrow> 0 < batch \<Longrightarrow> run_request (prune_once t rd batch ms clock) d fs = (q, d') \<Longrightarrow>
     inventory_step (d, now) (d', t)"

text \<open>What a method leaves committed, from its precondition.\<close>

lemma run_committed:
  assumes "wp m Q E (open_session d fs)" and "run_request m d fs = (r, d')"
    and "\<And>v s. Q v s \<Longrightarrow> P (committed s)" and "\<And>e s. E e s \<Longrightarrow> P (committed s)"
  shows "P d'"
  using wp_run_request [OF assms(1), of "\<lambda>p. P (snd p)"] assms(2-4) by simp

lemma consistent_step:
  assumes "inventory_step (d, now) (d', now')" and "consistent now d"
  shows "consistent now' d' \<and> now \<le> now'"
  using assms
proof (cases rule: inventory_step.cases)
  case (step_inbound p t user fs r)
  have "d' = d \<or> (d' = inbound_db p user t now' d \<and> (\<exists>s. get_sku_for_update d (ec_sku_id p) = Some s \<and>
      sku_warehouse s = ec_warehouse p))"
    by (rule run_committed [OF wp_record_inbound step_inbound(4)])
      (use step_inbound(1) in \<open>auto simp: valid_entry_create_def\<close>)
  then show ?thesis
    using consistent_inbound [OF assms(2) step_inbound(2,3)] found_key step_inbound(1-3)
      consistent_later [OF assms(2)]
    by (auto simp: valid_entry_create_def)
next
  case (step_outbound p t user fs r)
  have sch: "schema_ok d" using assms(2) by (simp add: consistent_def)
  have "d' = d \<or> (d' = accepted_outbound p user t now' d \<and> outbound_rejection p d = None)"
    by (rule run_committed [OF wp_record_outbound [OF sch step_outbound(1)] step_outbound(4)]) auto
  then show ?thesis
    using consistent_outbound [OF assms(2) step_outbound(2,3,1)] step_outbound(2,3)
      consistent_later [OF assms(2)] by auto
next
  case (step_discrepancy p owner source fs r)
  have "d' = d \<or> (d' = accepted_discrepancy p owner source now' d \<and> discrepancy_rejection p d = None)"
    by (rule run_committed [OF wp_record_discrepancy [OF step_discrepancy(1)] step_discrepancy(3)]) auto
  then show ?thesis
    using consistent_discrepancy [OF assms(2)] step_discrepancy(2) consistent_later [OF _ step_discrepancy(2)]
      assms(2) by auto
next
  case (step_create_sku p fs r)
  have "d' = d \<or> (d' = created_sku p d \<and> get_client d (sc_client_id p) \<noteq> None)"
    by (rule run_committed [OF wp_create_sku [OF step_create_sku(2)] step_create_sku(3)]) auto
  then show ?thesis
    using consistent_created_sku [OF assms(2) step_create_sku(2)] assms(2) step_create_sku(1) by auto
next
  case (step_update_sku p i fs r)
  have "d' = d \<or> (\<exists>s. get_sku_for_update d i = Some s \<and>
      d' = set_threshold i (sku_min_threshold (updated_sku p s)) d)"
    by (rule run_committed [OF wp_update_sku step_update_sku(3)]) auto
  moreover have "0 \<le> sku_min_threshold (updated_sku p s)" if "get_sku_for_update d i = Some s" for s
    using sku_found_key [OF that] assms(2) step_update_sku(2)
    by (auto simp: updated_sku_def valid_sku_update_def consistent_def schema_ok_def split: option.splits)
  ultimately show ?thesis
    using consistent_set_threshold [OF assms(2)] assms(2) step_update_sku(1) by auto
next
  case (step_create_client c t name role fs r)
  have "d' = d \<or> d' = d\<lparr>clients := clients d @ [client_row c name t now']\<rparr>"
    by (rule run_committed [OF wp_create_client [OF step_create_client(1)] step_create_client(4)]) auto
  moreover have "distinct (map cl_id (clients d @ [client_row c name t now']))"
    using assms(2) step_create_client(1) by (simp add: consistent_def schema_ok_def client_row_def)
  ultimately show ?thesis
    using consistent_clients [OF assms(2), of "clients d @ [client_row c name t now']"]
      consistent_later [OF _ order_trans [OF step_create_client(2,3)]] step_create_client(2,3) assms(2)
    by auto
next
  case (step_rename_client c name role fs r)
  have "d' = d \<or> d' = renamed c name now' d"
    by (rule run_committed [OF wp_rename_client step_rename_client(2)]) auto
  then show ?thesis
    using consistent_renamed consistent_later [OF assms(2)] step_rename_client(1) by auto
next
  case (step_reconcile fs r)
  then have "d' = d" using consistent_reconciled [OF assms(2)] by blast
  with step_reconcile(1) show ?thesis using consistent_later [OF assms(2)] by simp
next
  case (step_prune batch rd ms clock fs r)
  then show ?thesis
    using consistent_pruned [OF assms(2)] by blast
qed

lemma consistent_steps:
  "inventory_step\<^sup>*\<^sup>* x y \<Longrightarrow> consistent (snd x) (fst x) \<Longrightarrow> consistent (snd y) (fst y) \<and> snd x \<le> snd y"
proof (induction rule: rtranclp_induct)
  case (step y z)
  then show ?case using consistent_step [of "fst y" "snd y" "fst z" "snd z"] by auto
qed simp

section \<open>Properties\<close>

lemma example_consistent: "consistent 250 (example_db 16)"
proof -
  have "no_drift 0 (example_db 16)"
    using example_derived by (simp add: no_drift_def current_stock_def example_simps)
  moreover have "stock_nonneg (example_db 16)"
    by (simp add: stock_nonneg_def current_stock_def example_simps)
  ultimately show ?thesis
    using example_schema example_at [of 16] by (auto simp: consistent_def intro!: exI [of _ 0])
qed

definition example_exit :: stock_exit_create where
  "example_exit = \<lparr>xc_sku_id = 1, xc_quantity = 12, xc_exit_type = Dispatch,
     xc_tracking = Some ''T2'', xc_warehouse = LA\<rparr>"

definition example_entry :: stock_entry_create where
  "example_entry = \<lparr>ec_sku_id = 1, ec_quantity = 3, ec_reference = ''PO2'', ec_warehouse = LA\<rparr>"

lemma example_exit_valid: "valid_exit_create example_exit"
  by (simp add: valid_exit_create_def example_exit_def valid_text_def trim_def whitespace_def
      tracking_rule_def)

lemma example_entry_valid: "valid_entry_create example_entry"
  by (simp add: valid_entry_create_def example_entry_def valid_text_def trim_def whitespace_def)



text \<open>C4: an outbound movement. A request that returns appended exactly one exit of the requested
  quantity to a SKU of that warehouse which had enough stock, moved exactly that SKU's balance, and
  wrote one stockout event if and only if the stock went from above a positive threshold to at or
  below it; the event carries the exit's id, the threshold and the stock after. A request that
  raises anything but 503 changed nothing. With a database that answers, a request returns if and
  only if the SKU exists in that warehouse and has the quantity.\<close>

theorem outbound_movement:
  assumes "schema_ok d" and "valid_exit_create p"
    and "run_request (record_outbound p user t t') d fs = (r, d')"
  shows "(\<forall>x. r = Inr x \<longrightarrow> (\<exists>s. get_sku_for_update d (xc_sku_id p) = Some s \<and>
      sku_warehouse s = xc_warehouse p \<and>
      xc_quantity p \<le> current_stock d (xc_sku_id p) (xc_warehouse p) \<and>
      exits d' = exits d @ [x] \<and> ex_id x = next_exit d \<and> ex_quantity x = xc_quantity p \<and>
      ex_type x = xc_exit_type p \<and> ex_created_at x = t \<and> ex_user_uuid x = user \<and>
      (\<forall>i w. current_stock d' i w = current_stock d i w -
         (if (i, w) = (xc_sku_id p, xc_warehouse p) then xc_quantity p else 0)) \<and>
      entries d' = entries d \<and> skus d' = skus d \<and> discrepancies d' = discrepancies d \<and>
      (let available = current_stock d (xc_sku_id p) (xc_warehouse p); after = available - xc_quantity p in
       if 0 < sku_min_threshold s \<and> sku_min_threshold s < available \<and> after \<le> sku_min_threshold s
       then (\<exists>v. stockouts d' = stockouts d @ [v] \<and> so_stock_exit_id v = ex_id x \<and>
               so_threshold v = sku_min_threshold s \<and> so_stock_after v = after \<and> so_occurred_at v = t)
       else stockouts d' = stockouts d))) \<and>
    (\<forall>e. r = Inl e \<and> e \<noteq> unavailable \<longrightarrow> d' = d) \<and>
    (fs = [] \<longrightarrow> (\<exists>x. r = Inr x) \<longleftrightarrow> (\<exists>s. get_sku_for_update d (xc_sku_id p) = Some s \<and>
      sku_warehouse s = xc_warehouse p \<and>
      xc_quantity p \<le> current_stock d (xc_sku_id p) (xc_warehouse p)))"
proof -
  note wpo = wp_record_outbound [OF assms(1,2), of user t t' fs]
  have res: "case r of
      Inr x \<Rightarrow> outbound_rejection p d = None \<and> x = (exit_row p user t)\<lparr>ex_id := next_exit d\<rparr> \<and>
        d' = accepted_outbound p user t t' d
    | Inl e \<Rightarrow> e = unavailable \<and> True \<in> set fs \<or>
        (\<exists>x. outbound_rejection p d = Some x) \<and> d' = d"
    using wp_run_request [OF wpo, of "\<lambda>p'. case p' of (r, d') \<Rightarrow> (case r of
      Inr x \<Rightarrow> outbound_rejection p d = None \<and> x = (exit_row p user t)\<lparr>ex_id := next_exit d\<rparr> \<and>
        d' = accepted_outbound p user t t' d
    | Inl e \<Rightarrow> e = unavailable \<and> True \<in> set fs \<or>
        (\<exists>x. outbound_rejection p d = Some x) \<and> d' = d)"] assms(3) by auto
  have acc: "outbound_rejection p d = None \<longleftrightarrow> (\<exists>s. get_sku_for_update d (xc_sku_id p) = Some s \<and>
      sku_warehouse s = xc_warehouse p \<and>
      xc_quantity p \<le> current_stock d (xc_sku_id p) (xc_warehouse p))"
    by (auto simp: outbound_rejection_def split: option.splits)
  show ?thesis
  proof (cases r)
    case (Inl e)
    with res acc show ?thesis by auto
  next
    case (Inr x)
    with res acc obtain s where s: "get_sku_for_update d (xc_sku_id p) = Some s"
        "sku_warehouse s = xc_warehouse p" "xc_quantity p \<le> current_stock d (xc_sku_id p) (xc_warehouse p)"
      and x: "x = (exit_row p user t)\<lparr>ex_id := next_exit d\<rparr>" and d': "d' = outbound_db p user t t' s d"
      by (auto simp: accepted_outbound_def)
    have cs: "current_stock (c\<lparr>stockouts := ss, next_stockout := n\<rparr>) i w = current_stock c i w" for c ss n i w
      by (simp add: current_stock_def)
    show ?thesis
      using s Inr unfolding d' x
      by (auto simp: outbound_db_def exit_db_def Let_def exit_row_def stockout_row_def
          crosses_threshold_def cs current_stock_apply_delta)
  qed
qed

theorem outbound_movement_witness:
  "\<exists>x d'. run_request (record_outbound example_exit ''u'' 260 261) (example_db 16) [] = (Inr x, d') \<and>
     current_stock d' 1 LA = 4 \<and> (\<exists>v. stockouts d' = [v] \<and> so_stock_after v = 4 \<and> so_threshold v = 5)"
proof -
  obtain r d' where run: "run_request (record_outbound example_exit ''u'' 260 261) (example_db 16) [] = (r, d')"
    by fastforce
  have s: "get_sku_for_update (example_db 16) (xc_sku_id example_exit) = Some example_sku"
    "sku_warehouse example_sku = xc_warehouse example_exit"
    "current_stock (example_db 16) 1 LA = 16" "stockouts (example_db 16) = []"
    "xc_quantity example_exit = 12" "xc_sku_id example_exit = 1" "xc_warehouse example_exit = LA"
    "sku_min_threshold example_sku = 5"
    by (simp_all add: get_sku_for_update_def example_simps example_exit_def current_stock_def)
  note main = outbound_movement [OF example_schema example_exit_valid run]
  then obtain x where x: "r = Inr x" using s by auto
  with main s run show ?thesis by (auto simp: Let_def)
qed

text \<open>C33: the rejections of an outbound movement, in the order of the code: an unknown SKU is a 404, a
  SKU of another warehouse a 400, too little stock a 400 whose text names the available and the
  requested quantity; each carries a telemetry event, with its reason, exactly when the exit is a
  dispatch, and none changes the database.\<close>

theorem outbound_rejected:
  assumes "schema_ok d" and "valid_exit_create p" and "outbound_rejection p d = Some e"
  shows "run_request (record_outbound p user t t') d [] = (Inl (DomainError e), d) \<and>
    (reject_event e = None \<longleftrightarrow> xc_exit_type p = Loss) \<and>
    (status_code e = 404 \<longleftrightarrow> get_sku_for_update d (xc_sku_id p) = None) \<and>
    (\<forall>s. get_sku_for_update d (xc_sku_id p) = Some s \<longrightarrow> status_code e = 400 \<and>
      (sku_warehouse s = xc_warehouse p \<longrightarrow>
         current_stock d (xc_sku_id p) (xc_warehouse p) < xc_quantity p \<and>
         detail e = insufficient_stock_detail (sku_code s)
           (current_stock d (xc_sku_id p) (xc_warehouse p)) (xc_quantity p)))"
proof -
  have "run_request (record_outbound p user t t') d [] = (Inl (DomainError e), d)"
    by (rule wp_run_request [OF wp_record_outbound [OF assms(1,2), of user t t' "[]"]])
      (use assms(3) in auto)
  moreover have "reject_event e = None \<longleftrightarrow> xc_exit_type p = Loss"
    using assms(3) by (cases "xc_exit_type p")
      (auto simp: outbound_rejection_def dispatch_rejection_of_def split: option.splits if_splits)
  ultimately show ?thesis
    using assms(3) by (auto simp: outbound_rejection_def split: option.splits if_splits)
qed

definition example_big_exit :: stock_exit_create where
  "example_big_exit = example_exit\<lparr>xc_quantity := 17\<rparr>"

theorem outbound_rejected_witness:
  "\<exists>e. run_request (record_outbound example_big_exit ''u'' 260 261) (example_db 16) [] = (Inl e, example_db 16)"
proof -
  have valid: "valid_exit_create example_big_exit"
    using example_exit_valid by (simp add: valid_exit_create_def example_big_exit_def)
  have "outbound_rejection example_big_exit (example_db 16) \<noteq> None"
    by (simp add: outbound_rejection_def get_sku_for_update_def example_simps example_big_exit_def
        example_exit_def current_stock_def)
  then obtain e where "outbound_rejection example_big_exit (example_db 16) = Some e" by auto
  with outbound_rejected [OF example_schema valid this] show ?thesis by blast
qed

text \<open>C34: an inbound movement is all or nothing, and its answer tells which except for 503. A request
  that returns appended one entry and raised that SKU's balance by its quantity; a 404 or 400 left
  the database alone; and a 503 left it alone or, when the fault struck the re-read that follows the
  commit, stored the whole movement.\<close>

theorem inbound_movement:
  assumes "0 < ec_quantity p"
    and "run_request (record_inbound p user t t') d fs = (r, d')"
  shows "(\<forall>e. r = Inr e \<longrightarrow> entries d' = entries d @ [e] \<and> en_id e = next_entry d \<and>
      en_quantity e = ec_quantity p \<and> en_created_at e = t \<and> exits d' = exits d \<and> skus d' = skus d \<and>
      sku_key_exists d (ec_sku_id p, ec_warehouse p) \<and>
      (\<forall>i w. current_stock d' i w = current_stock d i w +
        (if (i, w) = (ec_sku_id p, ec_warehouse p) then ec_quantity p else 0))) \<and>
    (\<forall>x. r = Inl x \<longrightarrow>
      x = inventory_error_of 404 ''SKU not found'' \<and> get_sku_for_update d (ec_sku_id p) = None \<and> d' = d \<or>
      x = inventory_error_of 400 ''Movement warehouse must match SKU warehouse'' \<and> d' = d \<or>
      x = unavailable \<and> True \<in> set fs \<and> (d' = d \<or> d' = inbound_db p user t t' d))"
proof -
  have res: "case r of
      Inr e \<Rightarrow> (\<exists>s. get_sku_for_update d (ec_sku_id p) = Some s \<and> sku_warehouse s = ec_warehouse p) \<and>
        e = (entry_row p user t)\<lparr>en_id := next_entry d\<rparr> \<and> d' = inbound_db p user t t' d
    | Inl x \<Rightarrow> x = inventory_error_of 404 ''SKU not found'' \<and> get_sku_for_update d (ec_sku_id p) = None \<and> d' = d \<or>
      x = inventory_error_of 400 ''Movement warehouse must match SKU warehouse'' \<and> d' = d \<or>
      x = unavailable \<and> True \<in> set fs \<and> (d' = d \<or> d' = inbound_db p user t t' d)"
    using wp_run_request [OF wp_record_inbound [OF assms(1), of user t t' d fs], of "\<lambda>p'. case p' of (r, d') \<Rightarrow>
      (case r of
      Inr e \<Rightarrow> (\<exists>s. get_sku_for_update d (ec_sku_id p) = Some s \<and> sku_warehouse s = ec_warehouse p) \<and>
        e = (entry_row p user t)\<lparr>en_id := next_entry d\<rparr> \<and> d' = inbound_db p user t t' d
    | Inl x \<Rightarrow> x = inventory_error_of 404 ''SKU not found'' \<and> get_sku_for_update d (ec_sku_id p) = None \<and> d' = d \<or>
      x = inventory_error_of 400 ''Movement warehouse must match SKU warehouse'' \<and> d' = d \<or>
      x = unavailable \<and> True \<in> set fs \<and> (d' = d \<or> d' = inbound_db p user t t' d))"] assms(2) by auto
  show ?thesis
  proof (cases r)
    case (Inl x)
    with res show ?thesis by auto
  next
    case (Inr e)
    with res show ?thesis
      by (auto simp: inbound_db_def entry_row_def current_stock_apply_delta dest: sku_found_exists)
  qed
qed

theorem inbound_movement_witness:
  "\<exists>e d'. run_request (record_inbound example_entry ''u'' 260 261) (example_db 16) [] = (Inr e, d') \<and>
     current_stock d' 1 LA = 19"
proof -
  obtain r d' where run: "run_request (record_inbound example_entry ''u'' 260 261) (example_db 16) [] = (r, d')"
    by fastforce
  then have "\<exists>e. r = Inr e"
    by (auto simp: record_inbound_def validate_sku_warehouse_def tx_defs get_sku_for_update_def
        example_simps example_entry_def insert_entry_def entry_row_def sku_key_exists_def refresh_def
        Let_def)
  moreover have "current_stock (example_db 16) 1 LA = 16"
    by (simp add: current_stock_def example_db_def)
  ultimately show ?thesis
    using inbound_movement [OF _ run] run by (auto simp: example_entry_def)
qed

text \<open>A 503 does not mean that nothing happened. Whenever an inbound movement would be accepted,
  a fault in the \<open>session.refresh\<close> after the commit makes the method answer 503 with the movement
  and its balance committed, so that a client that retries the request records it twice.\<close>

theorem unavailable_after_commit:
  assumes "0 < ec_quantity p" and "get_sku_for_update d (ec_sku_id p) = Some s"
    and "sku_warehouse s = ec_warehouse p"
  shows "run_request (record_inbound p user t t') d [False, False, False, False, True] =
      (Inl unavailable, inbound_db p user t t' d) \<and>
    run_request (record_inbound p user t t') d [] =
      (Inr ((entry_row p user t)\<lparr>en_id := next_entry d\<rparr>), inbound_db p user t t' d)"
proof -
  have ins: "insert_entry (entry_row p user t) d = (Inr ((entry_row p user t)\<lparr>en_id := next_entry d\<rparr>),
         d\<lparr>entries := entries d @ [(entry_row p user t)\<lparr>en_id := next_entry d\<rparr>],
           next_entry := next_entry d + 1\<rparr>)"
    using assms(1) sku_found_exists [OF assms(2,3)]
    by (simp add: insert_entry_def entry_row_def en_key_def Let_def)
  show ?thesis
    using assms(2,3)
    by (simp add: record_inbound_def validate_sku_warehouse_def tx_defs refresh_def ins inbound_db_def
        handle_def persistence_failure_def)
qed

theorem unavailable_after_commit_witness:
  "current_stock (snd (run_request (record_inbound example_entry ''u'' 260 261) (example_db 16)
      [False, False, False, False, True])) 1 LA = 19"
proof -
  have "get_sku_for_update (example_db 16) (ec_sku_id example_entry) = Some example_sku"
    by (simp add: get_sku_for_update_def example_simps example_entry_def)
  from unavailable_after_commit [OF _ this, of "''u''" 260 261] show ?thesis
    by (simp add: example_entry_def example_sku_def inbound_db_def current_stock_apply_delta)
      (simp add: current_stock_def example_db_def)
qed

text \<open>One discrepancy for each dispatch. A recorded discrepancy belongs to an existing dispatch
  exit that had none, takes its SKU, warehouse and client from the exit and its SKU, and the
  database then refuses a second one for the same exit with a 409 and stores nothing; a loss or an
  unknown exit is refused with 422 or 404.\<close>

theorem discrepancy_once:
  assumes "valid_discrepancy_create p" and "valid_discrepancy_create q"
    and "dc_stock_exit_id q = dc_stock_exit_id p"
    and "run_request (record_discrepancy p user source t) d fs = (Inr v, d')"
  shows "(\<exists>x s. get_exit d (dc_stock_exit_id p) = Some x \<and> ex_type x = Dispatch \<and>
      get_sku_for_update d (ex_sku_id x) = Some s \<and> \<not> discrepancy_exists d (dc_stock_exit_id p) \<and>
      (\<exists>v'. discrepancies d' = discrepancies d @ [v'] \<and> di_stock_exit_id v' = dc_stock_exit_id p \<and>
        di_sku_id v' = ex_sku_id x \<and> di_warehouse v' = ex_warehouse x \<and> di_client_id v' = sku_client_id s \<and>
        di_quantity_delta v' = dc_quantity_delta p)) \<and>
    run_request (record_discrepancy q user' source' t') d' [] =
      (Inl (inventory_error_of 409 ''DISCREPANCY_EXISTS''), d')"
proof -
  have res: "discrepancy_rejection p d = None \<and> d' = accepted_discrepancy p user source t d"
    using wp_run_request [OF wp_record_discrepancy [OF assms(1), of user source t d fs], of "\<lambda>p'. case p' of
      (Inr v, d') \<Rightarrow> discrepancy_rejection p d = None \<and> d' = accepted_discrepancy p user source t d
    | _ \<Rightarrow> True"] assms(4) by auto
  then obtain x s where x: "get_exit d (dc_stock_exit_id p) = Some x" "ex_type x = Dispatch"
    "get_sku_for_update d (ex_sku_id x) = Some s" "\<not> discrepancy_exists d (dc_stock_exit_id p)"
    and d': "d' = discrepancy_db p user source t x s d"
    by (auto simp: discrepancy_rejection_def accepted_discrepancy_def split: option.splits if_splits)
  have "get_exit d' i = get_exit d i" for i by (simp add: d' discrepancy_db_def get_exit_def)
  then have again: "discrepancy_rejection q d' = Some (409, ''DISCREPANCY_EXISTS'')"
    using x assms(3) by (simp add: discrepancy_rejection_def discrepancy_exists_def d' discrepancy_db_def)
  have "run_request (record_discrepancy q user' source' t') d' [] =
      (Inl (inventory_error_of 409 ''DISCREPANCY_EXISTS''), d')"
    by (rule wp_run_request [OF wp_record_discrepancy [OF assms(2), of user' source' t' d' "[]"]])
      (use again in auto)
  with x show ?thesis by (simp add: d' discrepancy_db_def)
qed

definition example_discrepancy :: discrepancy_create where
  "example_discrepancy = \<lparr>dc_stock_exit_id = 1, dc_quantity_delta = -1\<rparr>"

theorem discrepancy_once_witness:
  "\<exists>v d'. run_request (record_discrepancy example_discrepancy None Feed 260) (example_db 16) [] = (Inr v, d') \<and>
     run_request (record_discrepancy example_discrepancy None Manual 270) d' [] =
       (Inl (inventory_error_of 409 ''DISCREPANCY_EXISTS''), d')"
proof -
  have valid: "valid_discrepancy_create example_discrepancy"
    by (simp add: valid_discrepancy_create_def example_discrepancy_def)
  obtain r d' where run: "run_request (record_discrepancy example_discrepancy None Feed 260) (example_db 16) [] = (r, d')"
    by fastforce
  then have "\<exists>v. r = Inr v"
    by (auto simp: record_discrepancy_def tx_defs get_sku_for_update_def get_exit_def
        example_simps example_discrepancy_def insert_discrepancy_def discrepancy_exists_def refresh_def
        Let_def)
  then obtain v where "run_request (record_discrepancy example_discrepancy None Feed 260) (example_db 16) [] = (Inr v, d')"
    using run by blast
  with discrepancy_once [OF valid valid refl this] show ?thesis by blast
qed

text \<open>SKU codes are unique per warehouse, and the answer says why a creation failed. With a
  database that answers, \<open>create_sku\<close> returns, with stock 0, exactly when the client exists and the
  code is free in the warehouse; the new row then blocks the same code there (409) and not in the
  other warehouse; an unknown client is a 422.\<close>

theorem create_sku_unique:
  assumes "valid_sku_create p" and "run_request (create_sku p) d [] = (r, d')"
  shows "((\<exists>row. r = Inr row) \<longleftrightarrow> get_client d (sc_client_id p) \<noteq> None \<and> \<not> sku_taken p d) \<and>
    (\<forall>row. r = Inr row \<longrightarrow> d' = created_sku p d \<and> sr_current_stock row = 0 \<and>
       sr_id row = next_sku d \<and> sku_taken p d' \<and>
       (\<forall>w. w \<noteq> sc_warehouse p \<longrightarrow> sku_taken (p\<lparr>sc_warehouse := w\<rparr>) d' = sku_taken (p\<lparr>sc_warehouse := w\<rparr>) d)) \<and>
    (\<forall>e. r = Inl e \<longrightarrow> d' = d \<and>
       ((get_client d (sc_client_id p) = None \<and> e = inventory_error_of 422 ''Client not found'') \<or>
        (get_client d (sc_client_id p) \<noteq> None \<and> sku_taken p d \<and> (\<exists>text. e = inventory_error_of 409 text))))"
proof (cases "get_client d (sc_client_id p)")
  case None
  with assms(2) show ?thesis by (auto simp: create_sku_def tx_defs)
next
  case (Some c)
  note ins = insert_sku_valid [OF assms(1) Some]
  show ?thesis
  proof (cases "sku_taken p d")
    case True
    with assms(2) Some show ?thesis
      by (auto simp: create_sku_def tx_defs ins handle_def)
  next
    case False
    have cl: "get_client (created_sku p d) (sc_client_id p) = Some c" by (simp add: Some)
    with assms(2) Some False show ?thesis
      by (auto simp: create_sku_def tx_defs ins refresh_def product_response_def)
        (auto simp: sku_row_def sku_taken_def created_sku_def)
  qed
qed

definition example_sku_create :: sku_create where
  "example_sku_create = \<lparr>sc_name = ''Lamp'', sc_sku = ''LMP'', sc_client_id = ''c1'',
     sc_category = Electronics, sc_warehouse = ZGZ, sc_min_threshold = 0\<rparr>"

theorem create_sku_unique_witness:
  "\<exists>row d'. run_request (create_sku example_sku_create) (example_db 16) [] = (Inr row, d') \<and> sr_current_stock row = 0"
proof -
  have valid: "valid_sku_create example_sku_create"
    by (simp add: valid_sku_create_def example_sku_create_def valid_text_def trim_def whitespace_def)
  obtain r d' where run: "run_request (create_sku example_sku_create) (example_db 16) [] = (r, d')"
    by fastforce
  have "get_client (example_db 16) ''c1'' \<noteq> None" "\<not> sku_taken example_sku_create (example_db 16)"
    by (simp_all add: get_client_def sku_taken_def example_simps example_sku_create_def)
  with create_sku_unique [OF valid run] run show ?thesis
    by (auto simp: example_sku_create_def)
qed

end
