(* ===== verification/WeeklyKpis.thy ===== *)
theory WeeklyKpis
  imports Prelude
begin

text \<open>
  The weekly KPI transformation (\<open>data/process/business_performance/weekly_kpis.py\<close>): dynamic
  source records are validated, deduplicated by id, bucketed by ISO week into a dense grid of
  (week, warehouse, client), and the discrepancy rate is a Python \<open>Decimal\<close>.

  A date is the number of days since 1970-01-01 (a Thursday). A record is a mapping from field names
  to dynamic Python values. A raised \<open>TransformError\<close> is \<open>Inl\<close> of its message.
\<close>

section \<open>Dynamic values\<close>

type_synonym date = int

datatype pyvalue =
  PyNone
| PyBool bool
| PyInt int
| PyStr string
| PyAware instant
| PyNaive
| PyDate date
| PyUuid string
| PyObject string

datatype pyrecord = Mapping "(string \<times> pyvalue) list" | NotMapping

datatype pysequence = Records "pyrecord list" | NotSequence

type_synonym 'a transform = "string + 'a"

definition rbind :: "'e + 'a \<Rightarrow> ('a \<Rightarrow> 'e + 'b) \<Rightarrow> 'e + 'b" where
  "rbind r k = (case r of Inl e \<Rightarrow> Inl e | Inr v \<Rightarrow> k v)"

lemma rbind_simps [simp]: "rbind (Inl e) k = Inl e" "rbind (Inr v) k = k v"
  by (simp_all add: rbind_def)

lemma rbind_Inr_iff: "rbind r k = Inr x \<longleftrightarrow> (\<exists>v. r = Inr v \<and> k v = Inr x)"
  by (cases r) auto

fun rmap :: "('a \<Rightarrow> 'e + 'b) \<Rightarrow> 'a list \<Rightarrow> 'e + 'b list" where
  "rmap f [] = Inr []"
| "rmap f (x # xs) = rbind (f x) (\<lambda>y. rbind (rmap f xs) (\<lambda>ys. Inr (y # ys)))"

lemma rmap_Inr_iff: "rmap f xs = Inr ys \<longleftrightarrow> map f xs = map Inr ys"
  by (induction xs arbitrary: ys) (auto simp: rbind_Inr_iff Cons_eq_map_conv)

definition field :: "(string \<times> pyvalue) list \<Rightarrow> string \<Rightarrow> pyvalue" where
  "field r k = coalesce (map_of r k) PyNone"

section \<open>Field validators\<close>

definition aware_utc :: "pyvalue \<Rightarrow> string \<Rightarrow> instant transform" where
  "aware_utc v f = (case v of PyAware t \<Rightarrow> Inr t | _ \<Rightarrow> Inl (f @ '' must be a timezone-aware datetime''))"

definition positive_int :: "pyvalue \<Rightarrow> string \<Rightarrow> int transform" where
  "positive_int v f =
     (case v of PyInt i \<Rightarrow> if i \<le> 0 then Inl (f @ '' must be a positive integer'') else Inr i
      | _ \<Rightarrow> Inl (f @ '' must be a positive integer''))"

definition nonzero_int :: "pyvalue \<Rightarrow> string \<Rightarrow> int transform" where
  "nonzero_int v f =
     (case v of PyInt i \<Rightarrow> if i = 0 then Inl (f @ '' must be a non-zero integer'') else Inr i
      | _ \<Rightarrow> Inl (f @ '' must be a non-zero integer''))"

text \<open>
  \<open>str(UUID(str(value)))\<close>, from the standard library: \<open>urn:\<close> and \<open>uuid:\<close> are dropped, braces are
  stripped, hyphens are dropped, 32 characters must be left, and \<open>int(_, 16)\<close> must read them: white
  space around, a sign, a \<open>0x\<close> prefix and single underscores between digits are all accepted there.
\<close>

definition hex_value :: "char \<Rightarrow> int option" where
  "hex_value c = (let n = of_char c :: int in
     if 48 \<le> n \<and> n \<le> 57 then Some (n - 48)
     else if 97 \<le> n \<and> n \<le> 102 then Some (n - 87)
     else if 65 \<le> n \<and> n \<le> 70 then Some (n - 55)
     else None)"

fun hex_digits :: "int \<Rightarrow> string \<Rightarrow> int option" where
  "hex_digits acc [] = Some acc"
| "hex_digits acc (c # cs) =
     (if c = CHR ''_''
      then (case cs of [] \<Rightarrow> None
            | d # ds \<Rightarrow> (case hex_value d of None \<Rightarrow> None | Some v \<Rightarrow> hex_digits (16 * acc + v) ds))
      else (case hex_value c of None \<Rightarrow> None | Some v \<Rightarrow> hex_digits (16 * acc + v) cs))"

definition int_base16 :: "string \<Rightarrow> int option" where
  "int_base16 s =
     (let t = strip_chars py_space s;
          u = (case t of c # cs \<Rightarrow> if c = CHR ''+'' then cs else t | [] \<Rightarrow> t);
          v = (case u of c # d # cs \<Rightarrow>
                 if c = CHR ''0'' \<and> (d = CHR ''x'' \<or> d = CHR ''X'') then
                   (case cs of e # es \<Rightarrow> if e = CHR ''_'' then es else cs | [] \<Rightarrow> [])
                 else u | _ \<Rightarrow> u)
      in case v of [] \<Rightarrow> None
         | c # cs \<Rightarrow> (case hex_value c of None \<Rightarrow> None | Some h \<Rightarrow> hex_digits h cs))"

fun remove_sub :: "string \<Rightarrow> string \<Rightarrow> string" where
  "remove_sub p [] = []"
| "remove_sub p (c # cs) =
     (if p \<noteq> [] \<and> take (length p) (c # cs) = p then remove_sub p (drop (length p - 1) cs)
      else c # remove_sub p cs)"

definition hex_char :: "int \<Rightarrow> char" where
  "hex_char n = (if n < 10 then char_of (48 + n) else char_of (87 + n))"

fun hex_text :: "nat \<Rightarrow> int \<Rightarrow> string" where
  "hex_text 0 n = []"
| "hex_text (Suc k) n = hex_text k (n div 16) @ [hex_char (n mod 16)]"

definition dashed :: "string \<Rightarrow> string" where
  "dashed h = take 8 h @ ''-'' @ take 4 (drop 8 h) @ ''-'' @ take 4 (drop 12 h) @ ''-'' @
     take 4 (drop 16 h) @ ''-'' @ drop 20 h"

definition parse_uuid :: "string \<Rightarrow> string option" where
  "parse_uuid s =
     (let h = filter (\<lambda>c. c \<noteq> CHR ''-'')
                (strip_chars [CHR ''{'', CHR ''}''] (remove_sub ''uuid:'' (remove_sub ''urn:'' s)))
      in if length h \<noteq> 32 then None else map_option (\<lambda>n. dashed (hex_text 32 n)) (int_base16 h))"

definition py_str :: "pyvalue \<Rightarrow> string option" where
  "py_str v = (case v of
      PyNone \<Rightarrow> Some ''None''
    | PyBool b \<Rightarrow> Some (if b then ''True'' else ''False'')
    | PyInt i \<Rightarrow> Some (str_int i)
    | PyStr s \<Rightarrow> Some s
    | PyUuid u \<Rightarrow> Some u
    | PyObject s \<Rightarrow> Some s
    | PyAware _ \<Rightarrow> None | PyNaive \<Rightarrow> None | PyDate _ \<Rightarrow> None)"

definition client_id :: "pyvalue \<Rightarrow> string transform" where
  "client_id v =
     (case py_str v of None \<Rightarrow> Inl ''client_id must be a UUID''
      | Some s \<Rightarrow> (case parse_uuid s of None \<Rightarrow> Inl ''client_id must be a UUID'' | Some u \<Rightarrow> Inr u))"

definition WAREHOUSE_VOCABULARY :: "(string \<times> string) list" where
  "WAREHOUSE_VOCABULARY = [(''LA'', ''los_angeles''), (''ZGZ'', ''zaragoza'')]"

definition kpi_warehouse :: "pyvalue \<Rightarrow> string transform" where
  "kpi_warehouse v =
     (case v of
        PyStr s \<Rightarrow> (case map_of WAREHOUSE_VOCABULARY s of
            None \<Rightarrow> Inl ''warehouse must be one of: LA, ZGZ'' | Some w \<Rightarrow> Inr w)
      | _ \<Rightarrow> Inl ''warehouse must be one of: LA, ZGZ'')"

section \<open>Events\<close>

datatype source = Inbound | Outbound | Stockout | Discrepancy

definition source_name :: "source \<Rightarrow> string" where
  "source_name s = (case s of
      Inbound \<Rightarrow> ''inbound_order_created'' | Outbound \<Rightarrow> ''outbound_order_created''
    | Stockout \<Rightarrow> ''stock_threshold_triggered'' | Discrepancy \<Rightarrow> ''inventory_discrepancy_detected'')"

definition EVENT_SOURCES :: "source list" where
  "EVENT_SOURCES = [Inbound, Outbound, Stockout, Discrepancy]"

record event =
  ev_source :: source
  ev_id :: int
  ev_occurred_at :: instant
  ev_quantity :: "int option"
  ev_warehouse :: string
  ev_client :: string

definition quantity_for_source :: "source \<Rightarrow> (string \<times> pyvalue) list \<Rightarrow> int option transform" where
  "quantity_for_source s r =
     (case s of
        Inbound \<Rightarrow> rbind (positive_int (field r ''quantity'') ''quantity'') (\<lambda>q. Inr (Some q))
      | Outbound \<Rightarrow> rbind (positive_int (field r ''quantity'') ''quantity'') (\<lambda>q. Inr (Some q))
      | Discrepancy \<Rightarrow> rbind (nonzero_int (field r ''quantity_delta'') ''quantity_delta'') (\<lambda>q. Inr (Some q))
      | Stockout \<Rightarrow> Inr None)"

definition normalize_record :: "source \<Rightarrow> pyrecord \<Rightarrow> event transform" where
  "normalize_record s rec =
     (case rec of
        NotMapping \<Rightarrow> Inl (source_name s @ '' records must be mappings'')
      | Mapping r \<Rightarrow>
          rbind (positive_int (field r ''id'') ''id'') (\<lambda>i.
          rbind (aware_utc (field r ''occurred_at'') ''occurred_at'') (\<lambda>t.
          rbind (quantity_for_source s r) (\<lambda>q.
          rbind (kpi_warehouse (field r ''warehouse'')) (\<lambda>w.
          rbind (client_id (field r ''client_id'')) (\<lambda>c.
            Inr \<lparr>ev_source = s, ev_id = i, ev_occurred_at = t, ev_quantity = q, ev_warehouse = w,
                 ev_client = c\<rparr>))))))"

text \<open>The dictionary of the loop, by event id: a second record with the same id must be equal.\<close>

fun dedup_records :: "source \<Rightarrow> pyrecord list \<Rightarrow> (int \<times> event) list \<Rightarrow> (int \<times> event) list transform" where
  "dedup_records s [] seen = Inr seen"
| "dedup_records s (r # rs) seen =
     rbind (normalize_record s r) (\<lambda>e.
       if (case map_of seen (ev_id e) of None \<Rightarrow> False | Some prior \<Rightarrow> prior \<noteq> e)
       then Inl (''conflicting duplicate '' @ source_name s @ '' id='' @ str_int (ev_id e))
       else dedup_records s rs (AList.update (ev_id e) e seen))"

definition normalize_source :: "source \<Rightarrow> pysequence \<Rightarrow> event list transform" where
  "normalize_source s seq =
     (case seq of
        NotSequence \<Rightarrow> Inl (source_name s @ '' must be a sequence of records'')
      | Records rs \<Rightarrow> rbind (dedup_records s rs []) (\<lambda>d. Inr (sort_key ev_id (map snd d))))"

type_synonym activity = "(string \<times> pysequence) list"

definition normalize_activity :: "activity \<Rightarrow> (source \<times> event list) list transform" where
  "normalize_activity a =
     (if fst ` set a \<noteq> source_name ` set EVENT_SOURCES
      then Inl ''activity must contain exactly the four business event sources''
      else rmap (\<lambda>s. rbind (normalize_source s (coalesce (map_of a (source_name s)) NotSequence))
             (\<lambda>es. Inr (s, es))) EVENT_SOURCES)"

section \<open>Weeks\<close>

definition date_of :: "instant \<Rightarrow> date" where
  "date_of t = t div days 1"

definition isoweekday :: "date \<Rightarrow> int" where
  "isoweekday d = (d + 3) mod 7 + 1"

definition iso_week_start :: "instant \<Rightarrow> date" where
  "iso_week_start t = (let d = date_of t in d - (isoweekday d - 1))"

definition target_week :: "pyvalue \<Rightarrow> date transform" where
  "target_week v =
     (case v of
        PyDate d \<Rightarrow> if isoweekday d \<noteq> 1 then Inl ''target weeks must start on Monday'' else Inr d
      | _ \<Rightarrow> Inl ''target weeks must be date values'')"

definition midnight :: "date \<Rightarrow> instant" where
  "midnight d = d * days 1"

definition recomputable_weeks :: "pyvalue list \<Rightarrow> pyvalue \<Rightarrow> date list transform" where
  "recomputable_weeks ws reset =
     rbind (rmap target_week ws) (\<lambda>ds.
       let weeks = sort (remdups ds) in
       if reset = PyNone then Inr weeks
       else rbind (aware_utc reset ''last_reset_at'') (\<lambda>boundary.
         Inr (filter (\<lambda>w. boundary \<le> midnight w) weeks)))"

definition validate_requested_week :: "pyvalue \<Rightarrow> pyvalue \<Rightarrow> date transform" where
  "validate_requested_week w reset =
     rbind (target_week w) (\<lambda>week.
       if reset = PyNone then Inr week
       else rbind (recomputable_weeks [PyDate week] reset) (\<lambda>ok.
         if week \<notin> set ok then Inl ''week precedes last ledger reset'' else Inr week))"

definition reset_incomplete_weeks ::
  "pyvalue \<Rightarrow> pyvalue list \<Rightarrow> bool \<Rightarrow> (date \<times> string) list transform" where
  "reset_incomplete_weeks reset_at ws checkpoint_succeeded =
     rbind (aware_utc reset_at ''timestamp'') (\<lambda>t.
     rbind (rmap target_week ws) (\<lambda>ds.
       if \<not> checkpoint_succeeded
       then Inr (map (\<lambda>w. (w, ''reset_checkpoint_failed'')) (sort (remdups ds)))
       else Inr [(iso_week_start t, ''ledger_reset'')]))"

definition week_is_incomplete :: "pyvalue \<Rightarrow> (date \<times> string) list \<Rightarrow> bool transform" where
  "week_is_incomplete w incomplete = rbind (target_week w) (\<lambda>d. Inr (d \<in> fst ` set incomplete))"

section \<open>Metrics\<close>

definition compute_inbound_volume :: "pysequence \<Rightarrow> int transform" where
  "compute_inbound_volume rs =
     rbind (normalize_source Inbound rs) (\<lambda>es. Inr (sum_list (map (\<lambda>e. coalesce (ev_quantity e) 0) es)))"

definition compute_outbound_throughput :: "pysequence \<Rightarrow> int transform" where
  "compute_outbound_throughput rs = rbind (normalize_source Outbound rs) (\<lambda>es. Inr (int (length es)))"

definition compute_stockout_frequency :: "pysequence \<Rightarrow> int transform" where
  "compute_stockout_frequency rs = rbind (normalize_source Stockout rs) (\<lambda>es. Inr (int (length es)))"

text \<open>
  A \<open>Decimal\<close> is a coefficient and a number of decimal places. Division in the default context
  keeps 28 significant digits, rounds half to even, and drops trailing zeros of an exact quotient.
\<close>

type_synonym decimal = "int \<times> nat"

function quotient_scale :: "int \<Rightarrow> int \<Rightarrow> nat \<Rightarrow> nat" where
  "quotient_scale a b k =
     (if a \<le> 0 \<or> 10 ^ 27 * b \<le> a * 10 ^ k then k else quotient_scale a b (Suc k))"
  by pat_completeness auto
termination
proof (relation "measure (\<lambda>(a, b, k). nat (10 ^ 27 * b - a * 10 ^ k))")
  fix a b :: int and k :: nat
  assume "\<not> (a \<le> 0 \<or> 10 ^ 27 * b \<le> a * 10 ^ k)"
  then show "((a, b, Suc k), a, b, k) \<in> measure (\<lambda>(a, b, k). nat (10 ^ 27 * b - a * 10 ^ k))"
    by simp
qed simp

declare quotient_scale.simps [simp del]

definition div_half_even :: "int \<Rightarrow> int \<Rightarrow> int" where
  "div_half_even n m =
     (let q = n div m; r = n mod m in
      if 2 * r < m then q else if m < 2 * r then q + 1 else if even q then q else q + 1)"

fun strip_zeros :: "int \<Rightarrow> nat \<Rightarrow> decimal" where
  "strip_zeros c 0 = (c, 0)"
| "strip_zeros c (Suc k) = (if c mod 10 = 0 then strip_zeros (c div 10) k else (c, Suc k))"

definition decimal_div :: "int \<Rightarrow> int \<Rightarrow> decimal" where
  "decimal_div a b =
     (if a = 0 then (0, 0)
      else let k = quotient_scale a b 0; c = div_half_even (a * 10 ^ k) b in
        if (a * 10 ^ k) mod b = 0 then strip_zeros c k else (c, k))"

definition compute_discrepancy_rate :: "int \<Rightarrow> int \<Rightarrow> decimal transform" where
  "compute_discrepancy_rate n m =
     (if n < 0 then Inl ''discrepancy_count must be a non-negative integer''
      else if m < 0 then Inl ''outbound_orders_count must be a non-negative integer''
      else if m < n then Inl ''discrepancy events cannot exceed outbound orders''
      else if m = 0 then Inr (0, 0)
      else Inr (decimal_div n m))"

section \<open>The weekly grid\<close>

datatype pair_input = Pair pyvalue pyvalue | NotPair

definition dimension_pair :: "pair_input \<Rightarrow> (string \<times> string) transform" where
  "dimension_pair p =
     (case p of
        NotPair \<Rightarrow> Inl ''SKU dimensions must be (warehouse, client_id) pairs''
      | Pair w c \<Rightarrow> rbind (kpi_warehouse w) (\<lambda>w'. rbind (client_id c) (\<lambda>c'. Inr (w', c'))))"

definition dimension_pairs :: "pair_input list \<Rightarrow> (string \<times> string) list transform" where
  "dimension_pairs ps = rbind (rmap dimension_pair ps) (\<lambda>qs. Inr (sort (remdups qs)))"

type_synonym grid_key = "date \<times> string \<times> string"

record weekly_row =
  wr_warehouse :: string
  wr_client :: string
  wr_week :: date
  wr_inbound_units :: int
  wr_outbound_orders :: int
  wr_stockouts :: int
  wr_discrepancies :: int
  wr_rate :: decimal

type_synonym counters = "grid_key \<times> source \<Rightarrow> int"

definition event_key :: "event \<Rightarrow> grid_key" where
  "event_key e = (iso_week_start (ev_occurred_at e), ev_warehouse e, ev_client e)"

definition event_weight :: "source \<Rightarrow> event \<Rightarrow> int" where
  "event_weight s e = (if s = Inbound then coalesce (ev_quantity e) 0 else 1)"

fun count_events ::
  "(string \<times> string) set \<Rightarrow> date set \<Rightarrow> source \<Rightarrow> event list \<Rightarrow> counters \<Rightarrow> counters transform" where
  "count_events pairs weeks s [] c = Inr c"
| "count_events pairs weeks s (e # es) c =
     (if (ev_warehouse e, ev_client e) \<notin> pairs
      then Inl ''activity references a warehouse/client pair without a SKU''
      else if iso_week_start (ev_occurred_at e) \<notin> weeks then count_events pairs weeks s es c
      else count_events pairs weeks s es
             (c((event_key e, s) := c (event_key e, s) + event_weight s e)))"

fun count_sources ::
  "(string \<times> string) set \<Rightarrow> date set \<Rightarrow> (source \<times> event list) list \<Rightarrow> counters \<Rightarrow> counters transform" where
  "count_sources pairs weeks [] c = Inr c"
| "count_sources pairs weeks ((s, es) # rest) c =
     rbind (count_events pairs weeks s es c) (\<lambda>c'. count_sources pairs weeks rest c')"

definition weekly_row_of :: "counters \<Rightarrow> grid_key \<Rightarrow> weekly_row transform" where
  "weekly_row_of c k =
     (case k of (week, w, cl) \<Rightarrow>
        rbind (compute_discrepancy_rate (c (k, Discrepancy)) (c (k, Outbound))) (\<lambda>rate.
          Inr \<lparr>wr_warehouse = w, wr_client = cl, wr_week = week, wr_inbound_units = c (k, Inbound),
               wr_outbound_orders = c (k, Outbound), wr_stockouts = c (k, Stockout),
               wr_discrepancies = c (k, Discrepancy), wr_rate = rate\<rparr>))"

definition grid_keys :: "date list \<Rightarrow> (string \<times> string) list \<Rightarrow> grid_key list" where
  "grid_keys weeks pairs = concat (map (\<lambda>w. map (\<lambda>p. (w, p)) pairs) weeks)"

definition assemble_weekly_rows ::
  "activity \<Rightarrow> pair_input list \<Rightarrow> pyvalue list \<Rightarrow> pyvalue \<Rightarrow> weekly_row list transform" where
  "assemble_weekly_rows a sku_pairs target_weeks reset =
     rbind (normalize_activity a) (\<lambda>normalized.
     rbind (dimension_pairs sku_pairs) (\<lambda>pairs.
     rbind (recomputable_weeks target_weeks reset) (\<lambda>weeks.
     rbind (count_sources (set pairs) (set weeks) normalized (\<lambda>_. 0)) (\<lambda>c.
       rmap (weekly_row_of c) (sort (grid_keys weeks pairs))))))"

section \<open>Normalization depends only on the set of records\<close>

definition consistent_ids :: "event set \<Rightarrow> bool" where
  "consistent_ids E \<longleftrightarrow> (\<forall>e\<in>E. \<forall>e'\<in>E. ev_id e = ev_id e' \<longrightarrow> e = e')"

definition keyed :: "(int \<times> event) list \<Rightarrow> bool" where
  "keyed d \<longleftrightarrow> distinct (map fst d) \<and> (\<forall>(k, e)\<in>set d. k = ev_id e)"

lemma keyed_consistent:
  assumes "keyed d"
  shows "consistent_ids (snd ` set d)"
  unfolding consistent_ids_def
proof (intro ballI impI)
  fix e e'
  assume "e \<in> snd ` set d" "e' \<in> snd ` set d" and same: "ev_id e = ev_id e'"
  then obtain k k' where kk: "(k, e) \<in> set d" "(k', e') \<in> set d" by fastforce
  moreover have "k = ev_id e" "k' = ev_id e'"
    using assms bspec [OF _ kk(1)] bspec [OF _ kk(2)] unfolding keyed_def by blast+
  ultimately have m: "(ev_id e, e) \<in> set d" "(ev_id e', e') \<in> set d" by simp_all
  have d: "distinct (map fst d)" using assms unfolding keyed_def by blast
  have "Some e = map_of d (ev_id e)" by (rule map_of_is_SomeI [OF d m(1), symmetric])
  also have "\<dots> = map_of d (ev_id e')" by (simp only: same)
  also have "\<dots> = Some e'" by (rule map_of_is_SomeI [OF d m(2)])
  finally show "e = e'" by simp
qed

lemma keyed_ids: "keyed d \<Longrightarrow> map ev_id (map snd d) = map fst d"
  by (auto simp: keyed_def)

lemma update_fresh: "map_of d k = None \<Longrightarrow> AList.update k v d = d @ [(k, v)]"
  by (induction d) (auto split: if_splits)

lemma keyed_insert:
  assumes "keyed d" and "map_of d (ev_id e) = None \<or> map_of d (ev_id e) = Some e"
  shows "keyed (AList.update (ev_id e) e d) \<and>
    snd ` set (AList.update (ev_id e) e d) = insert e (snd ` set d)"
  using assms(2)
proof
  assume none: "map_of d (ev_id e) = None"
  then have "ev_id e \<notin> fst ` set d" by (simp add: map_of_eq_None_iff)
  with assms(1) none show ?thesis by (auto simp: update_fresh keyed_def)
next
  assume some: "map_of d (ev_id e) = Some e"
  then have "e \<in> snd ` set d" by (force dest: map_of_SomeD)
  with assms(1) some show ?thesis by (simp add: update_triv insert_absorb)
qed

lemma dedup_sound:
  "dedup_records s rs seen = Inr d \<Longrightarrow> keyed seen \<Longrightarrow>
   \<exists>es. map (normalize_record s) rs = map Inr es \<and> keyed d \<and> snd ` set d = set es \<union> snd ` set seen"
proof (induction rs arbitrary: seen)
  case (Cons r rs)
  then obtain e where e: "normalize_record s r = Inr e"
      "map_of seen (ev_id e) = None \<or> map_of seen (ev_id e) = Some e"
    and rest: "dedup_records s rs (AList.update (ev_id e) e seen) = Inr d"
    by (auto simp: rbind_Inr_iff split: if_splits option.splits)
  note ins = keyed_insert [OF Cons.prems(2) e(2)]
  from Cons.IH [OF rest] ins obtain es where
    "map (normalize_record s) rs = map Inr es" "keyed d" "snd ` set d = set es \<union> insert e (snd ` set seen)"
    by auto
  with e(1) show ?case by (intro exI [of _ "e # es"]) auto
qed simp

lemma dedup_complete:
  "map (normalize_record s) rs = map Inr es \<Longrightarrow> keyed seen \<Longrightarrow>
   consistent_ids (set es \<union> snd ` set seen) \<Longrightarrow> \<exists>d. dedup_records s rs seen = Inr d"
proof (induction rs arbitrary: seen es)
  case (Cons r rs)
  then obtain e es' where es: "es = e # es'" "normalize_record s r = Inr e"
    "map (normalize_record s) rs = map Inr es'" by auto
  have look: "map_of seen (ev_id e) = None \<or> map_of seen (ev_id e) = Some e"
  proof (cases "map_of seen (ev_id e)")
    case (Some p)
    then have "p \<in> snd ` set seen" "ev_id p = ev_id e"
      using Cons.prems(2) by (force simp: keyed_def dest: map_of_SomeD)+
    with Cons.prems(3) es(1) Some show ?thesis by (auto simp: consistent_ids_def)
  qed simp
  note ins = keyed_insert [OF Cons.prems(2) look]
  have "consistent_ids (set es' \<union> snd ` set (AList.update (ev_id e) e seen))"
    using Cons.prems(3) es(1) ins by (auto simp: consistent_ids_def)
  with Cons.IH [OF es(3)] ins obtain d where
    "dedup_records s rs (AList.update (ev_id e) e seen) = Inr d" by blast
  with es(2) look show ?case by (auto split: option.splits)
qed simp

lemma sorted_by_id_unique:
  assumes "distinct (map ev_id xs)" "sorted (map ev_id xs)" "distinct (map ev_id ys)"
    "sorted (map ev_id ys)" "set xs = set ys"
  shows "xs = ys"
proof -
  have "map ev_id xs = map ev_id ys"
    by (rule sorted_distinct_set_unique) (use assms in simp_all)
  moreover have "inj_on ev_id (set xs \<union> set ys)"
    using assms(1,5) by (simp add: distinct_map)
  ultimately show ?thesis using inj_on_map_eq_map by blast
qed

lemma normalize_source_Inr:
  "normalize_source s (Records rs) = Inr evs \<longleftrightarrow>
     (\<exists>es. map (normalize_record s) rs = map Inr es \<and> consistent_ids (set es) \<and>
       set evs = set es \<and> sorted (map ev_id evs) \<and> distinct (map ev_id evs))"
  (is "?L \<longleftrightarrow> ?R")
proof
  assume ?L
  then obtain d where d: "dedup_records s rs [] = Inr d" "evs = sort_key ev_id (map snd d)"
    by (auto simp: normalize_source_def rbind_Inr_iff)
  from dedup_sound [OF d(1)] obtain es where es: "map (normalize_record s) rs = map Inr es"
    "keyed d" "snd ` set d = set es" by (auto simp: keyed_def)
  have "distinct (map ev_id (map snd d))"
    unfolding keyed_ids [OF es(2)] using es(2) by (simp add: keyed_def)
  then have "distinct (map ev_id evs)"
    unfolding d(2) by (rule distinct_map_sort_key)
  moreover have "consistent_ids (set es)" using keyed_consistent [OF es(2)] es(3) by simp
  ultimately show ?R using es d(2) by auto
next
  assume ?R
  then obtain es where es: "map (normalize_record s) rs = map Inr es" "consistent_ids (set es)"
    "set evs = set es" "sorted (map ev_id evs)" "distinct (map ev_id evs)" by auto
  obtain d where d: "dedup_records s rs [] = Inr d"
    using dedup_complete [OF es(1), of "[]"] es(2) by (auto simp: keyed_def)
  from dedup_sound [OF d] es(1) have d': "keyed d" "snd ` set d = set es"
    by (auto simp: keyed_def inj_map_eq_map)
  let ?x = "sort_key ev_id (map snd d)"
  have "distinct (map ev_id (map snd d))"
    unfolding keyed_ids [OF d'(1)] using d'(1) by (simp add: keyed_def)
  then have "distinct (map ev_id ?x)" by (rule distinct_map_sort_key)
  then have "?x = evs"
    by (rule sorted_by_id_unique) (use es d'(2) in simp_all)
  with d show ?L by (simp add: normalize_source_def)
qed

section \<open>Counting\<close>

lemma count_events_Inr:
  "count_events pairs weeks s es c = Inr c' \<Longrightarrow>
   (\<forall>e\<in>set es. (ev_warehouse e, ev_client e) \<in> pairs) \<and>
   c' (k, s') = c (k, s') +
     (if s' = s then sum_where (\<lambda>e. event_key e = k \<and> fst k \<in> weeks) (event_weight s) es else 0)"
proof (induction es arbitrary: c)
  case (Cons e es)
  have wk: "iso_week_start (ev_occurred_at e) = fst (event_key e)" by (simp add: event_key_def)
  show ?case
  proof (cases "iso_week_start (ev_occurred_at e) \<in> weeks")
    case True
    with Cons.prems have
      "count_events pairs weeks s es (c((event_key e, s) := c (event_key e, s) + event_weight s e)) = Inr c'"
      "(ev_warehouse e, ev_client e) \<in> pairs"
      by (auto split: if_splits)
    with Cons.IH [OF this(1)] True wk show ?thesis by auto
  next
    case False
    with Cons.prems have "count_events pairs weeks s es c = Inr c'" "(ev_warehouse e, ev_client e) \<in> pairs"
      by (auto split: if_splits)
    with Cons.IH [OF this(1)] False wk show ?thesis by auto
  qed
qed simp

lemma count_sources_Inr:
  "count_sources pairs weeks nm c = Inr c' \<Longrightarrow> distinct (map fst nm) \<Longrightarrow>
   (\<forall>(s, es)\<in>set nm. \<forall>e\<in>set es. (ev_warehouse e, ev_client e) \<in> pairs) \<and>
   c' (k, s') = c (k, s') +
     (case map_of nm s' of None \<Rightarrow> 0
      | Some es \<Rightarrow> sum_where (\<lambda>e. event_key e = k \<and> fst k \<in> weeks) (event_weight s') es)"
proof (induction nm arbitrary: c)
  case (Cons x nm)
  obtain s es where x: "x = (s, es)" by force
  from Cons.prems(1) obtain c1 where c1: "count_events pairs weeks s es c = Inr c1"
    and rest: "count_sources pairs weeks nm c1 = Inr c'" by (auto simp: x rbind_Inr_iff)
  have "map_of nm s = None" using Cons.prems(2) by (auto simp: x map_of_eq_None_iff)
  with Cons.IH [OF rest] Cons.prems(2) count_events_Inr [OF c1, of k s'] show ?case
    by (auto simp: x split: if_splits)
qed simp

lemma normalize_activity_Inr:
  assumes "normalize_activity a = Inr nm"
  shows "map fst nm = EVENT_SOURCES"
    and "\<And>s es. (s, es) \<in> set nm \<Longrightarrow>
      normalize_source s (coalesce (map_of a (source_name s)) NotSequence) = Inr es"
proof -
  have m: "map (\<lambda>s. rbind (normalize_source s (coalesce (map_of a (source_name s)) NotSequence))
             (\<lambda>es. Inr (s, es))) EVENT_SOURCES = map Inr nm"
    using assms by (simp add: normalize_activity_def rmap_Inr_iff split: if_splits)
  have len: "length nm = length EVENT_SOURCES" using arg_cong [OF m, of length] by simp
  have nth: "\<exists>es. nm ! i = (EVENT_SOURCES ! i, es) \<and>
      normalize_source (EVENT_SOURCES ! i) (coalesce (map_of a (source_name (EVENT_SOURCES ! i))) NotSequence) = Inr es"
    if "i < length nm" for i
    using arg_cong [OF m, of "\<lambda>xs. xs ! i"] that len by (auto simp: rbind_Inr_iff)
  show "map fst nm = EVENT_SOURCES"
    using len nth by (intro nth_equalityI) force+
  show "normalize_source s (coalesce (map_of a (source_name s)) NotSequence) = Inr es"
    if "(s, es) \<in> set nm" for s es
    using that nth by (metis in_set_conv_nth prod.inject)
qed

lemma EVENT_SOURCES_all: "set EVENT_SOURCES = UNIV" "distinct EVENT_SOURCES"
proof -
  show "set EVENT_SOURCES = UNIV"
    using source.exhaust by (auto simp: EVENT_SOURCES_def)
  show "distinct EVENT_SOURCES" by (simp add: EVENT_SOURCES_def)
qed

lemma set_grid_keys: "set (grid_keys weeks pairs) = set weeks \<times> set pairs"
  by (auto simp: grid_keys_def)

lemma distinct_grid_keys: "distinct weeks \<Longrightarrow> distinct pairs \<Longrightarrow> distinct (grid_keys weeks pairs)"
  unfolding grid_keys_def
  by (induction weeks) (auto simp: distinct_map inj_on_def)

lemma recomputable_weeks_Inr:
  assumes "recomputable_weeks ws reset = Inr weeks"
  shows "sorted weeks" and "distinct weeks"
    and "w \<in> set weeks \<longleftrightarrow> PyDate w \<in> set ws \<and> isoweekday w = 1 \<and>
      (\<forall>t. reset = PyAware t \<longrightarrow> t \<le> midnight w)"
    and "reset = PyNone \<or> (\<exists>t. reset = PyAware t)"
proof -
  obtain ds where ds: "map target_week ws = map Inr ds"
    and w: "if reset = PyNone then weeks = sort (remdups ds) else
      (\<exists>b. aware_utc reset ''last_reset_at'' = Inr b \<and>
         weeks = filter (\<lambda>w. b \<le> midnight w) (sort (remdups ds)))"
    using assms by (auto simp: recomputable_weeks_def rbind_Inr_iff rmap_Inr_iff Let_def split: if_splits)
  show "sorted weeks" "distinct weeks" using w by (auto split: if_splits intro: sorted_filter [of "\<lambda>x. x", simplified])
  have tw: "target_week v = Inr d \<longleftrightarrow> v = PyDate d \<and> isoweekday d = 1" for v d
    by (cases v) (auto simp: target_week_def)
  have dset: "d \<in> set ds \<longleftrightarrow> PyDate d \<in> set ws \<and> isoweekday d = 1" for d
  proof
    assume "d \<in> set ds"
    then have "Inr d \<in> set (map target_week ws)" using ds by simp
    then show "PyDate d \<in> set ws \<and> isoweekday d = 1" by (auto simp: tw dest!: sym [of "Inr d"])
  next
    assume "PyDate d \<in> set ws \<and> isoweekday d = 1"
    then have "Inr d \<in> set (map target_week ws)" using tw by (metis image_eqI set_map)
    then show "d \<in> set ds" unfolding ds by auto
  qed
  show "reset = PyNone \<or> (\<exists>t. reset = PyAware t)"
    using w by (cases reset) (auto simp: aware_utc_def)
  show "w \<in> set weeks \<longleftrightarrow> PyDate w \<in> set ws \<and> isoweekday w = 1 \<and>
      (\<forall>t. reset = PyAware t \<longrightarrow> t \<le> midnight w)"
    using w dset by (cases reset) (auto simp: aware_utc_def)
qed

section \<open>The assembled rows\<close>

definition source_events :: "activity \<Rightarrow> source \<Rightarrow> event list transform" where
  "source_events a s = normalize_source s (coalesce (map_of a (source_name s)) NotSequence)"

definition row_key :: "weekly_row \<Rightarrow> grid_key" where
  "row_key r = (wr_week r, wr_warehouse r, wr_client r)"

definition row_count :: "source \<Rightarrow> weekly_row \<Rightarrow> int" where
  "row_count s r = (case s of Inbound \<Rightarrow> wr_inbound_units r | Outbound \<Rightarrow> wr_outbound_orders r
     | Stockout \<Rightarrow> wr_stockouts r | Discrepancy \<Rightarrow> wr_discrepancies r)"

lemma weekly_row_of_Inr:
  assumes "weekly_row_of c k = Inr r"
  shows "row_key r = k" and "row_count s r = c (k, s)"
    and "compute_discrepancy_rate (wr_discrepancies r) (wr_outbound_orders r) = Inr (wr_rate r)"
  using assms
  by (auto simp: weekly_row_of_def row_key_def row_count_def rbind_Inr_iff split: prod.splits source.splits)

lemma assemble_Inr:
  assumes "assemble_weekly_rows a ps ws reset = Inr rows"
  shows "\<exists>pairs weeks evs. dimension_pairs ps = Inr pairs \<and> recomputable_weeks ws reset = Inr weeks \<and>
    (\<forall>s. source_events a s = Inr (evs s)) \<and>
    (\<forall>s. \<forall>e\<in>set (evs s). (ev_warehouse e, ev_client e) \<in> set pairs) \<and>
    map row_key rows = sort (grid_keys weeks pairs) \<and>
    (\<forall>r\<in>set rows. (\<forall>s. row_count s r =
         sum_where (\<lambda>e. event_key e = row_key r) (event_weight s) (evs s)) \<and>
       compute_discrepancy_rate (wr_discrepancies r) (wr_outbound_orders r) = Inr (wr_rate r))"
proof -
  obtain nm pairs weeks c where nm: "normalize_activity a = Inr nm" and pairs: "dimension_pairs ps = Inr pairs"
    and weeks: "recomputable_weeks ws reset = Inr weeks"
    and c: "count_sources (set pairs) (set weeks) nm (\<lambda>_. 0) = Inr c"
    and rows: "map (weekly_row_of c) (sort (grid_keys weeks pairs)) = map Inr rows"
    using assms by (auto simp: assemble_weekly_rows_def rbind_Inr_iff rmap_Inr_iff)
  note norm = normalize_activity_Inr [OF nm]
  have dist: "distinct (map fst nm)" using norm(1) EVENT_SOURCES_all(2) by simp
  define evs where "evs s = the (map_of nm s)" for s
  have evs: "map_of nm s = Some (evs s)" for s
  proof -
    have "s \<in> fst ` set nm"
      using norm(1) EVENT_SOURCES_all(1) by (metis UNIV_I list.set_map)
    then show ?thesis by (auto simp: evs_def dest: weak_map_of_SomeI)
  qed
  have src: "source_events a s = Inr (evs s)" for s
    using norm(2) [OF map_of_SomeD [OF evs]] by (simp add: source_events_def)
  note counted = count_sources_Inr [OF c dist]
  have valid: "(ev_warehouse e, ev_client e) \<in> set pairs" if "e \<in> set (evs s)" for e s
    using counted map_of_SomeD [OF evs [of s]] that by blast
  have cnt: "c (k, s) = sum_where (\<lambda>e. event_key e = k \<and> fst k \<in> set weeks) (event_weight s) (evs s)" for k s
    using counted [of k s] evs [of s] by simp
  have nth: "weekly_row_of c (sort (grid_keys weeks pairs) ! i) = Inr (rows ! i)" if "i < length rows" for i
    using arg_cong [OF rows, of "\<lambda>xs. xs ! i"] arg_cong [OF rows, of length] that by simp
  have len: "length rows = length (sort (grid_keys weeks pairs))"
    using arg_cong [OF rows, of length] by (simp only: length_map)
  have keys: "map row_key rows = sort (grid_keys weeks pairs)"
  proof (rule nth_equalityI)
    show "length (map row_key rows) = length (sort (grid_keys weeks pairs))" by (simp only: len length_map)
    show "map row_key rows ! i = sort (grid_keys weeks pairs) ! i" if "i < length (map row_key rows)" for i
      using that by (simp only: length_map nth_map weekly_row_of_Inr(1) [OF nth])
  qed
  have "(\<forall>s. row_count s r = sum_where (\<lambda>e. event_key e = row_key r) (event_weight s) (evs s)) \<and>
       compute_discrepancy_rate (wr_discrepancies r) (wr_outbound_orders r) = Inr (wr_rate r)"
    if "r \<in> set rows" for r
  proof -
    from in_set_conv_nth [THEN iffD1, OF that] obtain i where "i < length rows \<and> rows ! i = r" ..
    then have i: "i < length rows" "r = rows ! i" by simp_all
    have "row_key r \<in> set (map row_key rows)" using that by simp
    then have "row_key r \<in> set (sort (grid_keys weeks pairs))" unfolding keys .
    then have wk: "fst (row_key r) \<in> set weeks" by (auto simp: set_grid_keys)
    have k: "sort (grid_keys weeks pairs) ! i = row_key r"
      using weekly_row_of_Inr(1) [OF nth [OF i(1)]] i(2) by simp
    note w = nth [OF i(1), folded i(2), unfolded k]
    show ?thesis
      using weekly_row_of_Inr(2,3) [OF w] cnt wk by (auto intro!: sum_where_cong)
  qed
  with pairs weeks src valid keys show ?thesis by blast
qed

lemma sum_where_partition:
  assumes "finite K"
  shows "(\<Sum>k\<in>K. sum_where (\<lambda>e. f e = k) q xs) = sum_where (\<lambda>e. f e \<in> K) q xs"
proof (induction xs)
  case (Cons x xs)
  have "sum_where (\<lambda>e. f e = k) q (x # xs) = (if f x = k then q x else 0) + sum_where (\<lambda>e. f e = k) q xs" for k
    by simp
  then show ?case
    using assms Cons.IH by (simp only: sum.distrib) simp
qed simp

section \<open>Properties\<close>

text \<open>C38: normalization is insensitive to the order and the repetition of records. Two batches with
  the same set of records give the same events, sorted strictly by id.\<close>

theorem normalize_order_free:
  assumes "normalize_source s (Records rs) = Inr evs" and "set rs' = set rs"
  shows "normalize_source s (Records rs') = Inr evs \<and> sorted (map ev_id evs) \<and> distinct (map ev_id evs)"
proof -
  from assms(1) obtain es where es: "map (normalize_record s) rs = map Inr es" "consistent_ids (set es)"
    "set evs = set es" "sorted (map ev_id evs)" "distinct (map ev_id evs)"
    by (auto simp: normalize_source_Inr)
  have Inr_all: "\<exists>e. normalize_record s r = Inr e" if "r \<in> set rs'" for r
  proof -
    have "normalize_record s r \<in> set (map (normalize_record s) rs)" using that assms(2) by simp
    then show ?thesis unfolding es(1) by auto
  qed
  define es' where "es' = map (\<lambda>r. projr (normalize_record s r)) rs'"
  have es': "map (normalize_record s) rs' = map Inr es'"
    using Inr_all by (auto simp: es'_def) (metis sum.sel(2))
  have "map projr (map (normalize_record s) rs) = es"
    unfolding es(1) by (simp add: comp_def)
  then have "set es = (\<lambda>r. projr (normalize_record s r)) ` set rs"
    by (metis image_image set_map)
  then have "set es' = set es" by (simp add: es'_def assms(2))
  with es es' show ?thesis by (auto simp: normalize_source_Inr)
qed

definition example_record :: "int \<Rightarrow> pyrecord" where
  "example_record i = Mapping [(''id'', PyInt i), (''occurred_at'', PyAware (midnight 20000)),
     (''quantity'', PyInt 5), (''warehouse'', PyStr ''LA''),
     (''client_id'', PyStr ''{0F8FAD5B-D9CB-469F-A165-70867728950E}'')]"

definition example_event :: "int \<Rightarrow> event" where
  "example_event i = \<lparr>ev_source = Inbound, ev_id = i, ev_occurred_at = midnight 20000,
     ev_quantity = Some 5, ev_warehouse = ''los_angeles'',
     ev_client = ''0f8fad5b-d9cb-469f-a165-70867728950e''\<rparr>"

lemma example_normalized: "0 < i \<Longrightarrow> normalize_record Inbound (example_record i) = Inr (example_event i)"
proof -
  have "parse_uuid ''{0F8FAD5B-D9CB-469F-A165-70867728950E}'' = Some ''0f8fad5b-d9cb-469f-a165-70867728950e''"
    by code_simp
  then show "0 < i \<Longrightarrow> ?thesis"
    by (simp add: normalize_record_def example_record_def example_event_def field_def positive_int_def
        aware_utc_def quantity_for_source_def kpi_warehouse_def WAREHOUSE_VOCABULARY_def client_id_def
        py_str_def)
qed

lemma example_source: "normalize_source Inbound (Records [example_record 2, example_record 1]) =
  Inr [example_event 1, example_event 2]"
  by (simp add: normalize_source_Inr) 
    (auto simp: example_normalized consistent_ids_def example_event_def intro!: exI [of _ "[example_event 2, example_event 1]"])

theorem normalize_order_free_witness:
  "normalize_source Inbound (Records [example_record 1, example_record 2, example_record 1]) =
    Inr [example_event 1, example_event 2]"
  using normalize_order_free [OF example_source, of "[example_record 1, example_record 2, example_record 1]"]
  by auto

text \<open>C29: the weekly rows are the dense grid with the right counts. When \<open>assemble_weekly_rows\<close>
  returns, the rows are exactly the pairs of a recomputable week and a SKU dimension, once each and
  sorted by week, warehouse and client, and in each row the four columns are the sum of quantities
  and the numbers of the (deduplicated) events of that week, warehouse and client.\<close>

theorem weekly_rows_count_events:
  assumes "assemble_weekly_rows a ps ws reset = Inr rows"
  shows "\<exists>pairs weeks evs. dimension_pairs ps = Inr pairs \<and> recomputable_weeks ws reset = Inr weeks \<and>
    (\<forall>s. source_events a s = Inr (evs s)) \<and>
    set (map row_key rows) = set weeks \<times> set pairs \<and>
    sorted (map row_key rows) \<and> distinct (map row_key rows) \<and>
    (\<forall>r\<in>set rows.
       wr_inbound_units r =
         (\<Sum>e\<leftarrow>filter (\<lambda>e. event_key e = row_key r) (evs Inbound). coalesce (ev_quantity e) 0) \<and>
       wr_outbound_orders r = int (length (filter (\<lambda>e. event_key e = row_key r) (evs Outbound))) \<and>
       wr_stockouts r = int (length (filter (\<lambda>e. event_key e = row_key r) (evs Stockout))) \<and>
       wr_discrepancies r = int (length (filter (\<lambda>e. event_key e = row_key r) (evs Discrepancy))) \<and>
       wr_discrepancies r \<le> wr_outbound_orders r)"
proof -
  from assemble_Inr [OF assms] obtain pairs weeks evs where
    pairs: "dimension_pairs ps = Inr pairs" and weeks: "recomputable_weeks ws reset = Inr weeks" and
    evs: "\<forall>s. source_events a s = Inr (evs s)" and keys: "map row_key rows = sort (grid_keys weeks pairs)" and
    counts: "\<forall>r\<in>set rows. (\<forall>s. row_count s r =
         sum_where (\<lambda>e. event_key e = row_key r) (event_weight s) (evs s)) \<and>
       compute_discrepancy_rate (wr_discrepancies r) (wr_outbound_orders r) = Inr (wr_rate r)"
    by blast
  have dp: "distinct pairs" using pairs by (auto simp: dimension_pairs_def rbind_Inr_iff)
  have event_weight_Inbound: "event_weight Inbound = (\<lambda>e. coalesce (ev_quantity e) 0)"
    by (simp add: fun_eq_iff event_weight_def)
  have ones: "sum_where P (event_weight s) xs = int (length (filter P xs))" if "s \<noteq> Inbound" for P s xs
    using that by (induction xs) (auto simp: event_weight_def)
  have "wr_inbound_units r =
         (\<Sum>e\<leftarrow>filter (\<lambda>e. event_key e = row_key r) (evs Inbound). coalesce (ev_quantity e) 0) \<and>
       wr_outbound_orders r = int (length (filter (\<lambda>e. event_key e = row_key r) (evs Outbound))) \<and>
       wr_stockouts r = int (length (filter (\<lambda>e. event_key e = row_key r) (evs Stockout))) \<and>
       wr_discrepancies r = int (length (filter (\<lambda>e. event_key e = row_key r) (evs Discrepancy))) \<and>
       wr_discrepancies r \<le> wr_outbound_orders r" if "r \<in> set rows" for r
  proof -
    have c: "row_count s r = sum_where (\<lambda>e. event_key e = row_key r) (event_weight s) (evs s)" for s
      using counts that by blast
    have "compute_discrepancy_rate (wr_discrepancies r) (wr_outbound_orders r) = Inr (wr_rate r)"
      using counts that by blast
    then have "wr_discrepancies r \<le> wr_outbound_orders r"
      by (auto simp: compute_discrepancy_rate_def split: if_splits)
    with c [of Inbound] c [of Outbound] c [of Stockout] c [of Discrepancy] show ?thesis
      by (simp add: row_count_def ones) (simp add: sum_where_def event_weight_Inbound)
  qed
  moreover have "set (map row_key rows) = set weeks \<times> set pairs" "sorted (map row_key rows)"
    "distinct (map row_key rows)"
    unfolding keys using dp recomputable_weeks_Inr(2) [OF weeks]
    by (simp_all add: set_grid_keys distinct_grid_keys)
  ultimately show ?thesis using pairs weeks evs by blast
qed

definition example_activity :: activity where
  "example_activity = [(''inbound_order_created'', Records [example_record 2, example_record 1]),
     (''outbound_order_created'', Records []), (''stock_threshold_triggered'', Records []),
     (''inventory_discrepancy_detected'', Records [])]"

definition example_pair :: pair_input where
  "example_pair = Pair (PyStr ''LA'') (PyUuid ''0f8fad5b-d9cb-469f-a165-70867728950e'')"

lemma example_activity_normalized:
  "normalize_activity example_activity =
     Inr [(Inbound, [example_event 1, example_event 2]), (Outbound, []), (Stockout, []), (Discrepancy, [])]"
proof -
  have "normalize_source s (Records []) = Inr []" for s
    by (simp add: normalize_source_def)
  then show ?thesis
    by (simp add: normalize_activity_def example_activity_def EVENT_SOURCES_def source_name_def
        example_source)
qed

lemma example_event_week: "event_key (example_event i) =
    (19996, ''los_angeles'', ''0f8fad5b-d9cb-469f-a165-70867728950e'')"
  by (simp add: event_key_def example_event_def iso_week_start_def date_of_def isoweekday_def
      midnight_def days_def seconds_def)

lemma example_assembled:
  "assemble_weekly_rows example_activity [example_pair] [PyDate 19996] PyNone =
     Inr [\<lparr>wr_warehouse = ''los_angeles'', wr_client = ''0f8fad5b-d9cb-469f-a165-70867728950e'',
           wr_week = 19996, wr_inbound_units = 10, wr_outbound_orders = 0, wr_stockouts = 0,
           wr_discrepancies = 0, wr_rate = (0, 0)\<rparr>]"
proof -
  have "parse_uuid ''0f8fad5b-d9cb-469f-a165-70867728950e'' = Some ''0f8fad5b-d9cb-469f-a165-70867728950e''"
    by code_simp
  then have pairs: "dimension_pairs [example_pair] =
      Inr [(''los_angeles'', ''0f8fad5b-d9cb-469f-a165-70867728950e'')]"
    by (simp add: dimension_pairs_def dimension_pair_def example_pair_def kpi_warehouse_def
        WAREHOUSE_VOCABULARY_def client_id_def py_str_def)
  have weeks: "recomputable_weeks [PyDate 19996] PyNone = Inr [19996]"
    by (simp add: recomputable_weeks_def target_week_def isoweekday_def)
  have wk: "iso_week_start (ev_occurred_at (example_event i)) = 19996" for i
    using example_event_week [of i] by (simp add: event_key_def)
  have ev: "ev_warehouse (example_event i) = ''los_angeles''"
    "ev_client (example_event i) = ''0f8fad5b-d9cb-469f-a165-70867728950e''"
    "event_weight Inbound (example_event i) = 5" for i
    by (simp_all add: example_event_def event_weight_def)
  show ?thesis
    unfolding assemble_weekly_rows_def example_activity_normalized pairs weeks
    by (simp add: wk ev example_event_week grid_keys_def weekly_row_of_def compute_discrepancy_rate_def)
qed

theorem weekly_rows_witness:
  "\<exists>evs. source_events example_activity Inbound = Inr evs \<and> (\<Sum>e\<leftarrow>filter (\<lambda>e. event_key e =
     (19996, ''los_angeles'', ''0f8fad5b-d9cb-469f-a165-70867728950e'')) evs. coalesce (ev_quantity e) 0) = 10"
  using weekly_rows_count_events [OF example_assembled] by (auto simp: row_key_def)

text \<open>C37: no event is lost or counted twice. When the rows are assembled, every column adds up over
  all rows to its total over the events whose week is among the recomputable weeks.\<close>

theorem weekly_rows_conserve_events:
  assumes "assemble_weekly_rows a ps ws reset = Inr rows" and "source_events a s = Inr evs"
    and "recomputable_weeks ws reset = Inr weeks"
  shows "sum_list (map (row_count s) rows) =
    sum_where (\<lambda>e. iso_week_start (ev_occurred_at e) \<in> set weeks) (event_weight s) evs"
proof -
  from assemble_Inr [OF assms(1)] obtain pairs evs' where
    pairs: "dimension_pairs ps = Inr pairs" and
    evs': "source_events a s = Inr (evs' s)" and keys: "map row_key rows = sort (grid_keys weeks pairs)" and
    valid: "\<forall>e\<in>set (evs' s). (ev_warehouse e, ev_client e) \<in> set pairs" and
    counts: "\<forall>r\<in>set rows. row_count s r = sum_where (\<lambda>e. event_key e = row_key r) (event_weight s) (evs' s)"
    using assms(3) by (metis sum.inject(2))
  have evs: "evs' s = evs" using evs' assms(2) by simp
  have dp: "distinct pairs" using pairs by (auto simp: dimension_pairs_def rbind_Inr_iff)
  let ?cnt = "\<lambda>k. sum_where (\<lambda>e. event_key e = k) (event_weight s) evs"
  have "sum_list (map (row_count s) rows) = sum_list (map ?cnt (map row_key rows))"
    using counts evs by (auto simp: comp_def intro!: arg_cong [where f = sum_list])
  also have "\<dots> = (\<Sum>k\<in>set (map row_key rows). ?cnt k)"
    by (rule sum_list_distinct_conv_sum_set)
      (unfold keys, use dp recomputable_weeks_Inr(2) [OF assms(3)] in \<open>simp add: distinct_grid_keys\<close>)
  also have "\<dots> = sum_where (\<lambda>e. event_key e \<in> set (map row_key rows)) (event_weight s) evs"
    by (rule sum_where_partition) simp
  also have "set (map row_key rows) = set weeks \<times> set pairs"
    unfolding keys by (simp add: set_grid_keys)
  also have "sum_where (\<lambda>e. event_key e \<in> set weeks \<times> set pairs) (event_weight s) evs =
      sum_where (\<lambda>e. iso_week_start (ev_occurred_at e) \<in> set weeks) (event_weight s) evs"
    using valid evs by (intro sum_where_cong) (auto simp: event_key_def)
  finally show ?thesis .
qed

theorem weekly_rows_conserve_witness:
  "sum_where (\<lambda>e. iso_week_start (ev_occurred_at e) \<in> {19996}) (event_weight Inbound)
     [example_event 1, example_event 2] = 10"
proof -
  have "source_events example_activity Inbound = Inr [example_event 1, example_event 2]"
    by (simp add: source_events_def example_activity_def source_name_def example_source)
  moreover have "recomputable_weeks [PyDate 19996] PyNone = Inr [19996]"
    by (simp add: recomputable_weeks_def target_week_def isoweekday_def)
  ultimately show ?thesis
    using weekly_rows_conserve_events [OF example_assembled, of Inbound "[example_event 1, example_event 2]" "[19996]"]
    by (simp add: row_count_def)
qed

text \<open>C39: weeks. Every instant lies in exactly one ISO week, the one \<open>iso_week_start\<close> gives: it
  starts on a Monday, at most six days before; and a requested week is accepted after a ledger reset
  exactly when no instant of it precedes the reset.\<close>

theorem iso_weeks_and_resets:
  "isoweekday (iso_week_start t) = 1 \<and>
   midnight (iso_week_start t) \<le> t \<and> t < midnight (iso_week_start t + 7) \<and>
   (\<forall>w. isoweekday w = 1 \<longrightarrow> midnight w \<le> t \<longrightarrow> t < midnight (w + 7) \<longrightarrow> w = iso_week_start t) \<and>
   (validate_requested_week (PyDate w) (PyAware r) = Inr w \<longleftrightarrow>
      isoweekday w = 1 \<and> (\<forall>u. midnight w \<le> u \<and> u < midnight (w + 7) \<longrightarrow> r \<le> u))"
proof -
  let ?D = "days 1"
  have D: "?D = 86400000000" by (simp add: days_def seconds_def)
  let ?d = "date_of t"
  have t: "midnight ?d \<le> t" "t < midnight (?d + 1)"
    by (simp_all add: date_of_def midnight_def D)
  have wd: "1 \<le> isoweekday ?d" "isoweekday ?d \<le> 7" by (simp_all add: isoweekday_def)
  have mono: "midnight a \<le> midnight b \<longleftrightarrow> a \<le> b" for a b by (simp add: midnight_def D)
  have monday: "isoweekday (iso_week_start t) = 1"
    unfolding iso_week_start_def isoweekday_def Let_def by presburger
  have lo: "iso_week_start t \<le> ?d" and hi: "?d + 1 \<le> iso_week_start t + 7"
    using wd by (simp_all add: iso_week_start_def Let_def)
  have uniq: "w = iso_week_start t" if w: "isoweekday w = 1" "midnight w \<le> t" "t < midnight (w + 7)" for w
  proof -
    have "midnight w < midnight (?d + 1)" "midnight ?d < midnight (w + 7)" using w t by linarith+
    then have "w < ?d + 1" "?d < w + 7" using mono by (meson linorder_not_le)+
    with w(1) monday lo hi show ?thesis unfolding isoweekday_def by presburger
  qed
  have acc: "validate_requested_week (PyDate w) (PyAware r) = Inr w \<longleftrightarrow>
      isoweekday w = 1 \<and> r \<le> midnight w"
    by (auto simp: validate_requested_week_def target_week_def recomputable_weeks_def aware_utc_def)
  have "r \<le> midnight w \<longleftrightarrow> (\<forall>u. midnight w \<le> u \<and> u < midnight (w + 7) \<longrightarrow> r \<le> u)"
  proof
    assume "\<forall>u. midnight w \<le> u \<and> u < midnight (w + 7) \<longrightarrow> r \<le> u"
    moreover have "midnight w < midnight (w + 7)" by (simp add: midnight_def D)
    ultimately show "r \<le> midnight w" by blast
  qed auto
  with acc monday uniq t lo hi mono show ?thesis by (meson order_trans less_le_trans)
qed

theorem iso_weeks_witness:
  "iso_week_start (midnight 20000) = 19996"
proof -
  have "\<forall>w. isoweekday w = 1 \<longrightarrow> midnight w \<le> midnight 20000 \<longrightarrow> midnight 20000 < midnight (w + 7) \<longrightarrow>
      w = iso_week_start (midnight 20000)"
    using iso_weeks_and_resets [of "midnight 20000" 0 0] by blast
  from this [rule_format, of 19996] show ?thesis
    by (simp add: isoweekday_def midnight_def days_def seconds_def)
qed

section \<open>Accuracy of the rate\<close>

lemma div_half_even_close:
  assumes "0 < m"
  shows "2 * \<bar>div_half_even n m * m - n\<bar> \<le> m"
proof -
  define q r where "q = n div m" and "r = n mod m"
  have n: "n = q * m + r" and r: "0 \<le> r" "r < m"
    using assms by (simp_all add: q_def r_def)
  have "div_half_even n m = q \<and> 2 * r \<le> m \<or> div_half_even n m = q + 1 \<and> m \<le> 2 * r"
    by (auto simp: div_half_even_def Let_def q_def [symmetric] r_def [symmetric])
  with n r show ?thesis by (auto simp: algebra_simps)
qed

lemma twice_abs: "2 * \<bar>d\<bar> \<le> m \<Longrightarrow> 2 * d \<le> m \<and> - (2 * d) \<le> (m::int)"
  by (auto simp: abs_if split: if_splits)

lemma close_bounds:
  fixes x y z m :: int
  shows "2 * \<bar>x - y\<bar> \<le> m \<Longrightarrow> 0 \<le> y \<Longrightarrow> - m \<le> 2 * x"
    and "2 * \<bar>x - y\<bar> \<le> m \<Longrightarrow> y \<le> z \<Longrightarrow> 2 * x \<le> 2 * z + m"
    and "2 * \<bar>x - y\<bar> \<le> m \<Longrightarrow> z \<le> y \<Longrightarrow> 2 * z \<le> 2 * x + m"
  by (drule twice_abs, simp)+

lemma strip_zeros_value: "strip_zeros c k = (c', k') \<Longrightarrow> c' * 10 ^ k = c * 10 ^ k'"
proof (induction c k rule: strip_zeros.induct)
  case (2 c k)
  show ?case
  proof (cases "c mod 10 = 0")
    case True
    with 2 have "c' * 10 ^ k = (c div 10) * 10 ^ k'" by simp
    moreover have "c = 10 * (c div 10)" using True by presburger
    ultimately show ?thesis by (metis mult.assoc mult.commute power_Suc)
  qed (use 2 in simp)
qed simp

lemma quotient_scale_ge: "0 < a \<Longrightarrow> 10 ^ 27 * b \<le> a * 10 ^ quotient_scale a b k"
proof (induction a b k rule: quotient_scale.induct)
  case (1 a b k)
  then show ?case by (subst quotient_scale.simps) auto
qed

text \<open>The discrepancy rate is the quotient, to half a unit of its last decimal place. For counts
  \<open>0 \<le> n \<le> m\<close> with \<open>m > 0\<close> the \<open>Decimal\<close> returned is between 0 and 1, differs from \<open>n/m\<close> by at most
  half a unit in its last place, and is either exact or has at least 28 significant digits.\<close>

theorem discrepancy_rate_accurate:
  assumes "0 \<le> n" and "n \<le> m" and "0 < m"
  shows "\<exists>c k. compute_discrepancy_rate n m = Inr (c, k) \<and> 0 \<le> c \<and> c \<le> 10 ^ k \<and>
    2 * \<bar>c * m - n * 10 ^ k\<bar> \<le> m \<and> (c * m = n * 10 ^ k \<or> 10 ^ 27 \<le> c)"
proof (cases "n = 0")
  case True
  with assms show ?thesis by (auto simp: compute_discrepancy_rate_def decimal_div_def)
next
  case False
  define k where "k = quotient_scale n m 0"
  define c where "c = div_half_even (n * 10 ^ k) m"
  have close: "2 * \<bar>c * m - n * 10 ^ k\<bar> \<le> m"
    unfolding c_def by (rule div_half_even_close [OF assms(3)])
  have big: "10 ^ 27 * m \<le> n * 10 ^ k"
    unfolding k_def using False assms by (intro quotient_scale_ge) simp
  have bounds: "0 \<le> c' \<and> c' \<le> 10 ^ k'" if "2 * \<bar>c' * m - n * 10 ^ k'\<bar> \<le> m" for c' :: int and k' :: nat
  proof
    have "0 \<le> n * 10 ^ k'" using assms(1) by simp
    with that have "- m \<le> 2 * (c' * m)" by (rule close_bounds(1))
    then have "0 \<le> (2 * c' + 1) * m" by (simp add: algebra_simps)
    then have "0 \<le> 2 * c' + 1" using assms(3) by (simp add: zero_le_mult_iff)
    then show "0 \<le> c'" by presburger
    have "n * 10 ^ k' \<le> m * 10 ^ k'" using assms(2) by simp
    with that have "2 * (c' * m) \<le> 2 * (m * 10 ^ k') + m" by (rule close_bounds(2))
    then have "(2 * c') * m \<le> (2 * 10 ^ k' + 1) * m" by (simp add: algebra_simps)
    then have "2 * c' \<le> 2 * 10 ^ k' + 1" using assms(3) by (simp add: mult_le_cancel_right)
    then show "c' \<le> 10 ^ k'" by presburger
  qed
  show ?thesis
  proof (cases "(n * 10 ^ k) mod m = 0")
    case True
    then have exact: "c * m = n * 10 ^ k"
      by (simp add: c_def div_half_even_def Let_def assms(3)) (metis add.right_neutral div_mult_mod_eq)
    obtain c' k' where s: "strip_zeros c k = (c', k')" by fastforce
    have "c' * 10 ^ k * m = c * 10 ^ k' * m" using strip_zeros_value [OF s] by simp
    then have "(c' * m) * 10 ^ k = (n * 10 ^ k') * 10 ^ k"
      using exact by (metis mult.assoc mult.commute)
    then have e: "c' * m = n * 10 ^ k'" by simp
    then have "2 * \<bar>c' * m - n * 10 ^ k'\<bar> \<le> m" using assms(3) by simp
    moreover have "compute_discrepancy_rate n m = Inr (c', k')"
      using assms False True s
      by (simp add: compute_discrepancy_rate_def decimal_div_def Let_def k_def c_def)
    ultimately show ?thesis using e bounds by blast
  next
    case inexact: False
    have "2 * (10 ^ 27 * m) \<le> 2 * (c * m) + m"
      using close big by (rule close_bounds(3))
    then have "(2 * 10 ^ 27) * m \<le> (2 * c + 1) * m" by (simp add: algebra_simps)
    then have "2 * 10 ^ 27 \<le> 2 * c + 1" using assms(3) by (simp add: mult_le_cancel_right)
    then have "10 ^ 27 \<le> c" by presburger
    moreover have "compute_discrepancy_rate n m = Inr (c, k)"
      using assms False inexact
      by (simp add: compute_discrepancy_rate_def decimal_div_def Let_def k_def c_def)
    ultimately show ?thesis using close bounds by blast
  qed
qed

theorem discrepancy_rate_witness: "\<exists>c k. compute_discrepancy_rate 1 3 = Inr (c, k) \<and> 0 \<le> c \<and> c \<le> 10 ^ k"
  using discrepancy_rate_accurate [of 1 3] by auto

end
