(* ===== verification/ReportQueue.thy ===== *)
theory ReportQueue
  imports WeeklyKpis
begin

text \<open>
  The durable queue of report runs (\<open>data/pipelines/business_performance/queue.py\<close>) over the tables
  \<open>pipeline_runs\<close>, \<open>pipeline_run_attempts\<close>, \<open>worker_heartbeats\<close> and \<open>source_ledger_state\<close> of
  \<open>domains/reporting/models.py\<close>.

  Every function opens one transaction (\<open>engine.begin()\<close>), so each is a function of the database to
  its result and the next database. The clock readings and the identifiers drawn by \<open>uuid4\<close> are
  arguments. An \<open>UPDATE\<close> is a map over the rows that match its \<open>WHERE\<close>, and a unique index that a
  write would violate makes the write fail.
\<close>

section \<open>Rows\<close>

datatype run_status = Requested | Running | Retryable | Succeeded | Failed

datatype trigger_type = Scheduled | Manual | Cli

datatype error_code =
  EXTRACT_FAILED | VALIDATE_FAILED | LOAD_FAILED | DB_UNAVAILABLE | LOCK_UNAVAILABLE
| STALE_ABANDONED | MAX_ATTEMPTS_EXCEEDED | ORCHESTRATION_FAILED | INTERNAL_FAILED

definition PIPELINE_NAME :: string where "PIPELINE_NAME = ''business_performance''"
definition PIPELINE_VERSION :: string where "PIPELINE_VERSION = ''engagement-6-phase-5''"
definition REPORTING_WORKER_NAME :: string where "REPORTING_WORKER_NAME = ''reporting''"
definition DEFAULT_RECOMPUTE_WEEKS :: nat where "DEFAULT_RECOMPUTE_WEEKS = 3"
definition DEFAULT_LEASE_SECONDS :: int where "DEFAULT_LEASE_SECONDS = 900"
definition DEFAULT_MAX_ATTEMPTS :: int where "DEFAULT_MAX_ATTEMPTS = 5"
definition DEFAULT_BACKOFF_SECONDS :: int where "DEFAULT_BACKOFF_SECONDS = 60"

definition SAFE_ERROR_SUMMARIES :: "error_code \<Rightarrow> string" where
  "SAFE_ERROR_SUMMARIES c = (case c of
      EXTRACT_FAILED \<Rightarrow> ''Source extraction failed''
    | VALIDATE_FAILED \<Rightarrow> ''Source validation failed''
    | LOAD_FAILED \<Rightarrow> ''Report publication failed''
    | DB_UNAVAILABLE \<Rightarrow> ''Reporting database unavailable''
    | LOCK_UNAVAILABLE \<Rightarrow> ''Reporting pipeline is already locked''
    | STALE_ABANDONED \<Rightarrow> ''Worker lease expired''
    | MAX_ATTEMPTS_EXCEEDED \<Rightarrow> ''Maximum attempts exceeded''
    | ORCHESTRATION_FAILED \<Rightarrow> ''Orchestration service unavailable''
    | INTERNAL_FAILED \<Rightarrow> ''Internal reporting execution failed'')"

record pipeline_run =
  pr_id :: uuid
  pr_pipeline :: string
  pr_version :: "string option"
  pr_trigger :: trigger_type
  pr_requested_by :: string
  pr_business_date :: "date option"
  pr_scheduled_for :: "instant option"
  pr_week :: "date option"
  pr_target_weeks :: "date list option"
  pr_requested_at :: instant
  pr_started_at :: "instant option"
  pr_finished_at :: "instant option"
  pr_status :: run_status
  pr_attempt :: int
  pr_next_attempt_at :: "instant option"
  pr_token :: "uuid option"
  pr_heartbeat_at :: "instant option"
  pr_lease_expires_at :: "instant option"
  pr_nonce :: "uuid option"
  pr_stage :: "string option"
  pr_stage_started_at :: "instant option"
  pr_extracted :: "int option"
  pr_transformed :: "int option"
  pr_loaded :: "int option"
  pr_watermark :: "instant option"
  pr_error_code :: "error_code option"
  pr_error_summary :: "string option"

record run_attempt =
  at_run :: uuid
  at_number :: int
  at_stage :: string
  at_started_at :: instant
  at_ended_at :: instant
  at_duration_ms :: int
  at_source_cutoff :: "instant option"
  at_rows_scanned :: "int option"
  at_rows_written :: "int option"
  at_error_code :: "error_code option"
  at_error_type :: "string option"
  at_outcome :: string
  at_version :: "string option"
  at_build_sha :: "string option"

record worker_heartbeat =
  wh_heartbeat_at :: instant
  wh_last_progress_at :: "instant option"
  wh_orchestrator_healthy :: "bool option"

record report_db =
  runs :: "pipeline_run list"
  attempts :: "run_attempt list"
  heartbeats :: "(string \<times> worker_heartbeat) list"
  last_reset_at :: "instant option"

record run_claim =
  rc_run :: uuid
  rc_token :: uuid
  rc_trigger :: trigger_type
  rc_week :: "date option"
  rc_target_weeks :: "date list"
  rc_attempt :: int

record run_metrics =
  rm_extracted :: int
  rm_transformed :: int
  rm_loaded :: int
  rm_watermark :: "instant option"
  rm_cutoff :: "instant option"
  rm_scanned :: "int option"
  rm_written :: "int option"

text \<open>\<open>NoResultFound\<close> is what \<open>Result.one()\<close> raises when a query that must find a row finds none.\<close>

datatype queue_error = QueueValidationError string | LeaseLostError string | QueueConfigurationError string
  | NoResultFound

section \<open>Build identity\<close>

definition lower_hex :: "char \<Rightarrow> bool" where
  "lower_hex c \<longleftrightarrow> (CHR ''0'' \<le> c \<and> c \<le> CHR ''9'') \<or> (CHR ''a'' \<le> c \<and> c \<le> CHR ''f'')"

text \<open>\<open>^(?:sha-)?[0-9a-f]{40}$\<close> with \<open>fullmatch\<close>.\<close>

definition build_sha_pattern :: "string \<Rightarrow> bool" where
  "build_sha_pattern v =
     (let h = (if take 4 v = ''sha-'' then drop 4 v else v) in length h = 40 \<and> list_all lower_hex h)"

definition safe_build_sha :: "string option \<Rightarrow> string option \<Rightarrow> string option" where
  "safe_build_sha trackflow_sha github_sha =
     (let v = to_lower (strip_chars py_space (coalesce trackflow_sha (coalesce github_sha ''''))) in
      if build_sha_pattern v then Some v else None)"

section \<open>Statements\<close>

definition find_run :: "report_db \<Rightarrow> uuid \<Rightarrow> pipeline_run option" where
  "find_run d i = List.find (\<lambda>r. pr_id r = i) (runs d)"

definition update_runs :: "(pipeline_run \<Rightarrow> bool) \<Rightarrow> (pipeline_run \<Rightarrow> pipeline_run) \<Rightarrow> report_db \<Rightarrow> report_db" where
  "update_runs P f d = d\<lparr>runs := map (\<lambda>r. if P r then f r else r) (runs d)\<rparr>"

definition rowcount :: "(pipeline_run \<Rightarrow> bool) \<Rightarrow> report_db \<Rightarrow> nat" where
  "rowcount P d = length (filter P (runs d))"

text \<open>\<open>id = :id AND claim_token = :token AND status = 'running'\<close>.\<close>

definition owns :: "run_claim \<Rightarrow> pipeline_run \<Rightarrow> bool" where
  "owns c r \<longleftrightarrow> pr_id r = rc_run c \<and> pr_token r = Some (rc_token c) \<and> pr_status r = Running"

definition clear_claim :: "pipeline_run \<Rightarrow> pipeline_run" where
  "clear_claim r = r\<lparr>pr_token := None, pr_heartbeat_at := None, pr_lease_expires_at := None\<rparr>"

text \<open>\<open>GREATEST(0, (EXTRACT(EPOCH FROM (ended - started)) * 1000)::bigint)\<close>: microseconds to
  milliseconds, rounded half away from zero by the cast.\<close>

definition duration_ms :: "instant \<Rightarrow> instant \<Rightarrow> int" where
  "duration_ms started ended = (if ended < started then 0 else (ended - started + 500) div 1000)"

text \<open>\<open>_record_attempt\<close>: one row of evidence from the run's row, unless that attempt has one.\<close>

definition record_attempt ::
  "string option \<Rightarrow> run_claim \<Rightarrow> instant \<Rightarrow> string \<Rightarrow> string option \<Rightarrow> error_code option \<Rightarrow>
   string option \<Rightarrow> run_metrics option \<Rightarrow> report_db \<Rightarrow> report_db" where
  "record_attempt sha c ended_at outcome stage code error_type metrics d =
     (case find_run d (rc_run c) of
        None \<Rightarrow> d
      | Some r \<Rightarrow>
          if \<exists>a\<in>set (attempts d). at_run a = rc_run c \<and> at_number a = rc_attempt c then d
          else d\<lparr>attempts := attempts d @ [
            \<lparr>at_run = pr_id r, at_number = rc_attempt c,
             at_stage = coalesce stage (coalesce (pr_stage r) ''orchestration''),
             at_started_at = coalesce (pr_started_at r) ended_at, at_ended_at = ended_at,
             at_duration_ms = duration_ms (coalesce (pr_started_at r) ended_at) ended_at,
             at_source_cutoff = (case metrics of None \<Rightarrow> None | Some m \<Rightarrow> rm_cutoff m),
             at_rows_scanned = (case metrics of None \<Rightarrow> None | Some m \<Rightarrow>
                (case rm_scanned m of None \<Rightarrow> Some (rm_extracted m) | Some n \<Rightarrow> Some n)),
             at_rows_written = (case metrics of None \<Rightarrow> None | Some m \<Rightarrow>
                (case rm_written m of None \<Rightarrow> Some (rm_loaded m) | Some n \<Rightarrow> Some n)),
             at_error_code = (if code = Some MAX_ATTEMPTS_EXCEEDED then None else code),
             at_error_type = error_type, at_outcome = outcome, at_version = pr_version r,
             at_build_sha = sha\<rparr>]\<rparr>)"

section \<open>Heartbeats and stages\<close>

definition record_worker_heartbeat ::
  "instant \<Rightarrow> instant option \<Rightarrow> bool option \<Rightarrow> report_db \<Rightarrow> report_db" where
  "record_worker_heartbeat now progress healthy d =
     d\<lparr>heartbeats := AList.update REPORTING_WORKER_NAME
        (case map_of (heartbeats d) REPORTING_WORKER_NAME of
           None \<Rightarrow> \<lparr>wh_heartbeat_at = now, wh_last_progress_at = progress, wh_orchestrator_healthy = healthy\<rparr>
         | Some w \<Rightarrow> \<lparr>wh_heartbeat_at = now,
             wh_last_progress_at = (case progress of None \<Rightarrow> wh_last_progress_at w | Some t \<Rightarrow> Some t),
             wh_orchestrator_healthy = (case healthy of None \<Rightarrow> wh_orchestrator_healthy w | Some b \<Rightarrow> Some b)\<rparr>)
        (heartbeats d)\<rparr>"

definition record_stage ::
  "run_claim \<Rightarrow> string \<Rightarrow> instant \<Rightarrow> report_db \<Rightarrow> (queue_error + bool) \<times> report_db" where
  "record_stage c stage now d =
     (if stage \<notin> {''extract'', ''transform'', ''load''}
      then (Inl (QueueValidationError ''unknown reporting stage''), d)
      else (Inr (rowcount (owns c) d = 1),
            update_runs (owns c) (\<lambda>r. r\<lparr>pr_stage := Some stage, pr_stage_started_at := Some now\<rparr>) d))"

definition claim_is_owned :: "run_claim \<Rightarrow> report_db \<Rightarrow> bool" where
  "claim_is_owned c d \<longleftrightarrow> (\<exists>r\<in>set (runs d). owns c r)"

definition heartbeat :: "run_claim \<Rightarrow> instant \<Rightarrow> int \<Rightarrow> report_db \<Rightarrow> bool \<times> report_db" where
  "heartbeat c now lease_seconds d =
     (rowcount (owns c) d = 1,
      update_runs (owns c) (\<lambda>r. r\<lparr>pr_heartbeat_at := Some now,
        pr_lease_expires_at := Some (now + seconds lease_seconds)\<rparr>) d)"

definition verify_claim_for_publication :: "run_claim \<Rightarrow> report_db \<Rightarrow> queue_error + unit" where
  "verify_claim_for_publication c d =
     (if claim_is_owned c d then Inr ()
      else Inl (LeaseLostError ''pipeline run lease is no longer owned''))"

section \<open>Requests\<close>

definition monday :: "date \<Rightarrow> queue_error + date" where
  "monday w =
     (if isoweekday w \<noteq> 1 then Inl (QueueValidationError ''requested_week_start must be an ISO Monday'')
      else Inr w)"

definition new_run :: "uuid \<Rightarrow> trigger_type \<Rightarrow> string \<Rightarrow> instant \<Rightarrow> pipeline_run" where
  "new_run i trigger who now =
     \<lparr>pr_id = i, pr_pipeline = PIPELINE_NAME, pr_version = None, pr_trigger = trigger,
      pr_requested_by = who, pr_business_date = None, pr_scheduled_for = None, pr_week = None,
      pr_target_weeks = None, pr_requested_at = now, pr_started_at = None, pr_finished_at = None,
      pr_status = Requested, pr_attempt = 0, pr_next_attempt_at = None, pr_token = None,
      pr_heartbeat_at = None, pr_lease_expires_at = None, pr_nonce = None, pr_stage = None,
      pr_stage_started_at = None, pr_extracted = None, pr_transformed = None, pr_loaded = None,
      pr_watermark = None, pr_error_code = None, pr_error_summary = None\<rparr>"

text \<open>The unique partial indexes. A NULL column never conflicts.\<close>

definition same_slot :: "pipeline_run \<Rightarrow> pipeline_run \<Rightarrow> bool" where
  "same_slot r s \<longleftrightarrow> pr_pipeline r = pr_pipeline s \<and> pr_trigger r = Scheduled \<and> pr_trigger s = Scheduled \<and>
     (pr_business_date r \<noteq> None \<and> pr_business_date r = pr_business_date s \<or>
      pr_scheduled_for r \<noteq> None \<and> pr_scheduled_for r = pr_scheduled_for s)"

definition pending_manual :: "pipeline_run \<Rightarrow> bool" where
  "pending_manual r \<longleftrightarrow> pr_status r = Requested \<and> pr_trigger r = Manual \<and> pr_nonce r = None"

text \<open>\<open>COALESCE(requested_week_start, DATE '0001-01-01')\<close>.\<close>

definition week_slot :: "date option \<Rightarrow> date" where
  "week_slot w = coalesce w (- 719162)"

definition enqueue_scheduled ::
  "uuid \<Rightarrow> date option \<Rightarrow> instant option \<Rightarrow> instant \<Rightarrow> report_db \<Rightarrow> (queue_error + uuid option) \<times> report_db" where
  "enqueue_scheduled new_id business_date scheduled_for now d =
     (if business_date = None \<and> scheduled_for = None
      then (Inl (QueueValidationError ''scheduled request requires a date or cadence slot''), d)
      else
        let r = (new_run new_id Scheduled ''system'' now)
                  \<lparr>pr_business_date := business_date, pr_scheduled_for := scheduled_for\<rparr> in
        if \<exists>s\<in>set (runs d). same_slot r s then (Inr None, d)
        else (Inr (Some new_id), d\<lparr>runs := runs d @ [r]\<rparr>))"

definition week_value :: "date option \<Rightarrow> queue_error + date option" where
  "week_value w = (case w of None \<Rightarrow> Inr None | Some x \<Rightarrow> rbind (monday x) (\<lambda>m. Inr (Some m)))"

definition reset_value :: "instant option \<Rightarrow> pyvalue" where
  "reset_value r = (case r of None \<Rightarrow> PyNone | Some t \<Rightarrow> PyAware t)"

definition queue_week :: "date \<Rightarrow> instant option \<Rightarrow> queue_error + date" where
  "queue_week w reset =
     (case validate_requested_week (PyDate w) (reset_value reset) of
        Inl m \<Rightarrow> Inl (QueueValidationError m) | Inr x \<Rightarrow> Inr x)"

definition enqueue_manual ::
  "uuid \<Rightarrow> uuid \<Rightarrow> string \<Rightarrow> date option \<Rightarrow> bool \<Rightarrow> instant \<Rightarrow> report_db \<Rightarrow>
   (queue_error + uuid) \<times> report_db" where
  "enqueue_manual new_id nonce requested_by week force_refresh now d =
     (if strip_chars py_space requested_by = ''''
      then (Inl (QueueValidationError ''requested_by is required''), d)
      else case week_value week of
          Inl e \<Rightarrow> (Inl e, d)
        | Inr w \<Rightarrow>
          (case (case w of None \<Rightarrow> Inr () | Some x \<Rightarrow> rbind (queue_week x (last_reset_at d)) (\<lambda>_. Inr ())) of
             Inl e \<Rightarrow> (Inl e, d)
           | Inr _ \<Rightarrow>
             let r = (new_run new_id Manual requested_by now)
                       \<lparr>pr_week := w, pr_nonce := (if force_refresh then Some nonce else None)\<rparr> in
             if pending_manual r \<and> (\<exists>s\<in>set (runs d). pending_manual s \<and> pr_pipeline s = PIPELINE_NAME \<and>
                  week_slot (pr_week s) = week_slot w)
             then (case List.find (\<lambda>s. pr_pipeline s = PIPELINE_NAME \<and>
                     pending_manual s \<and> pr_week s = w) (runs d) of
                     None \<Rightarrow> (Inl NoResultFound, d) | Some s \<Rightarrow> (Inr (pr_id s), d))
             else (Inr new_id, d\<lparr>runs := runs d @ [r]\<rparr>)))"

definition enqueue_cli ::
  "uuid \<Rightarrow> date option \<Rightarrow> instant \<Rightarrow> report_db \<Rightarrow> (queue_error + uuid) \<times> report_db" where
  "enqueue_cli new_id week now d =
     (case week_value week of
        Inl e \<Rightarrow> (Inl e, d)
      | Inr w \<Rightarrow> (Inr new_id, d\<lparr>runs := runs d @ [(new_run new_id Cli ''cli'' now)\<lparr>pr_week := w\<rparr>]\<rparr>))"

section \<open>Claiming\<close>

text \<open>
  The row that \<open>claim_next\<close> takes is the first by \<open>requested_at\<close>; among equals SQL may choose any, and
  here it is the first inserted. The unique index on the running row makes the \<open>UPDATE\<close> fail, and
  the \<open>except IntegrityError\<close> clause answers with no claim.
\<close>

definition target_weeks :: "date option \<Rightarrow> instant \<Rightarrow> instant option \<Rightarrow> nat \<Rightarrow> queue_error + date list" where
  "target_weeks week now reset recompute_weeks =
     (case week of
        Some w \<Rightarrow> rbind (queue_week w reset) (\<lambda>x. Inr [x])
      | None \<Rightarrow>
          (let current = iso_week_start now;
               candidates = map (\<lambda>k. PyDate (current - 7 * int k)) (rev [0..<recompute_weeks])
           in case recomputable_weeks candidates (reset_value reset) of
                Inl m \<Rightarrow> Inl (QueueValidationError m) | Inr ws \<Rightarrow> Inr ws))"

definition eligible :: "instant \<Rightarrow> pipeline_run \<Rightarrow> bool" where
  "eligible now r \<longleftrightarrow> pr_pipeline r = PIPELINE_NAME \<and>
     (pr_status r = Requested \<or>
      pr_status r = Retryable \<and> (case pr_next_attempt_at r of None \<Rightarrow> False | Some t \<Rightarrow> t \<le> now))"

definition claim_row :: "instant \<Rightarrow> string \<Rightarrow> uuid \<Rightarrow> int \<Rightarrow> pipeline_run \<Rightarrow> pipeline_run" where
  "claim_row now version token lease_seconds r =
     r\<lparr>pr_status := Running, pr_started_at := Some now, pr_finished_at := None,
       pr_attempt := pr_attempt r + 1, pr_version := Some version, pr_token := Some token,
       pr_heartbeat_at := Some now, pr_lease_expires_at := Some (now + seconds lease_seconds),
       pr_next_attempt_at := None, pr_error_code := None, pr_error_summary := None\<rparr>"

definition claim_of :: "pipeline_run \<Rightarrow> uuid \<Rightarrow> date list \<Rightarrow> run_claim" where
  "claim_of r token weeks =
     \<lparr>rc_run = pr_id r, rc_token = token, rc_trigger = pr_trigger r, rc_week = pr_week r,
      rc_target_weeks = weeks, rc_attempt = pr_attempt r\<rparr>"

definition fail_row :: "instant \<Rightarrow> error_code \<Rightarrow> pipeline_run \<Rightarrow> pipeline_run" where
  "fail_row now code r =
     (clear_claim r)\<lparr>pr_status := Failed, pr_finished_at := Some now, pr_error_code := Some code,
       pr_error_summary := Some (SAFE_ERROR_SUMMARIES code)\<rparr>"

definition claim_next ::
  "string option \<Rightarrow> uuid \<Rightarrow> instant \<Rightarrow> string \<Rightarrow> int \<Rightarrow> nat \<Rightarrow> report_db \<Rightarrow> run_claim option \<times> report_db" where
  "claim_next sha token now version lease_seconds recompute_weeks d =
     (case sort_key pr_requested_at (filter (eligible now) (runs d)) of
        [] \<Rightarrow> (None, d)
      | r # _ \<Rightarrow>
          if \<exists>s\<in>set (runs d). pr_status s = Running \<and> pr_pipeline s = pr_pipeline r then (None, d)
          else
            let r' = claim_row now version token lease_seconds r;
                d1 = update_runs (\<lambda>s. pr_id s = pr_id r) (claim_row now version token lease_seconds) d
            in (case target_weeks (pr_week r') now (last_reset_at d1) recompute_weeks of
                  Inl _ \<Rightarrow>
                    (None,
                     record_attempt sha (claim_of r' token []) now ''failed'' (Some ''orchestration'')
                       (Some VALIDATE_FAILED) (Some ''QueueValidationError'') None
                       (update_runs (owns (claim_of r' token [])) (fail_row now VALIDATE_FAILED) d1))
                | Inr weeks \<Rightarrow>
                    (Some (claim_of r' token weeks),
                     update_runs (\<lambda>s. pr_id s = pr_id r) (\<lambda>s. s\<lparr>pr_target_weeks := Some weeks\<rparr>) d1)))"

section \<open>Final transitions\<close>

definition finalize_success ::
  "string option \<Rightarrow> run_claim \<Rightarrow> run_metrics \<Rightarrow> instant \<Rightarrow> report_db \<Rightarrow> bool \<times> report_db" where
  "finalize_success sha c m now d =
     (let d1 = update_runs (owns c) (\<lambda>r. (clear_claim r)
           \<lparr>pr_status := Succeeded, pr_finished_at := Some now, pr_extracted := Some (rm_extracted m),
            pr_transformed := Some (rm_transformed m), pr_loaded := Some (rm_loaded m),
            pr_watermark := rm_watermark m, pr_error_code := None, pr_error_summary := None\<rparr>) d
      in if rowcount (owns c) d = 1
         then (True, record_attempt sha c now ''succeeded'' None None None (Some m) d1)
         else (False, d1))"

definition backoff :: "int \<Rightarrow> int \<Rightarrow> int" where
  "backoff attempt base_seconds = seconds (base_seconds * 2 ^ nat (max 0 (attempt - 1)))"

definition retry_row :: "instant \<Rightarrow> instant \<Rightarrow> error_code \<Rightarrow> pipeline_run \<Rightarrow> pipeline_run" where
  "retry_row now next_at code r =
     (clear_claim r)\<lparr>pr_status := Retryable, pr_finished_at := None, pr_next_attempt_at := Some next_at,
       pr_error_code := Some code, pr_error_summary := Some (SAFE_ERROR_SUMMARIES code)\<rparr>"

text \<open>The row of \<open>release_retryable\<close> and of the stale sweep: exhausted runs fail for good.\<close>

definition release_row :: "instant \<Rightarrow> int \<Rightarrow> int \<Rightarrow> int \<Rightarrow> error_code \<Rightarrow> pipeline_run \<Rightarrow> pipeline_run" where
  "release_row now attempt max_attempts backoff_seconds code r =
     (if max_attempts \<le> attempt
      then (fail_row now MAX_ATTEMPTS_EXCEEDED r)\<lparr>pr_next_attempt_at := None\<rparr>
      else retry_row now (now + backoff attempt backoff_seconds) code r)"

definition release_retryable ::
  "string option \<Rightarrow> run_claim \<Rightarrow> error_code \<Rightarrow> instant \<Rightarrow> int \<Rightarrow> int \<Rightarrow> string option \<Rightarrow> string option \<Rightarrow>
   report_db \<Rightarrow> bool \<times> report_db" where
  "release_retryable sha c code now max_attempts backoff_seconds stage error_type d =
     (let d1 = update_runs (owns c) (release_row now (rc_attempt c) max_attempts backoff_seconds code) d
      in if rowcount (owns c) d = 1
         then (True, record_attempt sha c now
                 (if max_attempts \<le> rc_attempt c then ''exhausted'' else ''retried'')
                 stage (Some code) error_type None d1)
         else (False, d1))"

definition finalize_failure ::
  "string option \<Rightarrow> run_claim \<Rightarrow> error_code \<Rightarrow> instant \<Rightarrow> string option \<Rightarrow> string option \<Rightarrow>
   report_db \<Rightarrow> bool \<times> report_db" where
  "finalize_failure sha c code now stage error_type d =
     (let d1 = update_runs (owns c) (fail_row now code) d
      in if rowcount (owns c) d = 1
         then (True, record_attempt sha c now ''failed'' stage (Some code) error_type None d1)
         else (False, d1))"

section \<open>The stale sweep\<close>

definition stale :: "instant \<Rightarrow> pipeline_run \<Rightarrow> bool" where
  "stale now r \<longleftrightarrow> pr_pipeline r = PIPELINE_NAME \<and> pr_status r = Running \<and>
     (case pr_lease_expires_at r of None \<Rightarrow> False | Some t \<Rightarrow> t < now)"

definition recover_row ::
  "string option \<Rightarrow> instant \<Rightarrow> int \<Rightarrow> int \<Rightarrow> pipeline_run \<Rightarrow> report_db \<Rightarrow> report_db" where
  "recover_row sha now max_attempts backoff_seconds r d =
     record_attempt sha (claim_of r (coalesce (pr_token r) '''') (coalesce (pr_target_weeks r) [])) now
       ''lease_lost'' (pr_stage r) (Some STALE_ABANDONED) None None
       (update_runs (\<lambda>s. pr_id s = pr_id r \<and> pr_status s = Running)
          (release_row now (pr_attempt r) max_attempts backoff_seconds STALE_ABANDONED) d)"

definition recover_stale_runs ::
  "string option \<Rightarrow> instant \<Rightarrow> int \<Rightarrow> int \<Rightarrow> report_db \<Rightarrow> nat \<times> report_db" where
  "recover_stale_runs sha now max_attempts backoff_seconds d =
     (let rows = filter (stale now) (runs d) in
      (length rows, fold (recover_row sha now max_attempts backoff_seconds) rows d))"

section \<open>Ownership lemmas\<close>

lemma update_runs_ids [simp]:
  assumes "\<And>r. pr_id (f r) = pr_id r"
  shows "map pr_id (runs (update_runs P f d)) = map pr_id (runs d)"
  using assms by (simp add: update_runs_def comp_def if_distrib cong: if_cong)

lemma update_runs_fields [simp]:
  "attempts (update_runs P f d) = attempts d" "heartbeats (update_runs P f d) = heartbeats d"
  "last_reset_at (update_runs P f d) = last_reset_at d"
  by (simp_all add: update_runs_def)

lemma record_attempt_fields [simp]:
  "runs (record_attempt sha c t out st code ty m d) = runs d"
  "heartbeats (record_attempt sha c t out st code ty m d) = heartbeats d"
  "last_reset_at (record_attempt sha c t out st code ty m d) = last_reset_at d"
  by (simp_all add: record_attempt_def split: option.splits)

lemma update_runs_none: "(\<And>r. r \<in> set (runs d) \<Longrightarrow> \<not> P r) \<Longrightarrow> update_runs P f d = d"
  by (simp add: update_runs_def map_idI)

lemma not_owned_none: "\<not> claim_is_owned c d \<Longrightarrow> rowcount (owns c) d = 0 \<and> update_runs (owns c) f d = d"
  by (auto simp: claim_is_owned_def rowcount_def filter_empty_conv intro: update_runs_none)

lemma owned_once:
  assumes "distinct (map pr_id (runs d))" and "claim_is_owned c d"
  shows "rowcount (owns c) d = 1" and "\<exists>r\<in>set (runs d). owns c r \<and> find_run d (rc_run c) = Some r"
proof -
  obtain r where r: "r \<in> set (runs d)" "owns c r" using assms(2) by (auto simp: claim_is_owned_def)
  have "pr_id r = rc_run c" using r(2) by (simp add: owns_def)
  then have f: "find_run d (rc_run c) = Some r"
    unfolding find_run_def using find_key_unique [OF assms(1) r(1)] by simp
  with r show "\<exists>r\<in>set (runs d). owns c r \<and> find_run d (rc_run c) = Some r" by blast
  have inj: "inj_on pr_id (set (runs d))" using assms(1) by (simp add: distinct_map)
  have only: "s = r" if "s \<in> set (runs d)" "owns c s" for s
    using inj_onD [OF inj _ that(1) r(1)] that(2) r(2) by (simp add: owns_def)
  have one: "set (filter (owns c) (runs d)) = {r}"
  proof (intro equalityI subsetI)
    show "s \<in> {r}" if "s \<in> set (filter (owns c) (runs d))" for s
      using that only [of s] by simp
    show "s \<in> set (filter (owns c) (runs d))" if "s \<in> {r}" for s
      using that r by simp
  qed
  have "distinct (filter (owns c) (runs d))" using assms(1) by (simp add: distinct_map)
  then have "length (filter (owns c) (runs d)) = card (set (filter (owns c) (runs d)))"
    by (rule distinct_card [symmetric])
  also have "\<dots> = 1" unfolding one by simp
  finally show "rowcount (owns c) d = 1" by (simp only: rowcount_def)
qed

end
