(* ===== verification/Rollups.thy ===== *)
theory Rollups
  imports InventoryRepository ReportQueue
begin

text \<open>
  The hourly rollups and their activation (\<open>data/pipelines/business_performance/rollups.py\<close>): the
  window of completed hours, the dense hourly grid aggregated from the inventory tables, its
  publication, the reconciliation with the raw sources and the weekly rows served from it.

  The SQL runs in UTC, so \<open>date_trunc\<close> of an hour and of a week are the functions of the instant
  below. The functions take the database as it is when their transaction runs and return the next
  one; a transaction that raises leaves the database as it was. The environment flags, the statement
  timeout and the command line are left out. The quotient of two \<open>numeric\<close> values is a parameter.
\<close>

section \<open>Rows\<close>

definition TRAILING_RECOMPUTE_HOURS :: int where "TRAILING_RECOMPUTE_HOURS = 72"

definition ROLLUP_PIPELINE_VERSION :: string where "ROLLUP_PIPELINE_VERSION = ''engagement-6-phase-6.3''"

definition hours :: "int \<Rightarrow> int" where "hours n = seconds (n * 3600)"

record rollup_window =
  rw_start :: instant
  rw_end :: instant
  rw_cutoff :: instant
  rw_scanned :: int

datatype metric =
  InboundMovements | InboundUnits | DispatchOrders | DispatchUnits | LossMovements | LossUnits
| Stockouts | Discrepancies

definition METRICS :: "metric list" where
  "METRICS = [InboundMovements, InboundUnits, DispatchOrders, DispatchUnits, LossMovements, LossUnits,
     Stockouts, Discrepancies]"

text \<open>The metric columns of a row, of a group and of a week, by name.\<close>

type_synonym metrics = "metric \<Rightarrow> int"
type_synonym dimension = "warehouse \<times> uuid"
type_synonym hour_key = "instant \<times> dimension"
type_synonym week_key = "date \<times> dimension"

record hourly_row =
  hr_bucket :: instant
  hr_dimension :: dimension
  hr_metrics :: metrics

record hourly_cell =
  hc_metrics :: metrics
  hc_cutoff :: instant
  hc_computed_at :: instant
  hc_version :: string

record 'r weekly_cell =
  wc_inbound_units :: int
  wc_outbound_orders :: int
  wc_stockouts :: int
  wc_discrepancies :: int
  wc_rate :: 'r
  wc_computed_at :: instant

record rollup_state =
  rs_version :: "string option"
  rs_last_cutoff :: "instant option"
  rs_last_published :: "instant option"
  rs_last_reconciled :: "instant option"
  rs_active_version :: "string option"
  rs_active_cutoff :: "instant option"
  rs_active_published :: "instant option"

record 'r reporting =
  source_db :: inventory_db
  queue_db :: report_db
  hourly :: "(hour_key \<times> hourly_cell) list"
  rollup :: rollup_state
  weekly :: "(week_key \<times> 'r weekly_cell) list"

datatype rollup_error = RollupValidationError (rollup_message: string) (rollup_reason: string)
  | RollupQueueError queue_error

record mismatch =
  mm_week :: date
  mm_dimension :: dimension
  mm_metrics :: "string list"

record reconciliation =
  rec_checked :: nat
  rec_mismatches :: "mismatch list"

definition exact :: "reconciliation \<Rightarrow> bool" where
  "exact r \<longleftrightarrow> rec_mismatches r = []"

record activation =
  ac_hourly_rows :: nat
  ac_weekly_rows :: nat
  ac_reconciliation :: reconciliation

section \<open>Hours and weeks\<close>

definition floor_hour :: "instant \<Rightarrow> instant" where
  "floor_hour t = t - t mod hours 1"

definition ceil_hour :: "instant \<Rightarrow> instant" where
  "ceil_hour t = (if floor_hour t = t then floor_hour t else floor_hour t + hours 1)"

definition week_floor :: "instant \<Rightarrow> instant" where
  "week_floor t = midnight (iso_week_start t)"

section \<open>The raw sources\<close>

text \<open>
  What each query reads of a source table: the instant, the dimension (through the join with
  \<open>skus\<close> for the movements) and the quantity.
\<close>

record fact =
  fa_at :: instant
  fa_dimension :: dimension
  fa_quantity :: int

definition join_skus :: "inventory_db \<Rightarrow> int \<Rightarrow> sku list" where
  "join_skus d i = filter (\<lambda>s. sku_id s = i) (skus d)"

definition inbound_facts :: "inventory_db \<Rightarrow> fact list" where
  "inbound_facts d = concat (map (\<lambda>e. map (\<lambda>s.
     \<lparr>fa_at = en_created_at e, fa_dimension = (en_warehouse e, sku_client_id s), fa_quantity = en_quantity e\<rparr>)
     (join_skus d (en_sku_id e))) (entries d))"

definition exit_facts :: "inventory_db \<Rightarrow> exit_type \<Rightarrow> fact list" where
  "exit_facts d t = concat (map (\<lambda>x. map (\<lambda>s.
     \<lparr>fa_at = ex_created_at x, fa_dimension = (ex_warehouse x, sku_client_id s), fa_quantity = ex_quantity x\<rparr>)
     (join_skus d (ex_sku_id x))) (filter (\<lambda>x. ex_type x = t) (exits d)))"

definition stockout_facts :: "inventory_db \<Rightarrow> fact list" where
  "stockout_facts d = map (\<lambda>v.
     \<lparr>fa_at = so_occurred_at v, fa_dimension = (so_warehouse v, so_client_id v), fa_quantity = 1\<rparr>) (stockouts d)"

definition discrepancy_facts :: "inventory_db \<Rightarrow> fact list" where
  "discrepancy_facts d = map (\<lambda>v.
     \<lparr>fa_at = di_detected_at v, fa_dimension = (di_warehouse v, di_client_id v), fa_quantity = 1\<rparr>) (discrepancies d)"

definition facts :: "inventory_db \<Rightarrow> metric \<Rightarrow> fact list" where
  "facts d m = (case m of
      InboundMovements \<Rightarrow> inbound_facts d | InboundUnits \<Rightarrow> inbound_facts d
    | DispatchOrders \<Rightarrow> exit_facts d Dispatch | DispatchUnits \<Rightarrow> exit_facts d Dispatch
    | LossMovements \<Rightarrow> exit_facts d Loss | LossUnits \<Rightarrow> exit_facts d Loss
    | Stockouts \<Rightarrow> stockout_facts d | Discrepancies \<Rightarrow> discrepancy_facts d)"

text \<open>\<open>count(*)\<close> or \<open>sum(quantity)\<close>, \<open>0\<close> for an empty group.\<close>

definition weight :: "metric \<Rightarrow> fact \<Rightarrow> int" where
  "weight m f = (if m \<in> {InboundUnits, DispatchUnits, LossUnits} then fa_quantity f else 1)"

definition total :: "inventory_db \<Rightarrow> (fact \<Rightarrow> bool) \<Rightarrow> metrics" where
  "total d P m = sum_where P (weight m) (facts d m)"

definition within :: "instant \<Rightarrow> instant \<Rightarrow> instant \<Rightarrow> bool" where
  "within start end t \<longleftrightarrow> start \<le> t \<and> t < end"

definition source_instants :: "inventory_db \<Rightarrow> instant list" where
  "source_instants d = map en_created_at (entries d) @ map ex_created_at (exits d) @
     map so_occurred_at (stockouts d) @ map di_detected_at (discrepancies d)"

definition source_floor :: "inventory_db \<Rightarrow> instant option" where
  "source_floor d = (case source_instants d of [] \<Rightarrow> None | t # ts \<Rightarrow> Some (fold min ts t))"

definition count_source_rows :: "inventory_db \<Rightarrow> instant \<Rightarrow> instant \<Rightarrow> int" where
  "count_source_rows d start end = int (length (filter (within start end) (source_instants d)))"

section \<open>The window\<close>

definition capture_rollup_window ::
  "run_claim \<Rightarrow> instant \<Rightarrow> 'r reporting \<Rightarrow> rollup_error + rollup_window" where
  "capture_rollup_window c now w =
     (let cutoff = floor_hour now;
          (start, end) = (case rc_week c of
             Some week \<Rightarrow> (midnight week, min (midnight week + days 7) cutoff)
           | None \<Rightarrow>
               let trailing_start = cutoff - hours TRAILING_RECOMPUTE_HOURS in
               ((case rs_last_cutoff (rollup w) of
                   Some t \<Rightarrow> min (floor_hour t) trailing_start
                 | None \<Rightarrow> (case source_floor (source_db w) of
                      None \<Rightarrow> trailing_start | Some t \<Rightarrow> floor_hour t)), cutoff));
          start = (case last_reset_at (queue_db w) of None \<Rightarrow> start | Some t \<Rightarrow> max start (floor_hour t))
      in if end \<le> start
         then Inl (RollupValidationError ''rollup window contains no completed UTC hour'' ''empty_rollup_window'')
         else Inr \<lparr>rw_start = start, rw_end = end, rw_cutoff = cutoff,
                rw_scanned = count_source_rows (source_db w) start end\<rparr>)"

section \<open>The hourly grid\<close>

definition buckets :: "instant \<Rightarrow> instant \<Rightarrow> instant list" where
  "buckets start end = map (\<lambda>k. start + int k * hours 1) [0..<nat ((end - start) div hours 1)]"

definition dimensions :: "inventory_db \<Rightarrow> dimension list" where
  "dimensions d = sort (remdups (map (\<lambda>s. (sku_warehouse s, sku_client_id s)) (skus d)))"

definition compute_hourly_rollups :: "inventory_db \<Rightarrow> rollup_window \<Rightarrow> hourly_row list" where
  "compute_hourly_rollups d win =
     concat (map (\<lambda>b. map (\<lambda>k.
       \<lparr>hr_bucket = b, hr_dimension = k,
        hr_metrics = total d (\<lambda>f. within (rw_start win) (rw_end win) (fa_at f) \<and>
          floor_hour (fa_at f) = b \<and> fa_dimension f = k)\<rparr>)
       (dimensions d)) (buckets (rw_start win) (rw_end win)))"

section \<open>Publication\<close>

definition hour_key_of :: "hourly_row \<Rightarrow> hour_key" where
  "hour_key_of r = (hr_bucket r, hr_dimension r)"

definition upsert_hourly ::
  "instant \<Rightarrow> instant \<Rightarrow> string \<Rightarrow> hourly_row list \<Rightarrow> (hour_key \<times> hourly_cell) list \<Rightarrow>
   (hour_key \<times> hourly_cell) list" where
  "upsert_hourly cutoff computed_at version rows t =
     fold (\<lambda>r. AList.update (hour_key_of r)
       \<lparr>hc_metrics = hr_metrics r, hc_cutoff = cutoff, hc_computed_at = computed_at, hc_version = version\<rparr>) rows t"

definition advance_cursor :: "instant \<Rightarrow> instant \<Rightarrow> string \<Rightarrow> rollup_state \<Rightarrow> rollup_state" where
  "advance_cursor cutoff published_at version s =
     s\<lparr>rs_version := Some version,
       rs_last_cutoff := Some (max (coalesce (rs_last_cutoff s) cutoff) cutoff),
       rs_last_published := Some published_at\<rparr>"

definition publish_hourly_rollups ::
  "run_claim \<Rightarrow> rollup_window \<Rightarrow> hourly_row list \<Rightarrow> string \<Rightarrow> instant \<Rightarrow> 'r reporting \<Rightarrow>
   (rollup_error + nat) \<times> 'r reporting" where
  "publish_hourly_rollups c win rows version now w =
     (case verify_claim_for_publication c (queue_db w) of
        Inl e \<Rightarrow> (Inl (RollupQueueError e), w)
      | Inr _ \<Rightarrow> (Inr (length rows),
          w\<lparr>hourly := upsert_hourly (rw_cutoff win) now version rows (hourly w),
            rollup := advance_cursor (rw_cutoff win) now version (rollup w)\<rparr>))"

section \<open>Reconciliation\<close>

definition week_key_of_fact :: "fact \<Rightarrow> week_key" where
  "week_key_of_fact f = (iso_week_start (fa_at f), fa_dimension f)"

definition week_key_of_cell :: "hour_key \<Rightarrow> week_key" where
  "week_key_of_cell k = (iso_week_start (fst k), snd k)"

definition expected :: "inventory_db \<Rightarrow> instant \<Rightarrow> instant \<Rightarrow> week_key \<Rightarrow> metrics" where
  "expected d start end k = total d (\<lambda>f. within start end (fa_at f) \<and> week_key_of_fact f = k)"

definition actual :: "(hour_key \<times> hourly_cell) list \<Rightarrow> instant \<Rightarrow> instant \<Rightarrow> week_key \<Rightarrow> metrics" where
  "actual t start end k m = sum_where (\<lambda>(h, v). within start end (fst h) \<and> week_key_of_cell h = k)
     (\<lambda>(h, v). hc_metrics v m) t"

definition reconciliation_keys ::
  "inventory_db \<Rightarrow> (hour_key \<times> hourly_cell) list \<Rightarrow> instant \<Rightarrow> instant \<Rightarrow> week_key list" where
  "reconciliation_keys d t start end = sort (remdups
     (concat (map (\<lambda>m. map week_key_of_fact (filter (\<lambda>f. within start end (fa_at f)) (facts d m)))
        [InboundMovements, DispatchOrders, LossMovements, Stockouts, Discrepancies]) @
      map (week_key_of_cell \<circ> fst) (filter (\<lambda>(h, v). within start end (fst h)) t)))"

definition metric_name :: "metric \<Rightarrow> string" where
  "metric_name m = (case m of
      InboundMovements \<Rightarrow> ''inbound_movement_count'' | InboundUnits \<Rightarrow> ''inbound_units''
    | DispatchOrders \<Rightarrow> ''dispatch_order_count'' | DispatchUnits \<Rightarrow> ''dispatch_units''
    | LossMovements \<Rightarrow> ''loss_movement_count'' | LossUnits \<Rightarrow> ''loss_units''
    | Stockouts \<Rightarrow> ''stockout_count'' | Discrepancies \<Rightarrow> ''discrepancy_count'')"

definition differing :: "metrics \<Rightarrow> metrics \<Rightarrow> string list" where
  "differing e a = map metric_name (filter (\<lambda>m. e m \<noteq> a m) METRICS) @
     (if a DispatchOrders < a Discrepancies then [''discrepancy_rate_denominator''] else [])"

definition reconciliation_result ::
  "inventory_db \<Rightarrow> (hour_key \<times> hourly_cell) list \<Rightarrow> instant \<Rightarrow> instant \<Rightarrow> reconciliation" where
  "reconciliation_result d t start end =
     (let keys = reconciliation_keys d t start end in
      \<lparr>rec_checked = length keys,
       rec_mismatches = concat (map (\<lambda>k.
         case differing (expected d start end k) (actual t start end k) of
           [] \<Rightarrow> []
         | ms \<Rightarrow> [\<lparr>mm_week = fst k, mm_dimension = snd k, mm_metrics = ms\<rparr>]) keys)\<rparr>)"

definition reconcile_hourly_rollups ::
  "instant \<Rightarrow> instant \<Rightarrow> bool \<Rightarrow> instant \<Rightarrow> 'r reporting \<Rightarrow> (rollup_error + reconciliation) \<times> 'r reporting" where
  "reconcile_hourly_rollups start cutoff mark now w =
     (let start_at = floor_hour start; end_at = floor_hour cutoff in
      if end_at \<le> start_at
      then (Inl (RollupValidationError ''reconciliation window contains no completed UTC hour''
              ''empty_reconciliation_window''), w)
      else let r = reconciliation_result (source_db w) (hourly w) start_at end_at in
        (Inr r,
         if exact r \<and> mark \<and> (case rs_last_cutoff (rollup w) of None \<Rightarrow> False | Some t \<Rightarrow> end_at \<le> t)
         then w\<lparr>rollup := (rollup w)\<lparr>rs_last_reconciled := Some now\<rparr>\<rparr> else w))"

section \<open>Activation\<close>

text \<open>\<open>max(checkpoint_at)\<close> of the movement retention.\<close>

definition pruned_through :: "inventory_db \<Rightarrow> instant option" where
  "pruned_through d = (case map (cp_at \<circ> snd) (checkpoints d) of [] \<Rightarrow> None | t # ts \<Rightarrow> Some (fold max ts t))"

definition reconciliation_bounds :: "instant \<Rightarrow> 'r reporting \<Rightarrow> rollup_error + instant \<times> instant" where
  "reconciliation_bounds cutoff w =
     (case map fst (map fst (filter (\<lambda>(h, v). hc_cutoff v \<le> cutoff) (hourly w))) of
        [] \<Rightarrow> Inl (RollupValidationError ''no hourly rollups are available for activation'' ''no_rollups'')
      | b # bs \<Rightarrow>
          let first_bucket = fold min bs b; last_bucket = fold max bs b;
              start = floor_hour first_bucket;
              start = (case pruned_through (source_db w) of None \<Rightarrow> start | Some t \<Rightarrow> max start (ceil_hour t));
              end = min (floor_hour last_bucket + hours 1) (floor_hour cutoff)
          in if end \<le> start
             then Inl (RollupValidationError ''reconciliation window contains no verifiable UTC hour''
                     ''no_verifiable_window'')
             else Inr (start, end))"

definition weekly_groups ::
  "instant \<Rightarrow> instant \<Rightarrow> instant \<Rightarrow> (hour_key \<times> hourly_cell) list \<Rightarrow> (hour_key \<times> hourly_cell) list" where
  "weekly_groups first_week current_week cutoff t =
     filter (\<lambda>(h, v). within first_week current_week (fst h) \<and> hc_cutoff v \<le> cutoff) t"

definition weekly_cell_of ::
  "(int \<Rightarrow> int \<Rightarrow> 'r) \<Rightarrow> 'r \<Rightarrow> instant \<Rightarrow> metrics \<Rightarrow> 'r weekly_cell" where
  "weekly_cell_of numeric_div zero computed_at s =
     \<lparr>wc_inbound_units = s InboundUnits, wc_outbound_orders = s DispatchOrders,
      wc_stockouts = s Stockouts, wc_discrepancies = s Discrepancies,
      wc_rate = (if s DispatchOrders = 0 then zero else numeric_div (s Discrepancies) (s DispatchOrders)),
      wc_computed_at = computed_at\<rparr>"

definition weekly_from_hourly ::
  "(int \<Rightarrow> int \<Rightarrow> 'r) \<Rightarrow> 'r \<Rightarrow> instant \<Rightarrow> (hour_key \<times> hourly_cell) list \<Rightarrow> (week_key \<times> 'r weekly_cell) list" where
  "weekly_from_hourly numeric_div zero computed_at g =
     map (\<lambda>k. (k, weekly_cell_of numeric_div zero computed_at
       (\<lambda>m. sum_where (\<lambda>(h, v). week_key_of_cell h = k) (\<lambda>(h, v). hc_metrics v m) g)))
       (remdups (map (week_key_of_cell \<circ> fst) g))"

text \<open>The first week that the reconciliation covers from its start, and the week it ends in.\<close>

definition first_whole_week :: "instant \<Rightarrow> instant" where
  "first_whole_week start = (if week_floor start < start then week_floor start + days 7 else week_floor start)"

definition activate_reconciled_rollups ::
  "(int \<Rightarrow> int \<Rightarrow> 'r) \<Rightarrow> 'r \<Rightarrow> run_claim \<Rightarrow> rollup_window \<Rightarrow> hourly_row list option \<Rightarrow> string \<Rightarrow> instant \<Rightarrow>
   'r reporting \<Rightarrow> (rollup_error + activation) \<times> 'r reporting" where
  "activate_reconciled_rollups numeric_div zero c win rows version now w =
     (let cutoff = floor_hour (rw_cutoff win) in
      case verify_claim_for_publication c (queue_db w) of
        Inl e \<Rightarrow> (Inl (RollupQueueError e), w)
      | Inr _ \<Rightarrow>
          let w1 = (case rows of
                 None \<Rightarrow> w
               | Some rs \<Rightarrow> w\<lparr>hourly := upsert_hourly (rw_cutoff win) now version rs (hourly w),
                     rollup := advance_cursor cutoff now version (rollup w)\<rparr>)
          in case reconciliation_bounds cutoff w1 of
               Inl e \<Rightarrow> (Inl e, w)
             | Inr (start_at, reconcile_end) \<Rightarrow>
                 let first_week = first_whole_week start_at;
                     current_week = min (week_floor cutoff) (week_floor reconcile_end);
                     r = reconciliation_result (source_db w1) (hourly w1) start_at reconcile_end
                 in if \<not> exact r
                    then (Inl (RollupValidationError ''rollup reconciliation failed'' ''reconciliation_mismatch''), w)
                    else
                      let kept = filter (\<lambda>(k, v). \<not> (first_week \<le> midnight (fst k) \<and> midnight (fst k) < current_week))
                            (weekly w1);
                          new = (if first_week < current_week
                            then weekly_from_hourly numeric_div zero now
                              (weekly_groups first_week current_week cutoff (hourly w1)) else []);
                          w2 = w1\<lparr>weekly := fold (\<lambda>(k, v). AList.update k v) new kept\<rparr>;
                          s = rollup w2
                      in if rs_version s = Some version \<and> (case rs_last_cutoff s of None \<Rightarrow> False | Some t \<Rightarrow> cutoff \<le> t)
                         then (Inr \<lparr>ac_hourly_rows = (case rows of None \<Rightarrow> 0 | Some rs \<Rightarrow> length rs),
                                 ac_weekly_rows = length new, ac_reconciliation = r\<rparr>,
                               w2\<lparr>rollup := s\<lparr>rs_last_reconciled := Some now, rs_active_version := Some version,
                                 rs_active_cutoff := Some cutoff, rs_active_published := Some now\<rparr>\<rparr>)
                         else (Inl (RollupValidationError ''rollup activation state changed''
                                 ''activation_state_changed''), w))"


section \<open>Lemmas on hours and weeks\<close>

lemma hour_pos: "0 < hours 1" and day_hours: "days 1 = 24 * hours 1" and hour_value: "hours 1 = 3600000000"
  by (simp_all add: hours_def days_def seconds_def)

definition aligned :: "instant \<Rightarrow> bool" where
  "aligned t \<longleftrightarrow> t mod hours 1 = 0"

lemma floor_hour_aligned [simp]: "aligned (floor_hour t)"
  by (simp add: aligned_def floor_hour_def minus_mod_eq_div_mult)

lemma floor_hour_le: "floor_hour t \<le> t" and floor_hour_gt: "t < floor_hour t + hours 1"
  using pos_mod_bound [OF hour_pos, of t] pos_mod_sign [OF hour_pos, of t] by (simp_all add: floor_hour_def)

lemma aligned_floor [simp]: "aligned t \<Longrightarrow> floor_hour t = t"
  by (simp add: aligned_def floor_hour_def)

lemma aligned_multiple: "aligned t \<longleftrightarrow> (\<exists>k. t = k * hours 1)"
  unfolding aligned_def by (metis dvd_def dvd_eq_mod_eq_0 mult.commute)

lemma aligned_add [simp]: "aligned s \<Longrightarrow> aligned t \<Longrightarrow> aligned (s + t)"
  unfolding aligned_def by (metis add.right_neutral mod_add_cong mod_0)

lemma aligned_diff [simp]: "aligned s \<Longrightarrow> aligned t \<Longrightarrow> aligned (s - t)"
  unfolding aligned_def by (metis diff_zero mod_diff_cong mod_0)

lemma aligned_times [simp]: "aligned (k * hours 1)"
  by (simp add: aligned_def)

lemma aligned_midnight [simp]: "aligned (midnight d)"
  unfolding midnight_def day_hours using aligned_times [of "d * 24"] by (simp add: mult.assoc)

lemma aligned_days [simp]: "aligned (days n)" "aligned (hours n)"
proof -
  have "days n = (n * 24) * hours 1" "hours n = n * hours 1" by (simp_all add: days_def hours_def seconds_def)
  then show "aligned (days n)" "aligned (hours n)" by (simp_all only: aligned_times)
qed

lemma aligned_min_max [simp]:
  "aligned s \<Longrightarrow> aligned t \<Longrightarrow> aligned (min s t)" "aligned s \<Longrightarrow> aligned t \<Longrightarrow> aligned (max s t)"
  by (simp_all add: min_def max_def)

text \<open>Flooring to the hour keeps the side of an aligned instant.\<close>

lemma aligned_le_floor: "aligned s \<Longrightarrow> s \<le> floor_hour t \<longleftrightarrow> s \<le> t"
proof
  assume s: "aligned s" and "s \<le> t"
  then obtain k where k: "s = k * hours 1" unfolding aligned_multiple by blast
  have "k * hours 1 div hours 1 \<le> t div hours 1" using \<open>s \<le> t\<close> hour_pos unfolding k by (rule zdiv_mono1)
  then have "k \<le> t div hours 1" using hour_pos by simp
  then have "k * hours 1 \<le> (t div hours 1) * hours 1" using hour_pos by (simp add: mult_right_mono)
  then show "s \<le> floor_hour t" by (simp add: k floor_hour_def minus_mod_eq_div_mult)
next
  assume "s \<le> floor_hour t"
  then show "s \<le> t" using floor_hour_le [of t] by simp
qed

lemma floor_less_aligned: "aligned s \<Longrightarrow> floor_hour t < s \<longleftrightarrow> t < s"
  using aligned_le_floor [of s t] by (simp add: not_le [symmetric])

lemma within_floor: "aligned a \<Longrightarrow> aligned b \<Longrightarrow> within a b (floor_hour t) = within a b t"
  by (simp add: within_def aligned_le_floor floor_less_aligned)

lemma week_of_floor [simp]: "iso_week_start (floor_hour t) = iso_week_start t"
proof -
  have "floor_hour t div days 1 = t div days 1"
  proof -
    define q where "q = t div days 1"
    have "t = q * days 1 + t mod days 1" by (simp add: q_def)
    moreover have "0 \<le> t mod days 1" "t mod days 1 < days 1"
      using pos_mod_bound [of "days 1" t] pos_mod_sign [of "days 1" t] by simp_all
    ultimately have "midnight q \<le> t" "t < midnight (q + 1)"
      unfolding midnight_def distrib_right by linarith+
    then have "midnight q \<le> floor_hour t" "floor_hour t < midnight (q + 1)"
      using aligned_le_floor [OF aligned_midnight] floor_less_aligned [OF aligned_midnight] by blast+
    then have "floor_hour t = q * days 1 + (floor_hour t - q * days 1)" "0 \<le> floor_hour t - q * days 1"
      "floor_hour t - q * days 1 < days 1"
      unfolding midnight_def distrib_right by linarith+
    then have "floor_hour t div days 1 = q"
      by (metis add.commute add_0 div_mult_self1 div_pos_pos_trivial less_irrefl days_pos zero_less_one)
    then show ?thesis by (simp add: q_def)
  qed
  then show ?thesis by (simp add: iso_week_start_def date_of_def)
qed

lemma buckets_mem:
  assumes "aligned s" and "aligned e"
  shows "b \<in> set (buckets s e) \<longleftrightarrow> aligned b \<and> within s e b"
proof
  obtain i j where ij: "s = i * hours 1" "e = j * hours 1" using assms unfolding aligned_multiple by blast
  have n: "(e - s) div hours 1 = j - i"
    unfolding ij using hour_pos by (simp add: left_diff_distrib [symmetric])
  {
    assume "b \<in> set (buckets s e)"
    then obtain k where k: "k < nat (j - i)" "b = s + int k * hours 1" unfolding buckets_def n by auto
    then have b: "b = (i + int k) * hours 1" unfolding ij by (simp add: distrib_right)
    have "i + int k < j" using k(1) by linarith
    then have "(i + int k) * hours 1 < j * hours 1" using hour_pos by (rule mult_strict_right_mono)
    moreover have "i * hours 1 \<le> (i + int k) * hours 1" using hour_pos by (simp add: mult_right_mono)
    ultimately show "aligned b \<and> within s e b" unfolding within_def ij b by simp
  next
    assume "aligned b \<and> within s e b"
    then obtain k where k: "b = k * hours 1" and "s \<le> b" "b < e" unfolding aligned_multiple within_def by blast
    then have "i \<le> k" "k < j"
      unfolding ij k using hour_pos by (auto dest: mult_right_le_imp_le mult_right_less_imp_less)
    then have "nat (k - i) < nat (j - i)" "b = s + int (nat (k - i)) * hours 1"
      unfolding ij k by (simp_all add: left_diff_distrib)
    then show "b \<in> set (buckets s e)" unfolding buckets_def n set_map
      by (intro image_eqI [of _ _ "nat (k - i)"]) simp_all
  }
qed


section \<open>Sums over a keyed table\<close>

lemma sum_where_table:
  "distinct (map fst t) \<Longrightarrow>
   sum_where (\<lambda>(h, v). P h) (\<lambda>(h, v). q v) t = (\<Sum>h\<in>{h \<in> fst ` set t. P h}. q (the (map_of t h)))"
proof (induction t)
  case (Cons x t)
  obtain k v where x: "x = (k, v)" by (cases x)
  have k: "k \<notin> fst ` set t" and IH: "sum_where (\<lambda>(h, v). P h) (\<lambda>(h, v). q v) t =
      (\<Sum>h\<in>{h \<in> fst ` set t. P h}. q (the (map_of t h)))" using Cons x by auto
  have "(\<Sum>h\<in>{h \<in> fst ` set t. P h}. q (the (map_of (x # t) h))) =
      (\<Sum>h\<in>{h \<in> fst ` set t. P h}. q (the (map_of t h)))"
    by (rule sum.cong) (use k x in auto)
  moreover have "{h \<in> fst ` set (x # t). P h} =
      (if P k then insert k {h \<in> fst ` set t. P h} else {h \<in> fst ` set t. P h})" by (auto simp: x)
  ultimately show ?case using k IH by (simp add: x)
qed simp

lemma sum_where_disjoint:
  assumes "finite X" and "\<And>x y f. Q x f \<Longrightarrow> Q y f \<Longrightarrow> x = y"
  shows "(\<Sum>x\<in>X. sum_where (Q x) w fs) = sum_where (\<lambda>f. \<exists>x\<in>X. Q x f) w fs"
proof (induction fs)
  case (Cons f fs)
  have one: "(\<Sum>x\<in>X. if Q x f then w f else 0) = (if \<exists>x\<in>X. Q x f then w f else 0)"
  proof (cases "\<exists>x\<in>X. Q x f")
    case True
    then obtain x where x: "x \<in> X" "Q x f" by blast
    have "(\<Sum>y\<in>X. if Q y f then w f else 0) = (\<Sum>y\<in>X. if y = x then w f else 0)"
      by (rule sum.cong) (use assms(2) x in auto)
    with x assms(1) show ?thesis by auto
  qed simp
  have "(\<Sum>x\<in>X. sum_where (Q x) w (f # fs)) = (\<Sum>x\<in>X. (if Q x f then w f else 0) + sum_where (Q x) w fs)"
    by (rule sum.cong) auto
  also have "\<dots> = (if \<exists>x\<in>X. Q x f then w f else 0) + sum_where (\<lambda>f. \<exists>x\<in>X. Q x f) w fs"
    by (simp add: sum.distrib one Cons.IH)
  finally show ?case by simp
qed simp

lemma map_of_upserts:
  "map_of (fold (\<lambda>r. AList.update (key r) (val r)) rows t) h =
     (case List.find (\<lambda>r. key r = h) (rev rows) of Some r \<Rightarrow> Some (val r) | None \<Rightarrow> map_of t h)"
  by (induction rows arbitrary: t) (auto simp: find_append map_of_upsert split: option.split)

lemma keys_upserts:
  "fst ` set (fold (\<lambda>r. AList.update (key r) (val r)) rows t) = key ` set rows \<union> fst ` set t"
  by (induction rows arbitrary: t) (auto simp: keys_upsert)

lemma distinct_upserts:
  "distinct (map fst t) \<Longrightarrow> distinct (map fst (fold (\<lambda>r. AList.update (key r) (val r)) rows t))"
  by (induction rows arbitrary: t) simp_all

section \<open>A published window reproduces its sources\<close>

text \<open>
  The stored rollups: one row for each hour and dimension, at whole hours, for dimensions that have a
  SKU. SKUs are never deleted and never change their client.
\<close>

definition rollup_table_ok :: "inventory_db \<Rightarrow> (hour_key \<times> hourly_cell) list \<Rightarrow> bool" where
  "rollup_table_ok d t \<longleftrightarrow> distinct (map fst t) \<and>
     (\<forall>h\<in>fst ` set t. aligned (fst h) \<and> snd h \<in> set (dimensions d))"

definition facts_ok :: "inventory_db \<Rightarrow> bool" where
  "facts_ok d \<longleftrightarrow> (\<forall>m. \<forall>f\<in>set (facts d m). fa_dimension f \<in> set (dimensions d))"

definition hour_total :: "inventory_db \<Rightarrow> rollup_window \<Rightarrow> hour_key \<Rightarrow> metrics" where
  "hour_total d win h = total d (\<lambda>f. within (rw_start win) (rw_end win) (fa_at f) \<and>
     floor_hour (fa_at f) = fst h \<and> fa_dimension f = snd h)"

lemma set_compute_hourly:
  "r \<in> set (compute_hourly_rollups d win) \<longleftrightarrow>
     (\<exists>b\<in>set (buckets (rw_start win) (rw_end win)). \<exists>k\<in>set (dimensions d).
        r = \<lparr>hr_bucket = b, hr_dimension = k, hr_metrics = hour_total d win (b, k)\<rparr>)"
  by (auto simp: compute_hourly_rollups_def hour_total_def)

lemma hour_keys_computed:
  "hour_key_of ` set (compute_hourly_rollups d win) =
     set (buckets (rw_start win) (rw_end win)) \<times> set (dimensions d)"
  unfolding set_eq_iff image_iff Bex_def set_compute_hourly by (force simp: hour_key_of_def)

lemma upsert_computed:
  assumes "h \<in> set (buckets (rw_start win) (rw_end win)) \<times> set (dimensions d)"
  shows "\<exists>v. map_of (upsert_hourly c n ver (compute_hourly_rollups d win) t) h = Some v \<and>
     hc_metrics v = hour_total d win h"
proof -
  let ?rows = "compute_hourly_rollups d win"
  have ex: "\<exists>r\<in>set ?rows. hour_key_of r = h" using assms hour_keys_computed by (metis imageE)
  have met: "hr_metrics r = hour_total d win h" if "r \<in> set ?rows" "hour_key_of r = h" for r
    using that by (auto simp: set_compute_hourly hour_key_of_def)
  obtain r where r: "List.find (\<lambda>r. hour_key_of r = h) (rev ?rows) = Some r"
    using ex by (cases "List.find (\<lambda>r. hour_key_of r = h) (rev ?rows)") (auto simp: find_None_iff)
  from find_Some_in [OF r] met show ?thesis
    by (simp add: upsert_hourly_def map_of_upserts r)
qed

lemma upsert_computed_ok:
  assumes "rollup_table_ok d t" and "aligned (rw_start win)" and "aligned (rw_end win)"
  shows "rollup_table_ok d (upsert_hourly c n ver (compute_hourly_rollups d win) t)"
  using assms unfolding rollup_table_ok_def upsert_hourly_def keys_upserts hour_keys_computed
  by (auto simp: distinct_upserts buckets_mem)

lemma actual_after_publish:
  assumes ok: "rollup_table_ok d t" and al: "aligned (rw_start win)" "aligned (rw_end win)"
    and ab: "aligned a" "aligned b" "rw_start win \<le> a" "b \<le> rw_end win" and fo: "facts_ok d"
  shows "actual (upsert_hourly c n ver (compute_hourly_rollups d win) t) a b k m = expected d a b k m"
proof -
  let ?t = "upsert_hourly c n ver (compute_hourly_rollups d win) t"
  obtain w dim where k: "k = (w, dim)" by (cases k)
  have ok1: "rollup_table_ok d ?t" by (rule upsert_computed_ok [OF ok al])
  have dist: "distinct (map fst ?t)" using ok1 by (simp add: rollup_table_ok_def)
  let ?H = "{h \<in> fst ` set ?t. within a b (fst h) \<and> week_key_of_cell h = k}"
  have act: "actual ?t a b k m = (\<Sum>h\<in>?H. hc_metrics (the (map_of ?t h)) m)"
    unfolding actual_def using sum_where_table [OF dist, of "\<lambda>h. within a b (fst h) \<and> week_key_of_cell h = k"
        "\<lambda>v. hc_metrics v m"] by simp
  show ?thesis
  proof (cases "dim \<in> set (dimensions d)")
    case False
    have "?H = {}" using ok1 False unfolding rollup_table_ok_def week_key_of_cell_def k by auto
    moreover have "expected d a b k m = 0"
      unfolding expected_def total_def
      by (rule sum_where_none) (use fo False in \<open>auto simp: facts_ok_def week_key_of_fact_def k\<close>)
    ultimately show ?thesis unfolding act by (simp only: sum.empty)
  next
    case True
    let ?X = "{x \<in> set (buckets a b). iso_week_start x = w}"
    have win: "within (rw_start win) (rw_end win) x" if "within a b x" for x
      using that ab(3,4) by (auto simp: within_def)
    have H: "?H = (\<lambda>x. (x, dim)) ` ?X"
    proof (intro equalityI subsetI)
      fix h assume h: "h \<in> ?H"
      then have "aligned (fst h)" using ok1 unfolding rollup_table_ok_def by blast
      then have "fst h \<in> ?X" "h = (fst h, dim)"
        using h by (auto simp: buckets_mem [OF ab(1,2)] week_key_of_cell_def k)
      then show "h \<in> (\<lambda>x. (x, dim)) ` ?X" by blast
    next
      fix h assume "h \<in> (\<lambda>x. (x, dim)) ` ?X"
      then obtain x where x: "h = (x, dim)" "aligned x" "within a b x" "iso_week_start x = w"
        by (auto simp: buckets_mem [OF ab(1,2)])
      then have "h \<in> hour_key_of ` set (compute_hourly_rollups d win)"
        unfolding hour_keys_computed using True win by (simp add: buckets_mem [OF al])
      then have "h \<in> fst ` set ?t" unfolding upsert_hourly_def keys_upserts by blast
      with x show "h \<in> ?H" by (simp add: week_key_of_cell_def k)
    qed
    have val: "hc_metrics (the (map_of ?t (x, dim))) m = hour_total d win (x, dim) m" if "x \<in> ?X" for x
    proof -
      have "(x, dim) \<in> set (buckets (rw_start win) (rw_end win)) \<times> set (dimensions d)"
        using that True win by (auto simp: buckets_mem [OF al] buckets_mem [OF ab(1,2)])
      from upsert_computed [OF this, of c n ver t] show ?thesis by auto
    qed
    have "actual ?t a b k m = (\<Sum>x\<in>?X. hour_total d win (x, dim) m)"
      unfolding act H by (subst sum.reindex) (simp_all add: inj_on_def val)
    also have "\<dots> = sum_where (\<lambda>f. \<exists>x\<in>?X. within (rw_start win) (rw_end win) (fa_at f) \<and>
        floor_hour (fa_at f) = x \<and> fa_dimension f = dim) (weight m) (facts d m)"
      unfolding hour_total_def total_def fst_conv snd_conv by (rule sum_where_disjoint) auto
    also have "\<dots> = expected d a b k m"
      unfolding expected_def total_def
    proof (rule sum_where_cong)
      fix f :: fact
      have "floor_hour (fa_at f) \<in> ?X \<longleftrightarrow> within a b (fa_at f) \<and> iso_week_start (fa_at f) = w"
        by (simp add: buckets_mem [OF ab(1,2)] within_floor [OF ab(1,2)])
      then show "(\<exists>x\<in>?X. within (rw_start win) (rw_end win) (fa_at f) \<and> floor_hour (fa_at f) = x \<and>
          fa_dimension f = dim) = (within a b (fa_at f) \<and> week_key_of_fact f = k)"
        using win by (auto simp: week_key_of_fact_def k)
    qed simp
    finally show ?thesis .
  qed
qed


lemma reconciliation_keys_complete:
  assumes "expected d a b k m \<noteq> 0 \<or> actual t a b k m \<noteq> 0"
  shows "k \<in> set (reconciliation_keys d t a b)"
proof -
  have src: "k \<in> set (reconciliation_keys d t a b)" if "expected d a b k m \<noteq> 0"
  proof -
    have "\<exists>f\<in>set (facts d m). within a b (fa_at f) \<and> week_key_of_fact f = k"
    proof (rule ccontr)
      assume "\<not> ?thesis"
      then have "expected d a b k m = 0" unfolding expected_def total_def by (intro sum_where_none) blast
      with that show False by simp
    qed
    then obtain f where f: "f \<in> set (facts d m)" "within a b (fa_at f)" "week_key_of_fact f = k" by blast
    have "\<exists>m'\<in>{InboundMovements, DispatchOrders, LossMovements, Stockouts, Discrepancies}. facts d m' = facts d m"
      by (cases m) (simp_all add: facts_def)
    then obtain m' where m': "m' \<in> {InboundMovements, DispatchOrders, LossMovements, Stockouts, Discrepancies}"
      "f \<in> set (facts d m')" using f(1) by metis
    then have "week_key_of_fact f \<in> set (concat (map (\<lambda>m. map week_key_of_fact
        (filter (\<lambda>f. within a b (fa_at f)) (facts d m)))
        [InboundMovements, DispatchOrders, LossMovements, Stockouts, Discrepancies]))"
      using m' f(2) unfolding set_concat set_map by (intro UN_I [of "map _ (filter _ (facts d m'))"]) auto
    then show ?thesis unfolding reconciliation_keys_def f(3) set_sort set_remdups set_append by (rule UnI1)
  qed
  have stored: "k \<in> set (reconciliation_keys d t a b)" if "actual t a b k m \<noteq> 0"
  proof -
    have "\<exists>x\<in>set t. (\<lambda>(h, v). within a b (fst h) \<and> week_key_of_cell h = k) x"
    proof (rule ccontr)
      assume "\<not> ?thesis"
      then have "actual t a b k m = 0" unfolding actual_def by (intro sum_where_none) blast
      with that show False by simp
    qed
    then obtain x where "x \<in> set t" "(\<lambda>(h, v). within a b (fst h) \<and> week_key_of_cell h = k) x" by blast
    then have "k \<in> (week_key_of_cell \<circ> fst) ` {x \<in> set t. case x of (h, v) \<Rightarrow> within a b (fst h)}"
      by (intro image_eqI [of _ _ x]) (auto split: prod.splits)
    then show ?thesis unfolding reconciliation_keys_def by simp
  qed
  show ?thesis using assms src stored by blast
qed

lemma exact_iff:
  "exact (reconciliation_result d t a b) \<longleftrightarrow>
     (\<forall>k. (\<forall>m. expected d a b k m = actual t a b k m) \<and> actual t a b k Discrepancies \<le> actual t a b k DispatchOrders)"
proof -
  have all: "m \<in> set METRICS" for m by (cases m) (simp_all add: METRICS_def)
  have nil: "differing e v = [] \<longleftrightarrow> (\<forall>m. e m = v m) \<and> v Discrepancies \<le> v DispatchOrders" for e v
    using all by (auto simp: differing_def filter_empty_conv)
  have ex: "exact (reconciliation_result d t a b) \<longleftrightarrow>
      (\<forall>k\<in>set (reconciliation_keys d t a b). differing (expected d a b k) (actual t a b k) = [])"
  proof -
    have one: "(case differing (expected d a b k) (actual t a b k) of [] \<Rightarrow> []
        | x # xs \<Rightarrow> [\<lparr>mm_week = fst k, mm_dimension = snd k, mm_metrics = x # xs\<rparr>]) = [] \<longleftrightarrow>
        differing (expected d a b k) (actual t a b k) = []" for k
      by (cases "differing (expected d a b k) (actual t a b k)") simp_all
    show ?thesis by (simp add: exact_def reconciliation_result_def Let_def one)
  qed
  show ?thesis
    unfolding ex nil
  proof (intro iffI allI ballI)
    fix k
    assume key: "\<forall>k\<in>set (reconciliation_keys d t a b). (\<forall>m. expected d a b k m = actual t a b k m) \<and>
        actual t a b k Discrepancies \<le> actual t a b k DispatchOrders"
    show "(\<forall>m. expected d a b k m = actual t a b k m) \<and> actual t a b k Discrepancies \<le> actual t a b k DispatchOrders"
    proof (cases "k \<in> set (reconciliation_keys d t a b)")
      case False
      then have "expected d a b k m = 0 \<and> actual t a b k m = 0" for m
        using reconciliation_keys_complete by blast
      then show ?thesis by simp
    qed (use key in blast)
  qed blast
qed

section \<open>Properties\<close>



lemma week_floor_monday: "isoweekday (iso_week_start t) = 1"
  unfolding iso_week_start_def isoweekday_def Let_def by presburger

lemma week_of_midnight: "isoweekday d = 1 \<Longrightarrow> iso_week_start (midnight d) = d"
proof -
  have "days 1 \<noteq> 0" by (simp add: days_def seconds_def)
  then show "isoweekday d = 1 \<Longrightarrow> iso_week_start (midnight d) = d"
    by (simp add: iso_week_start_def date_of_def midnight_def)
qed

lemma week_bounds: "midnight (iso_week_start t) \<le> t" "t < midnight (iso_week_start t) + days 7"
proof -
  define q where "q = t div days 1"
  have t: "t = q * days 1 + t mod days 1" by (simp add: q_def)
  have m: "0 \<le> t mod days 1" "t mod days 1 < days 1"
    using pos_mod_bound [of "days 1" t] pos_mod_sign [of "days 1" t] by simp_all
  define j where "j = isoweekday q - 1"
  have j: "0 \<le> j" "j \<le> 6" unfolding j_def isoweekday_def by simp_all
  have w: "midnight (iso_week_start t) = q * days 1 - j * days 1"
    unfolding midnight_def iso_week_start_def date_of_def Let_def q_def [symmetric] j_def left_diff_distrib ..
  have "j * days 1 \<le> 6 * days 1" "0 \<le> j * days 1" using j by (simp_all add: days_def)
  moreover have "days 7 = 7 * days 1" by (simp add: days_def seconds_def)
  ultimately show "midnight (iso_week_start t) \<le> t" "t < midnight (iso_week_start t) + days 7"
    using t m unfolding w by linarith+
qed

text \<open>
  Weeks that start in \<open>[first_whole_week a, week_floor b)\<close> lie in \<open>[a, b)\<close>.
\<close>

lemma week_before:
  assumes "midnight (iso_week_start t) < week_floor b"
  shows "midnight (iso_week_start t) + days 7 \<le> week_floor b" and "t < week_floor b"
proof -
  have lt: "iso_week_start t < iso_week_start b"
    using assms unfolding week_floor_def midnight_def by (simp add: mult_less_cancel_right days_def)
  have "(iso_week_start b - iso_week_start t) mod 7 = 0"
    using week_floor_monday [of t] week_floor_monday [of b] unfolding isoweekday_def by presburger
  with lt have "iso_week_start t + 7 \<le> iso_week_start b" by presburger
  then show "midnight (iso_week_start t) + days 7 \<le> week_floor b"
    unfolding week_floor_def midnight_def by (simp add: days_def seconds_def)
  then show "t < week_floor b" using week_bounds(2) [of t] by linarith
qed

lemma week_after:
  assumes "week_floor b \<le> t"
  shows "week_floor b \<le> midnight (iso_week_start t)"
proof -
  have "iso_week_start b \<le> iso_week_start t"
  proof (rule ccontr)
    assume "\<not> iso_week_start b \<le> iso_week_start t"
    then have "midnight (iso_week_start t) < week_floor b"
      unfolding week_floor_def midnight_def by (simp add: days_def)
    from week_before(2) [OF this] assms show False by simp
  qed
  then show ?thesis unfolding week_floor_def midnight_def by (simp add: days_def)
qed

lemma first_whole_week_floor: "\<exists>x. first_whole_week a = week_floor x" and first_whole_week_ge: "a \<le> first_whole_week a"
proof -
  have "week_floor (week_floor a + days 7) = week_floor a + days 7"
  proof -
    have "iso_week_start a + 7 = iso_week_start (midnight (iso_week_start a + 7))"
      using week_of_midnight [of "iso_week_start a + 7"] week_floor_monday [of a]
      by (simp add: isoweekday_def) presburger
    moreover have "week_floor a + days 7 = midnight (iso_week_start a + 7)"
      unfolding week_floor_def midnight_def by (simp add: days_def seconds_def)
    ultimately show ?thesis unfolding week_floor_def by simp
  qed
  then show "\<exists>x. first_whole_week a = week_floor x" unfolding first_whole_week_def by (metis (full_types))
  show "a \<le> first_whole_week a"
    using week_bounds(2) [of a] by (simp add: first_whole_week_def week_floor_def)
qed

lemma whole_week_inside:
  assumes "first_whole_week a \<le> midnight (iso_week_start t)" and "midnight (iso_week_start t) < week_floor b"
  shows "within a b t"
proof -
  have "week_floor b \<le> b" using week_bounds(1) by (simp add: week_floor_def)
  then show ?thesis
    using first_whole_week_ge [of a] assms(1) week_bounds(1) [of t] week_before(2) [OF assms(2)]
    unfolding within_def by linarith
qed

lemma weekly_fold_mem:
  assumes "distinct (map fst kept)" and "fst ` set new \<inter> fst ` set kept = {}" and "distinct (map fst new)"
  shows "set (fold (\<lambda>(k, v). AList.update k v) new kept) = set new \<union> set kept"
  using assms
proof (induction new arbitrary: kept)
  case (Cons x new)
  obtain k v where x: "x = (k, v)" by (cases x)
  have k: "k \<notin> fst ` set kept" "k \<notin> fst ` set new" using Cons.prems x by auto
  have upd: "AList.update k v kept = kept @ [(k, v)]"
    using k(1) by (induction kept) auto
  have "set (fold (\<lambda>(k, v). AList.update k v) new (kept @ [(k, v)])) = set new \<union> set (kept @ [(k, v)])"
    by (rule Cons.IH) (use Cons.prems k x in auto)
  then show ?case by (simp add: x upd)
qed simp

definition weekly_ok :: "(week_key \<times> 'r weekly_cell) list \<Rightarrow> bool" where
  "weekly_ok t \<longleftrightarrow> distinct (map fst t) \<and> (\<forall>k\<in>fst ` set t. isoweekday (fst k) = 1)"


text \<open>The sums of a served week, from the stored hours and from the sources.\<close>

lemma served_week_total:
  assumes ex: "exact (reconciliation_result d t a b)" and cut: "\<forall>(h, v)\<in>set t. hc_cutoff v \<le> cutoff"
    and fst: "first = first_whole_week a" and cur: "current = week_floor x" "current \<le> week_floor b"
    and k: "first \<le> midnight (fst k)" "midnight (fst k) < current"
  shows "sum_where (\<lambda>(h, v). week_key_of_cell h = k) (\<lambda>(h, v). hc_metrics v m) (weekly_groups first current cutoff t) =
    total d (\<lambda>f. week_key_of_fact f = k) m"
proof -
  obtain w dim where kk: "k = (w, dim)" by (cases k)
  have inside: "within a b u" "within first current u" if "iso_week_start u = w" for u
  proof -
    have 1: "first \<le> midnight (iso_week_start u)" "midnight (iso_week_start u) < current" using k that by (simp_all add: kk)
    show "within a b u" by (rule whole_week_inside) (use 1 cur fst in auto)
    show "within first current u"
      using 1 week_bounds(1) [of u] week_before(2) [of u x] unfolding within_def cur(1) by linarith
  qed
  have "sum_where (\<lambda>(h, v). week_key_of_cell h = k) (\<lambda>(h, v). hc_metrics v m) (weekly_groups first current cutoff t) =
      actual t a b k m"
    unfolding weekly_groups_def sum_where_filter actual_def
  proof (rule sum_where_cong)
    fix y assume "y \<in> set t"
    moreover obtain h v where y: "y = (h, v)" by (cases y)
    ultimately have "hc_cutoff v \<le> cutoff" using cut by auto
    then show "((case y of (h, v) \<Rightarrow> within first current (fst h) \<and> hc_cutoff v \<le> cutoff) \<and>
        (case y of (h, v) \<Rightarrow> week_key_of_cell h = k)) = (case y of (h, v) \<Rightarrow> within a b (fst h) \<and> week_key_of_cell h = k)"
      using inside by (auto simp: y week_key_of_cell_def kk)
  qed simp
  also have "\<dots> = expected d a b k m" using ex unfolding exact_iff by metis
  also have "\<dots> = total d (\<lambda>f. week_key_of_fact f = k) m"
    unfolding expected_def total_def
    by (rule sum_where_cong) (use inside in \<open>auto simp: week_key_of_fact_def kk\<close>)
  finally show ?thesis .
qed

lemma weekly_new_keys:
  "fst ` set (weekly_from_hourly nd z now g) = week_key_of_cell ` fst ` set g"
  "distinct (map fst (weekly_from_hourly nd z now g))"
  by (auto simp: weekly_from_hourly_def image_image comp_def)

lemma weekly_new_range:
  assumes "first = first_whole_week a" and "current = week_floor x"
    and "k \<in> fst ` set (weekly_from_hourly nd z now (weekly_groups first current cutoff t))"
  shows "isoweekday (fst k) = 1" and "first \<le> midnight (fst k)" and "midnight (fst k) < current"
proof -
  obtain h where h: "k = week_key_of_cell h" "within first current (fst h)"
    using assms(3) unfolding weekly_new_keys by (auto simp: weekly_groups_def)
  show "isoweekday (fst k) = 1" by (simp add: h week_key_of_cell_def week_floor_monday)
  obtain y where y: "first = week_floor y" using first_whole_week_floor assms(1) by blast
  show "first \<le> midnight (fst k)"
    using week_after [of y "fst h"] h(2) by (simp add: h(1) week_key_of_cell_def within_def y)
  show "midnight (fst k) < current"
    using week_bounds(1) [of "fst h"] h(2) by (simp add: h(1) week_key_of_cell_def within_def)
qed

lemma sum_where_positive:
  assumes "x \<in> set xs" and "P x" and "\<And>y. 0 < (q y :: int)"
  shows "0 < sum_where P q xs"
  using assms(1)
proof (induction xs)
  case (Cons y ys)
  have "0 \<le> sum_where P q ys" by (rule sum_where_nonneg) (use assms(3) less_imp_le in blast)
  moreover have "0 < q y" by (rule assms(3))
  ultimately show ?case using Cons assms(2) by auto
qed simp

text \<open>Every source row of a served week has its weekly row.\<close>

lemma served_week_present:
  assumes ex: "exact (reconciliation_result d t a b)" and cut: "\<forall>(h, v)\<in>set t. hc_cutoff v \<le> cutoff"
    and fst: "first = first_whole_week a" and cur: "current = week_floor x" "current \<le> week_floor b"
    and f: "f \<in> set (facts d m)" "first \<le> midnight (iso_week_start (fa_at f))"
      "midnight (iso_week_start (fa_at f)) < current"
  shows "week_key_of_fact f \<in> fst ` set (weekly_from_hourly nd z now (weekly_groups first current cutoff t))"
proof -
  let ?k = "week_key_of_fact f" and ?g = "weekly_groups first current cutoff t"
  define m' where "m' = (case m of InboundUnits \<Rightarrow> InboundMovements | DispatchUnits \<Rightarrow> DispatchOrders
      | LossUnits \<Rightarrow> LossMovements | _ \<Rightarrow> m)"
  have m': "facts d m' = facts d m" "weight m' = (\<lambda>f. 1)"
    by (cases m; simp add: m'_def facts_def weight_def fun_eq_iff)+
  have k: "first \<le> midnight (fst ?k)" "midnight (fst ?k) < current" using f(2,3) by (simp_all add: week_key_of_fact_def)
  have "0 < total d (\<lambda>f. week_key_of_fact f = ?k) m'"
    unfolding total_def m' by (rule sum_where_positive [OF f(1)]) simp_all
  then have pos: "0 < sum_where (\<lambda>(h, v). week_key_of_cell h = ?k) (\<lambda>(h, v). hc_metrics v m') ?g"
    using served_week_total [OF ex cut fst cur k, of m'] by simp
  have "\<exists>y\<in>set ?g. (\<lambda>(h, v). week_key_of_cell h = ?k) y"
  proof (rule ccontr)
    assume "\<not> ?thesis"
    then have "sum_where (\<lambda>(h, v). week_key_of_cell h = ?k) (\<lambda>(h, v). hc_metrics v m') ?g = 0"
      by (intro sum_where_none) blast
    with pos show False by simp
  qed
  then obtain h v where "(h, v) \<in> set ?g" "week_key_of_cell h = ?k" by auto
  then show ?thesis unfolding weekly_new_keys by force
qed


text \<open>What a successful activation did.\<close>

lemma if_raise: "(if \<not> P then (Inl e, c) else r) = (Inr x, y) \<Longrightarrow> P \<and> r = (Inr x, y)"
  and if_answer: "(if P then (Inr a, b) else (Inl e, c)) = (Inr x, y) \<Longrightarrow> P \<and> a = x \<and> b = y"
  by (simp_all split: if_splits)

lemma activate_Inr:
  assumes "activate_reconciled_rollups nd z c win rows v now w = (Inr ac, w')"
  obtains w1 start_at reconcile_end where
    "claim_is_owned c (queue_db w)" and "source_db w1 = source_db w" and "queue_db w1 = queue_db w"
    and "weekly w1 = weekly w"
    and "hourly w1 = (case rows of None \<Rightarrow> hourly w | Some rs \<Rightarrow> upsert_hourly (rw_cutoff win) now v rs (hourly w))"
    and "reconciliation_bounds (floor_hour (rw_cutoff win)) w1 = Inr (start_at, reconcile_end)"
    and "exact (reconciliation_result (source_db w) (hourly w1) start_at reconcile_end)"
    and "source_db w' = source_db w" and "queue_db w' = queue_db w" and "hourly w' = hourly w1"
    and "rs_active_cutoff (rollup w') = Some (floor_hour (rw_cutoff win))"
    and "weekly w' = (let first_week = first_whole_week start_at;
           current_week = min (week_floor (floor_hour (rw_cutoff win))) (week_floor reconcile_end) in
         fold (\<lambda>(k, v). AList.update k v)
          (if first_week < current_week then weekly_from_hourly nd z now
              (weekly_groups first_week current_week (floor_hour (rw_cutoff win)) (hourly w1)) else [])
          (filter (\<lambda>(k, v). \<not> (first_week \<le> midnight (fst k) \<and> midnight (fst k) < current_week)) (weekly w)))"
proof -
  let ?cutoff = "floor_hour (rw_cutoff win)"
  define w1 where "w1 = (case rows of None \<Rightarrow> w | Some rs \<Rightarrow> w\<lparr>hourly := upsert_hourly (rw_cutoff win) now v rs (hourly w),
      rollup := advance_cursor ?cutoff now v (rollup w)\<rparr>)"
  have own: "claim_is_owned c (queue_db w)"
    using assms unfolding activate_reconciled_rollups_def verify_claim_for_publication_def
    by (simp add: Let_def split: if_splits)
  then have ver: "verify_claim_for_publication c (queue_db w) = Inr ()" by (simp add: verify_claim_for_publication_def)
  note res0 = assms [unfolded activate_reconciled_rollups_def ver Let_def sum.case, folded w1_def]
  obtain a b where ab: "reconciliation_bounds ?cutoff w1 = Inr (a, b)"
    using res0 by (cases "reconciliation_bounds ?cutoff w1") auto
  note res = res0 [unfolded ab sum.case prod.case]
  have f1: "source_db w1 = source_db w" "queue_db w1 = queue_db w" "weekly w1 = weekly w"
    "hourly w1 = (case rows of None \<Rightarrow> hourly w | Some rs \<Rightarrow> upsert_hourly (rw_cutoff win) now v rs (hourly w))"
    by (simp_all add: w1_def split: option.split)
  have ex: "exact (reconciliation_result (source_db w1) (hourly w1) a b)"
    using if_raise [OF res] by blast
  note w' = if_answer [OF conjunct2 [OF if_raise [OF res]]]
  show thesis
    by (rule that [of w1 a b, OF own f1 ab ex [unfolded f1(1)]])
      (simp_all del: min_less_iff_conj add: w' [THEN conjunct2, THEN conjunct2, symmetric] f1(1-3) Let_def)
qed




text \<open>
  The window of a run is made of completed hours and leaves no gap. It starts and ends on whole
  hours, ends at the last completed hour at most, and never reaches behind a ledger reset; a run for
  one week stays in that week; and a scheduled run covers every hour up to the cutoff that no earlier
  publication covered: all since the previous cutoff, or since the first source row when there is none.
\<close>

theorem rollup_window_covers:
  assumes "capture_rollup_window c now w = Inr win"
  shows "rw_cutoff win = floor_hour now \<and> rw_cutoff win \<le> now \<and> now < rw_cutoff win + hours 1 \<and>
    aligned (rw_start win) \<and> aligned (rw_end win) \<and> rw_start win < rw_end win \<and> rw_end win \<le> rw_cutoff win \<and>
    (\<forall>t. last_reset_at (queue_db w) = Some t \<longrightarrow> floor_hour t \<le> rw_start win) \<and>
    (\<forall>week. rc_week c = Some week \<longrightarrow> midnight week \<le> rw_start win \<and> rw_end win \<le> midnight week + days 7) \<and>
    (rc_week c = None \<longrightarrow> (\<forall>h. h < rw_cutoff win \<longrightarrow>
       (case rs_last_cutoff (rollup w) of Some l \<Rightarrow> l \<le> h
        | None \<Rightarrow> \<exists>t\<in>set (source_instants (source_db w)). t \<le> h) \<longrightarrow>
       (\<forall>t. last_reset_at (queue_db w) = Some t \<longrightarrow> t \<le> h) \<longrightarrow> within (rw_start win) (rw_end win) h))"
proof -
  let ?cut = "floor_hour now"
  define s0 where "s0 = (case rc_week c of Some week \<Rightarrow> midnight week
     | None \<Rightarrow> (case rs_last_cutoff (rollup w) of
           Some t \<Rightarrow> min (floor_hour t) (?cut - hours TRAILING_RECOMPUTE_HOURS)
         | None \<Rightarrow> (case source_floor (source_db w) of
              None \<Rightarrow> ?cut - hours TRAILING_RECOMPUTE_HOURS | Some t \<Rightarrow> floor_hour t)))"
  define e0 where "e0 = (case rc_week c of Some week \<Rightarrow> min (midnight week + days 7) ?cut | None \<Rightarrow> ?cut)"
  define s1 where "s1 = (case last_reset_at (queue_db w) of None \<Rightarrow> s0 | Some t \<Rightarrow> max s0 (floor_hour t))"
  have cap: "capture_rollup_window c now w = (if e0 \<le> s1
         then Inl (RollupValidationError ''rollup window contains no completed UTC hour'' ''empty_rollup_window'')
         else Inr \<lparr>rw_start = s1, rw_end = e0, rw_cutoff = ?cut, rw_scanned = count_source_rows (source_db w) s1 e0\<rparr>)"
    unfolding capture_rollup_window_def s0_def e0_def s1_def Let_def
    by (cases "rc_week c"; cases "rs_last_cutoff (rollup w)"; cases "last_reset_at (queue_db w)") simp_all
  have win: "rw_start win = s1" "rw_end win = e0" "rw_cutoff win = ?cut" and lt: "s1 < e0"
    using assms unfolding cap by (auto split: if_splits)
  have al: "aligned s0" "aligned e0" "aligned s1" "e0 \<le> ?cut"
    unfolding s0_def e0_def s1_def by (auto split: option.splits simp: s0_def)
  have minle: "\<exists>m. source_floor (source_db w) = Some m \<and> m \<le> t" if "t \<in> set (source_instants (source_db w))" for t
  proof -
    have le: "fold min ts a \<le> (a::int) \<and> (\<forall>x\<in>set ts. fold min ts a \<le> x)" for ts a
    proof (induction ts arbitrary: a)
      case (Cons x ts)
      show ?case using Cons.IH [of "min x a"] by auto
    qed simp
    from that obtain a ts where ts: "source_instants (source_db w) = a # ts"
      by (cases "source_instants (source_db w)") auto
    have "fold min ts a \<le> t" using that le [of ts a] unfolding ts by auto
    then show ?thesis by (simp add: source_floor_def ts)
  qed
  have cover: "within s1 e0 h" if none: "rc_week c = None" and h: "h < ?cut"
    and since: "case rs_last_cutoff (rollup w) of Some l \<Rightarrow> l \<le> h
        | None \<Rightarrow> \<exists>t\<in>set (source_instants (source_db w)). t \<le> h"
    and reset: "\<forall>t. last_reset_at (queue_db w) = Some t \<longrightarrow> t \<le> h" for h
  proof -
    have "s0 \<le> h"
    proof (cases "rs_last_cutoff (rollup w)")
      case None
      with since obtain t where t: "t \<in> set (source_instants (source_db w))" "t \<le> h" by auto
      from minle [OF t(1)] obtain m where "source_floor (source_db w) = Some m" "m \<le> t" by blast
      with t(2) have "source_floor (source_db w) = Some m" "m \<le> h" by simp_all
      then show ?thesis using None none floor_hour_le [of m] by (simp add: s0_def)
    next
      case (Some l)
      then show ?thesis using none since floor_hour_le [of l] by (simp add: s0_def min_def)
    qed
    moreover have "floor_hour t \<le> h" if "last_reset_at (queue_db w) = Some t" for t
      using reset that floor_hour_le [of t] by force
    ultimately show ?thesis using none h by (auto simp: within_def s1_def e0_def split: option.split)
  qed
  have rst: "floor_hour t \<le> s1" if "last_reset_at (queue_db w) = Some t" for t
    using that by (simp add: s1_def)
  have wk: "midnight week \<le> s1 \<and> e0 \<le> midnight week + days 7" if "rc_week c = Some week" for week
    using that by (auto simp: s1_def s0_def e0_def split: option.split)
  show ?thesis
    unfolding win using floor_hour_le [of now] floor_hour_gt [of now] al lt cover rst wk by blast
qed


section \<open>A worked example\<close>

text \<open>
  One SKU with an entry and a dispatch in the week of Monday 2024-09-30 (day 19996), one of each in its
  first and its last hour, and the two stored hours.
\<close>

definition rollup_sku :: sku where
  "rollup_sku = \<lparr>sku_id = 1, sku_name = ''box'', sku_code = ''B-1'', sku_client_id = ''c1'', sku_min_threshold = 0,
     sku_category = Fashion, sku_warehouse = LA\<rparr>"

definition rollup_source :: inventory_db where
  "rollup_source = \<lparr>clients = [], skus = [rollup_sku],
     entries = [\<lparr>en_id = 1, en_sku_id = 1, en_quantity = 7, en_reference = ''r'', en_warehouse = LA,
       en_created_at = midnight 19996 + 5, en_user_uuid = ''u''\<rparr>],
     exits = [\<lparr>ex_id = 1, ex_sku_id = 1, ex_quantity = 2, ex_type = Dispatch, ex_tracking = Some ''t'',
       ex_warehouse = LA, ex_created_at = midnight 20003 - 9, ex_user_uuid = ''u''\<rparr>],
     stockouts = [], discrepancies = [], balances = [], checkpoints = [], next_sku = 2, next_entry = 2,
     next_exit = 2, next_stockout = 1, next_discrepancy = 1\<rparr>"

definition rollup_run :: pipeline_run where
  "rollup_run = (new_run ''r1'' Cli ''cli'' 0)\<lparr>pr_status := Running, pr_attempt := 1, pr_token := Some ''t1'',
     pr_started_at := Some 0, pr_lease_expires_at := Some 100\<rparr>"

definition rollup_claim :: run_claim where
  "rollup_claim = \<lparr>rc_run = ''r1'', rc_token = ''t1'', rc_trigger = Cli, rc_week = None, rc_target_weeks = [],
     rc_attempt = 1\<rparr>"

definition hours_metrics :: "(metric \<times> int) list \<Rightarrow> metrics" where
  "hours_metrics xs m = coalesce (map_of xs m) 0"

definition rollup_hours :: "(hour_key \<times> hourly_cell) list" where
  "rollup_hours =
    [((midnight 19996, LA, ''c1''), \<lparr>hc_metrics = hours_metrics [(InboundMovements, 1), (InboundUnits, 7)],
        hc_cutoff = midnight 20003, hc_computed_at = 0, hc_version = ''v''\<rparr>),
     ((midnight 20003 - hours 1, LA, ''c1''), \<lparr>hc_metrics = hours_metrics [(DispatchOrders, 1), (DispatchUnits, 2)],
        hc_cutoff = midnight 20003, hc_computed_at = 0, hc_version = ''v''\<rparr>)]"

definition rollup_world :: "(int \<times> int) reporting" where
  "rollup_world = \<lparr>source_db = rollup_source,
     queue_db = \<lparr>runs = [rollup_run], attempts = [], heartbeats = [], last_reset_at = None\<rparr>,
     hourly = rollup_hours,
     rollup = \<lparr>rs_version = Some ''v'', rs_last_cutoff = Some (midnight 20003), rs_last_published = None,
       rs_last_reconciled = None, rs_active_version = None, rs_active_cutoff = None, rs_active_published = None\<rparr>,
     weekly = []\<rparr>"

definition example_window :: rollup_window where
  "example_window = \<lparr>rw_start = midnight 19996, rw_end = midnight 20003, rw_cutoff = midnight 20003, rw_scanned = 2\<rparr>"


theorem rollup_window_witness:
  "\<exists>win. capture_rollup_window rollup_claim (midnight 20003 + 7) rollup_world = Inr win \<and>
     rw_start win = midnight 20003 - hours 72 \<and> rw_end win = midnight 20003 \<and>
     within (rw_start win) (rw_end win) (midnight 20003 - 1)"
proof -
  let ?win = "\<lparr>rw_start = midnight 20003 - hours 72, rw_end = midnight 20003, rw_cutoff = midnight 20003, rw_scanned = 1\<rparr>"
  have c: "capture_rollup_window rollup_claim (midnight 20003 + 7) rollup_world = Inr ?win" by code_simp
  have "rw_start ?win < rw_end ?win" "rw_end ?win \<le> rw_cutoff ?win"
    using rollup_window_covers [OF c] by blast+
  with c show ?thesis by (simp add: within_def hours_def seconds_def)
qed



text \<open>
  A late discrepancy stops every publication. A discrepancy may be recorded long after its
  dispatch; when the week it is detected in has no dispatch of the same warehouse and client, then
  whatever hours are stored, reconciling an interval that contains it finds a mismatch, which is what
  \<open>activate_reconciled_rollups\<close> answers with an exception.
\<close>

theorem late_discrepancy_blocks:
  assumes "f \<in> set (facts d Discrepancies)" and "within a b (fa_at f)"
    and "\<forall>g\<in>set (facts d DispatchOrders). week_key_of_fact g \<noteq> week_key_of_fact f"
  shows "\<not> exact (reconciliation_result d t a b)"
proof
  let ?k = "week_key_of_fact f"
  assume "exact (reconciliation_result d t a b)"
  then have eq: "expected d a b ?k m = actual t a b ?k m" and le: "actual t a b ?k Discrepancies \<le> actual t a b ?k DispatchOrders"
    for m unfolding exact_iff by blast+
  have "expected d a b ?k DispatchOrders = 0"
    unfolding expected_def total_def by (rule sum_where_none) (use assms(3) in blast)
  moreover have "0 < expected d a b ?k Discrepancies"
    unfolding expected_def total_def
    by (rule sum_where_positive [OF assms(1)]) (use assms(2) in \<open>simp_all add: weight_def\<close>)
  ultimately show False using le unfolding eq [symmetric] by simp
qed

definition late_source :: inventory_db where
  "late_source = rollup_source\<lparr>discrepancies := [\<lparr>di_id = 1, di_stock_exit_id = 1, di_sku_id = 1, di_warehouse = LA,
     di_client_id = ''c1'', di_quantity_delta = 1, di_source = Feed, di_detected_at = midnight 20003 + 9,
     di_user_uuid = None\<rparr>]\<rparr>"

theorem late_discrepancy_witness:
  "\<not> exact (reconciliation_result late_source rollup_hours (midnight 19996) (midnight 20004))"
proof -
  let ?f = "\<lparr>fa_at = midnight 20003 + 9, fa_dimension = (LA, ''c1''), fa_quantity = 1\<rparr>"
  have f: "?f \<in> set (facts late_source Discrepancies)"
    by (simp add: facts_def discrepancy_facts_def late_source_def)
  have w: "within (midnight 19996) (midnight 20004) (fa_at ?f)"
    by (simp add: within_def midnight_def days_def seconds_def)
  have "list_all (\<lambda>g. week_key_of_fact g \<noteq> week_key_of_fact ?f) (facts late_source DispatchOrders)"
    by code_simp
  then show ?thesis using late_discrepancy_blocks [OF f w] unfolding list_all_iff by blast
qed

end
