(* ===== verification/ReportQueueSystem.thy ===== *)
theory ReportQueueSystem
  imports ReportQueue
begin

text \<open>
  The queue as a state machine: the invariant of its tables, the step relation of everything that
  writes them, and the properties of the queue. The state carries the claims that were handed out,
  so that a worker which lost its lease can be said to still hold one.
\<close>

section \<open>Invariant\<close>

definition row_ok :: "int \<Rightarrow> pipeline_run \<Rightarrow> bool" where
  "row_ok M r \<longleftrightarrow> pr_pipeline r = PIPELINE_NAME \<and>
     (pr_status r = Running \<longleftrightarrow> pr_token r \<noteq> None) \<and>
     (pr_status r = Running \<longrightarrow> pr_started_at r \<noteq> None \<and> pr_lease_expires_at r \<noteq> None) \<and>
     (pr_status r = Requested \<longleftrightarrow> pr_attempt r = 0) \<and> 0 \<le> pr_attempt r \<and> pr_attempt r \<le> M \<and>
     (pr_status r = Retryable \<longrightarrow> pr_attempt r < M \<and> pr_next_attempt_at r \<noteq> None) \<and>
     (pr_status r = Failed \<or> pr_status r = Succeeded \<longrightarrow> pr_finished_at r \<noteq> None)"

text \<open>Every attempt that ended has its evidence; the attempt under way has none.\<close>

definition has_evidence :: "report_db \<Rightarrow> uuid \<Rightarrow> int \<Rightarrow> bool" where
  "has_evidence d i n \<longleftrightarrow> (\<exists>a\<in>set (attempts d). at_run a = i \<and> at_number a = n)"

definition evidence_ok :: "report_db \<Rightarrow> pipeline_run \<Rightarrow> bool" where
  "evidence_ok d r \<longleftrightarrow> (\<forall>n. has_evidence d (pr_id r) n \<longleftrightarrow>
     1 \<le> n \<and> n \<le> pr_attempt r \<and> \<not> (pr_status r = Running \<and> n = pr_attempt r))"

definition unique_rows :: "report_db \<Rightarrow> bool" where
  "unique_rows d \<longleftrightarrow> distinct (map pr_id (runs d)) \<and>
     (\<forall>r\<in>set (runs d). \<forall>s\<in>set (runs d).
        (pr_status r = Running \<and> pr_status s = Running \<or>
         pending_manual r \<and> pending_manual s \<and> week_slot (pr_week r) = week_slot (pr_week s) \<or>
         same_slot r s) \<longrightarrow> pr_id r = pr_id s)"

definition attempts_ok :: "report_db \<Rightarrow> bool" where
  "attempts_ok d \<longleftrightarrow> distinct (map (\<lambda>a. (at_run a, at_number a)) (attempts d)) \<and>
     (\<forall>a\<in>set (attempts d). at_error_code a \<noteq> Some MAX_ATTEMPTS_EXCEEDED \<and> 0 \<le> at_duration_ms a \<and>
        at_run a \<in> pr_id ` set (runs d))"

definition claims_ok :: "run_claim set \<Rightarrow> report_db \<Rightarrow> bool" where
  "claims_ok C d \<longleftrightarrow> (\<forall>c\<in>C. \<forall>r\<in>set (runs d). owns c r \<longrightarrow> rc_attempt c = pr_attempt r)"

definition queue_ok :: "int \<Rightarrow> report_db \<times> run_claim set \<Rightarrow> bool" where
  "queue_ok M x \<longleftrightarrow> (case x of (d, C) \<Rightarrow> unique_rows d \<and> attempts_ok d \<and> claims_ok C d \<and>
     (\<forall>r\<in>set (runs d). row_ok M r \<and> evidence_ok d r))"

section \<open>Rewriting one row\<close>

text \<open>What an update of one row may not touch.\<close>

definition same_request :: "pipeline_run \<Rightarrow> pipeline_run \<Rightarrow> bool" where
  "same_request r s \<longleftrightarrow> pr_id s = pr_id r \<and> pr_pipeline s = pr_pipeline r \<and> pr_trigger s = pr_trigger r \<and>
     pr_business_date s = pr_business_date r \<and> pr_scheduled_for s = pr_scheduled_for r \<and>
     pr_week s = pr_week r \<and> pr_nonce s = pr_nonce r"

lemma same_request_simps [simp]:
  "same_request r (clear_claim r)" "same_request r (fail_row t c r)" "same_request r (retry_row t u c r)"
  "same_request r (release_row t n m b c r)" "same_request r (claim_row t v k l r)"
  "same_request r (r\<lparr>pr_target_weeks := w\<rparr>)" "same_request r r"
  "same_request r (r\<lparr>pr_stage := sg, pr_stage_started_at := st\<rparr>)"
  "same_request r (r\<lparr>pr_heartbeat_at := h, pr_lease_expires_at := l'\<rparr>)"
  by (simp_all add: same_request_def clear_claim_def fail_row_def retry_row_def release_row_def claim_row_def)

lemma same_request_trans: "same_request r s \<Longrightarrow> same_request s t \<Longrightarrow> same_request r t"
  by (simp add: same_request_def)

lemma same_slot_request: "same_request r r' \<Longrightarrow> same_request s s' \<Longrightarrow> same_slot r' s' = same_slot r s"
  by (simp add: same_request_def same_slot_def)

lemma pending_request: "same_request r r' \<Longrightarrow> pr_status r' = Requested \<longrightarrow> pr_status r = Requested \<Longrightarrow>
    pending_manual r' \<Longrightarrow> pending_manual r"
  by (simp add: same_request_def pending_manual_def)

lemma runs_update: "s \<in> set (runs (update_runs P f d)) \<longleftrightarrow>
    (\<exists>r\<in>set (runs d). s = (if P r then f r else r))"
  by (auto simp: update_runs_def)

lemma unique_rows_update:
  assumes "unique_rows d" and "\<And>r. same_request r (f r)"
    and "\<And>r. r \<in> set (runs d) \<Longrightarrow> P r \<Longrightarrow> pr_status (f r) = Requested \<longrightarrow> pr_status r = Requested"
    and "\<And>r. r \<in> set (runs d) \<Longrightarrow> P r \<Longrightarrow> pr_status (f r) = Running \<longrightarrow> pr_status r = Running \<or>
      (\<forall>s\<in>set (runs d). pr_status s = Running \<longrightarrow> pr_id s = pr_id r) \<and> (\<forall>s\<in>set (runs d). P s \<longrightarrow> pr_id s = pr_id r)"
  shows "unique_rows (update_runs P f d)"
proof -
  have idf: "pr_id (f r) = pr_id r" for r using assms(2) by (simp add: same_request_def)
  let ?g = "\<lambda>r. if P r then f r else r"
  have g: "same_request r (?g r)" for r using assms(2) by simp
  have conf: "pr_id (?g r) = pr_id (?g s)"
    if "r \<in> set (runs d)" "s \<in> set (runs d)" and c: "pr_status (?g r) = Running \<and> pr_status (?g s) = Running \<or>
         pending_manual (?g r) \<and> pending_manual (?g s) \<and> week_slot (pr_week (?g r)) = week_slot (pr_week (?g s)) \<or>
         same_slot (?g r) (?g s)" for r s
  proof -
    have ids: "pr_id (?g x) = pr_id x" for x using idf by simp
    have wk: "pr_week (?g x) = pr_week x" for x using g [of x] by (simp add: same_request_def)
    have pm: "pending_manual (?g x) \<Longrightarrow> pending_manual x" if "x \<in> set (runs d)" for x
      using pending_request [OF g [of x]] assms(3) [OF that] by (cases "P x") simp_all
    have sl: "same_slot (?g r) (?g s) = same_slot r s" by (rule same_slot_request [OF g g])
    have "pr_id r = pr_id s"
    proof (cases "same_slot r s \<or> pending_manual r \<and> pending_manual s \<and> week_slot (pr_week r) = week_slot (pr_week s)")
      case True
      with assms(1) that(1,2) show ?thesis unfolding unique_rows_def by blast
    next
      case False
      with c pm that(1,2) sl have run: "pr_status (?g r) = Running" "pr_status (?g s) = Running"
        unfolding wk by blast+
      have old: "pr_status r = Running \<and> pr_status s = Running \<Longrightarrow> pr_id r = pr_id s"
        using assms(1) that(1,2) unfolding unique_rows_def by blast
      show ?thesis
      proof (cases "pr_status r = Running")
        case r: True
        show ?thesis
        proof (cases "pr_status s = Running")
          case False
          then have "P s" using run(2) by (cases "P s") simp_all
          with assms(4) [OF that(2)] run(2) False that(1) r show ?thesis by simp
        qed (use old r in simp)
      next
        case r: False
        then have "P r" using run(1) by (cases "P r") simp_all
        with assms(4) [OF that(1)] run(1) r
        have only: "\<forall>s\<in>set (runs d). pr_status s = Running \<longrightarrow> pr_id s = pr_id r"
          "\<forall>s\<in>set (runs d). P s \<longrightarrow> pr_id s = pr_id r" by simp_all
        show ?thesis
        proof (cases "P s")
          case True
          with only(2) that(2) show ?thesis by simp
        next
          case False
          with run(2) only(1) that(2) show ?thesis by simp
        qed
      qed
    qed
    then show ?thesis by (simp only: ids)
  qed
  have dist: "distinct (map pr_id (runs (update_runs P f d)))"
    using assms(1) idf by (simp add: unique_rows_def)
  show ?thesis
    unfolding unique_rows_def
  proof (intro conjI ballI impI)
    show "distinct (map pr_id (runs (update_runs P f d)))" by (rule dist)
  next
    fix r' s'
    assume "r' \<in> set (runs (update_runs P f d))" "s' \<in> set (runs (update_runs P f d))"
      and c: "pr_status r' = Running \<and> pr_status s' = Running \<or>
         pending_manual r' \<and> pending_manual s' \<and> week_slot (pr_week r') = week_slot (pr_week s') \<or>
         same_slot r' s'"
    then obtain r s where "r \<in> set (runs d)" "s \<in> set (runs d)" "r' = ?g r" "s' = ?g s"
      unfolding runs_update by blast
    with c conf show "pr_id r' = pr_id s'" by blast
  qed
qed

lemma id_unique:
  "unique_rows d \<Longrightarrow> r \<in> set (runs d) \<Longrightarrow> s \<in> set (runs d) \<Longrightarrow> pr_id r = pr_id s \<Longrightarrow> r = s"
  by (auto simp: unique_rows_def distinct_map inj_on_def)

lemma duration_nonneg: "0 \<le> duration_ms a b"
  by (auto simp: duration_ms_def intro!: pos_imp_zdiv_nonneg_iff [THEN iffD2])

text \<open>The attempt row that \<open>record_attempt\<close> adds.\<close>

lemma record_attempt_new:
  assumes "find_run d (rc_run c) = Some r" and "\<not> has_evidence d (rc_run c) (rc_attempt c)"
  shows "\<exists>a. record_attempt sha c now out st code ty m d = d\<lparr>attempts := attempts d @ [a]\<rparr> \<and>
    at_run a = rc_run c \<and> at_number a = rc_attempt c \<and> at_error_code a \<noteq> Some MAX_ATTEMPTS_EXCEEDED \<and>
    0 \<le> at_duration_ms a \<and> at_outcome a = out \<and>
    at_stage a = coalesce st (coalesce (pr_stage r) ''orchestration'')"
proof -
  have "pr_id r = rc_run c" using assms(1) by (auto simp: find_run_def dest: find_Some_in)
  moreover have "\<not> (\<exists>a\<in>set (attempts d). at_run a = rc_run c \<and> at_number a = rc_attempt c)"
    using assms(2) by (simp add: has_evidence_def)
  ultimately show ?thesis
    unfolding record_attempt_def assms(1) option.case
    by (subst if_not_P) (use duration_nonneg in \<open>auto intro!: exI [of _ "\<lparr>at_run = pr_id r, at_number = _, at_stage = _,
      at_started_at = _, at_ended_at = _, at_duration_ms = _, at_source_cutoff = _, at_rows_scanned = _,
      at_rows_written = _, at_error_code = _, at_error_type = _, at_outcome = _, at_version = _, at_build_sha = _\<rparr>"]\<close>)
qed

lemma finish_ok:
  assumes ok: "queue_ok M (d, C)" and r: "r \<in> set (runs d)" "pr_status r = Running"
    and P: "\<And>s. s \<in> set (runs d) \<Longrightarrow> P s \<longleftrightarrow> pr_id s = pr_id r"
    and f: "\<And>s. same_request s (f s)" and att: "pr_attempt (f r) = pr_attempt r"
    and st: "pr_status (f r) \<noteq> Running" "pr_status (f r) \<noteq> Requested" and fr: "row_ok M (f r)"
    and c: "rc_run c = pr_id r" "rc_attempt c = pr_attempt r"
  shows "queue_ok M (record_attempt sha c now out sg code ty m (update_runs P f d), C)"
proof -
  let ?d1 = "update_runs P f d"
  have u: "unique_rows d" and ao: "attempts_ok d" and co: "claims_ok C d"
    and rows: "\<And>s. s \<in> set (runs d) \<Longrightarrow> row_ok M s \<and> evidence_ok d s"
    using ok by (auto simp: queue_ok_def)
  have only: "s = r" if "s \<in> set (runs d)" "P s" for s
    using id_unique [OF u that(1) r(1)] P [OF that(1)] that(2) by simp
  have Pr: "P r" using P [OF r(1)] by simp
  have idf: "pr_id (f s) = pr_id s" for s using f [of s] by (simp add: same_request_def)
  have u1: "unique_rows ?d1"
    by (rule unique_rows_update [OF u f]) (simp_all add: st only [THEN arg_cong [where f = "\<lambda>s. pr_status (f s)"]])
  have fr_in: "f r \<in> set (runs ?d1)" unfolding runs_update using r(1) Pr by force
  have find: "find_run ?d1 (rc_run c) = Some (f r)"
    using find_key_unique [of pr_id "runs ?d1" "f r"] u1 fr_in
    by (simp add: find_run_def c unique_rows_def idf)
  have ev_r: "has_evidence d (pr_id r) n \<longleftrightarrow> 1 \<le> n \<and> n < pr_attempt r" for n
  proof -
    have "evidence_ok d r" using rows [OF r(1)] by (rule conjunct2)
    then have "has_evidence d (pr_id r) n \<longleftrightarrow> 1 \<le> n \<and> n \<le> pr_attempt r \<and> \<not> n = pr_attempt r"
      unfolding evidence_ok_def r(2) by simp
    also have "\<dots> \<longleftrightarrow> 1 \<le> n \<and> n < pr_attempt r" by linarith
    finally show ?thesis .
  qed
  have none: "\<not> has_evidence ?d1 (rc_run c) (rc_attempt c)"
    using ev_r by (simp add: has_evidence_def c)
  obtain a where d2: "record_attempt sha c now out sg code ty m ?d1 = ?d1\<lparr>attempts := attempts ?d1 @ [a]\<rparr>"
    and a: "at_run a = pr_id r" "at_number a = pr_attempt r" "at_error_code a \<noteq> Some MAX_ATTEMPTS_EXCEEDED"
      "0 \<le> at_duration_ms a"
    using record_attempt_new [OF find none] c by metis
  let ?d2 = "?d1\<lparr>attempts := attempts ?d1 @ [a]\<rparr>"
  have runs2: "runs ?d2 = runs ?d1" "attempts ?d2 = attempts d @ [a]" by simp_all
  have ev2: "has_evidence ?d2 i n \<longleftrightarrow> has_evidence d i n \<or> i = pr_id r \<and> n = pr_attempt r" for i n
    using a(1,2) by (auto simp: has_evidence_def)
  have ge: "1 \<le> pr_attempt r" using rows [OF r(1)] r(2) by (auto simp: row_ok_def)
  have u2: "unique_rows ?d2" using u1 unfolding unique_rows_def runs2 .
  have "(at_run a, at_number a) \<notin> (\<lambda>a. (at_run a, at_number a)) ` set (attempts d)"
    using none a(1,2) c by (auto simp: has_evidence_def)
  moreover have "pr_id ` set (runs ?d1) = pr_id ` set (runs d)"
    using idf by (metis list.set_map update_runs_ids)
  ultimately have ao2: "attempts_ok ?d2"
    using ao a r(1) by (simp add: attempts_ok_def runs2)
  have rows2: "row_ok M s \<and> evidence_ok ?d2 s" if "s \<in> set (runs ?d1)" for s
  proof -
    from that obtain s0 where s0: "s0 \<in> set (runs d)" "s = (if P s0 then f s0 else s0)"
      unfolding runs_update by blast
    show ?thesis
    proof (cases "P s0")
      case True
      then have s: "s = f r" using s0 only by simp
      have "(has_evidence d (pr_id r) n \<or> n = pr_attempt r) \<longleftrightarrow> 1 \<le> n \<and> n \<le> pr_attempt r" for n
        unfolding ev_r using ge by linarith
      then have "evidence_ok ?d2 (f r)"
        unfolding evidence_ok_def ev2 idf att by (simp add: st(1))
      with fr s show ?thesis by simp
    next
      case False
      then have s: "s = s0" and ne: "pr_id s0 \<noteq> pr_id r" using s0 P by simp_all
      have "evidence_ok ?d2 s0"
        using conjunct2 [OF rows [OF s0(1)]] ne unfolding evidence_ok_def ev2 by simp
      with rows [OF s0(1)] s show ?thesis by simp
    qed
  qed
  have "claims_ok C ?d2"
    unfolding claims_ok_def runs2
  proof (intro ballI impI)
    fix c' s assume "c' \<in> C" and s: "s \<in> set (runs ?d1)" "owns c' s"
    obtain s0 where s0: "s0 \<in> set (runs d)" "s = (if P s0 then f s0 else s0)"
      using s(1) unfolding runs_update by blast
    have "\<not> P s0" using only s0 s(2) st(1) by (auto simp: owns_def)
    with s0 s(2) co \<open>c' \<in> C\<close> show "rc_attempt c' = pr_attempt s" by (auto simp: claims_ok_def)
  qed
  with u2 ao2 rows2 show ?thesis
    unfolding d2 queue_ok_def by simp
qed

text \<open>An update that leaves attempts alone and keeps every row running, or not, as it was.\<close>

lemma quiet_ok:
  assumes ok: "queue_ok M (d, C)" and f: "\<And>s. same_request s (f s)"
    and same: "\<And>s. s \<in> set (runs d) \<Longrightarrow> P s \<Longrightarrow> pr_status (f s) = pr_status s \<and> pr_attempt (f s) = pr_attempt s \<and>
      pr_token (f s) = pr_token s \<and> (row_ok M s \<longrightarrow> row_ok M (f s))"
  shows "queue_ok M (update_runs P f d, C)"
proof -
  let ?d1 = "update_runs P f d"
  have u: "unique_rows d" and ao: "attempts_ok d" and co: "claims_ok C d"
    and rows: "\<And>s. s \<in> set (runs d) \<Longrightarrow> row_ok M s \<and> evidence_ok d s"
    using ok by (auto simp: queue_ok_def)
  have idf: "pr_id (f s) = pr_id s" for s using f [of s] by (simp add: same_request_def)
  have u1: "unique_rows ?d1"
    by (rule unique_rows_update [OF u f]) (use same in auto)
  have "pr_id ` set (runs ?d1) = pr_id ` set (runs d)"
    using idf by (metis list.set_map update_runs_ids)
  then have ao1: "attempts_ok ?d1" using ao by (simp add: attempts_ok_def)
  have from0: "\<exists>s0\<in>set (runs d). pr_status s = pr_status s0 \<and> pr_attempt s = pr_attempt s0 \<and> pr_id s = pr_id s0 \<and>
      pr_token s = pr_token s0 \<and> (row_ok M s0 \<longrightarrow> row_ok M s)" if "s \<in> set (runs ?d1)" for s
  proof -
    from that obtain s0 where s0: "s0 \<in> set (runs d)" "s = (if P s0 then f s0 else s0)"
      unfolding runs_update by blast
    with same [OF s0(1)] idf show ?thesis by (cases "P s0") auto
  qed
  have he: "has_evidence ?d1 = has_evidence d" by (simp add: has_evidence_def fun_eq_iff)
  have "row_ok M s \<and> evidence_ok ?d1 s" if "s \<in> set (runs ?d1)" for s
  proof -
    from from0 [OF that] obtain s0 where s0: "s0 \<in> set (runs d)" "pr_status s = pr_status s0"
      "pr_attempt s = pr_attempt s0" "pr_id s = pr_id s0" "row_ok M s0 \<longrightarrow> row_ok M s" by blast
    with rows [OF s0(1)] show ?thesis by (simp add: evidence_ok_def he)
  qed
  moreover have "claims_ok C ?d1"
    unfolding claims_ok_def
  proof (intro ballI impI)
    fix c s assume c: "c \<in> C" and s: "s \<in> set (runs ?d1)" "owns c s"
    from from0 [OF s(1)] obtain s0 where s0: "s0 \<in> set (runs d)" "pr_status s = pr_status s0"
      "pr_attempt s = pr_attempt s0" "pr_id s = pr_id s0" "pr_token s = pr_token s0" by blast
    with s(2) have "owns c s0" by (simp add: owns_def)
    with co c s0 show "rc_attempt c = pr_attempt s" by (simp add: claims_ok_def)
  qed
  ultimately show ?thesis using u1 ao1 by (simp add: queue_ok_def)
qed


text \<open>A row inserted by one of the enqueue functions.\<close>

lemma add_run_ok:
  assumes ok: "queue_ok M (d, C)" and fresh: "pr_id r \<notin> pr_id ` set (runs d)"
    and r: "row_ok M r" "pr_status r = Requested"
    and slot: "\<And>s. s \<in> set (runs d) \<Longrightarrow> \<not> same_slot r s"
    and pend: "\<And>s. s \<in> set (runs d) \<Longrightarrow> pending_manual r \<Longrightarrow> pending_manual s \<Longrightarrow>
      week_slot (pr_week r) \<noteq> week_slot (pr_week s)"
  shows "queue_ok M (d\<lparr>runs := runs d @ [r]\<rparr>, C)"
proof -
  let ?d1 = "d\<lparr>runs := runs d @ [r]\<rparr>"
  have u: "unique_rows d" and ao: "attempts_ok d" and co: "claims_ok C d"
    and rows: "\<And>s. s \<in> set (runs d) \<Longrightarrow> row_ok M s \<and> evidence_ok d s"
    using ok by (auto simp: queue_ok_def)
  have he: "has_evidence ?d1 = has_evidence d" by (simp add: has_evidence_def fun_eq_iff)
  have sym: "same_slot s r = same_slot r s" for s unfolding same_slot_def by metis
  have slot': "\<not> same_slot s r" if "s \<in> set (runs d)" for s using slot [OF that] sym by simp
  have u1: "unique_rows ?d1"
    unfolding unique_rows_def
  proof (intro conjI ballI impI)
    show "distinct (map pr_id (runs ?d1))" using u fresh by (simp add: unique_rows_def)
  next
    fix x y assume xy: "x \<in> set (runs ?d1)" "y \<in> set (runs ?d1)"
      and c: "pr_status x = Running \<and> pr_status y = Running \<or>
         pending_manual x \<and> pending_manual y \<and> week_slot (pr_week x) = week_slot (pr_week y) \<or> same_slot x y"
    show "pr_id x = pr_id y"
    proof (cases "x = r \<or> y = r")
      case True
      then show ?thesis using xy c slot slot' r(2) pend pend [THEN not_sym] by auto
    next
      case False
      then have "x \<in> set (runs d)" "y \<in> set (runs d)" using xy by auto
      with c u show ?thesis unfolding unique_rows_def by blast
    qed
  qed
  have ao1: "attempts_ok ?d1" using ao by (auto simp: attempts_ok_def)
  have none: "\<not> has_evidence d (pr_id r) n" for n
  proof
    assume "has_evidence d (pr_id r) n"
    then obtain a where "a \<in> set (attempts d)" "at_run a = pr_id r" by (auto simp: has_evidence_def)
    with ao have "pr_id r \<in> pr_id ` set (runs d)" unfolding attempts_ok_def by metis
    with fresh show False by simp
  qed
  have "pr_attempt r = 0" using r by (simp add: row_ok_def)
  then have "evidence_ok ?d1 r" unfolding evidence_ok_def he using none by simp
  moreover have "evidence_ok ?d1 s" if "s \<in> set (runs d)" for s
    using conjunct2 [OF rows [OF that]] unfolding evidence_ok_def he .
  ultimately have rows1: "\<forall>s\<in>set (runs ?d1). row_ok M s \<and> evidence_ok ?d1 s"
    using rows r(1) by simp
  have "claims_ok C ?d1" using co r(2) by (simp add: claims_ok_def owns_def)
  with u1 ao1 rows1 show ?thesis by (simp add: queue_ok_def)
qed

text \<open>The row that a claim takes, with the claim it hands out.\<close>

lemma claim_ok:
  assumes ok: "queue_ok M (d, C)" and r: "r \<in> set (runs d)" "eligible now r" and M: "1 \<le> M"
    and free: "\<And>s. s \<in> set (runs d) \<Longrightarrow> pr_status s \<noteq> Running"
    and c: "rc_run c = pr_id r" "rc_attempt c = pr_attempt r + 1"
    and new: "rc_token c \<notin> rc_token ` C" and tok: "rc_token c = token"
  shows "queue_ok M (update_runs (\<lambda>s. pr_id s = pr_id r) (claim_row now v token ls) d, insert c C)"
proof -
  let ?P = "\<lambda>s. pr_id s = pr_id r" and ?f = "claim_row now v token ls"
  let ?d1 = "update_runs ?P ?f d"
  have u: "unique_rows d" and ao: "attempts_ok d"
    and rows: "\<And>s. s \<in> set (runs d) \<Longrightarrow> row_ok M s \<and> evidence_ok d s"
    using ok by (auto simp: queue_ok_def)
  have idf: "pr_id (?f s) = pr_id s" for s by (simp add: claim_row_def)
  have f: "same_request s (?f s)" for s by simp
  have u1: "unique_rows ?d1"
    by (rule unique_rows_update [OF u f]) (use free in \<open>simp_all add: claim_row_def\<close>)
  have "pr_id ` set (runs ?d1) = pr_id ` set (runs d)"
    using idf by (metis list.set_map update_runs_ids)
  then have ao1: "attempts_ok ?d1" using ao by (simp add: attempts_ok_def)
  have he: "has_evidence ?d1 = has_evidence d" by (simp add: has_evidence_def fun_eq_iff)
  have cases1: "s = ?f r \<or> s \<in> set (runs d) \<and> pr_id s \<noteq> pr_id r" if "s \<in> set (runs ?d1)" for s
  proof -
    from that obtain s0 where s0: "s0 \<in> set (runs d)" "s = (if ?P s0 then ?f s0 else s0)"
      unfolding runs_update by blast
    then show ?thesis using id_unique [OF u s0(1) r(1)] by (cases "?P s0") simp_all
  qed
  have att: "0 \<le> pr_attempt r" "pr_attempt r < M"
    using rows [OF r(1)] r(2) M by (auto simp: row_ok_def eligible_def)
  have "row_ok M (?f r)"
    using rows [OF r(1)] att by (simp add: row_ok_def claim_row_def)
  moreover have "evidence_ok ?d1 (?f r)"
  proof -
    have "has_evidence d (pr_id r) n \<longleftrightarrow> 1 \<le> n \<and> n \<le> pr_attempt r" for n
      using conjunct2 [OF rows [OF r(1)]] free [OF r(1)] unfolding evidence_ok_def by simp
    moreover have "1 \<le> n \<and> n \<le> pr_attempt r \<longleftrightarrow> 1 \<le> n \<and> n \<le> pr_attempt r + 1 \<and> \<not> n = pr_attempt r + 1"
      for n :: int by linarith
    ultimately show ?thesis unfolding evidence_ok_def he idf by (simp add: claim_row_def)
  qed
  moreover have "row_ok M s \<and> evidence_ok ?d1 s" if "s \<in> set (runs d)" for s
    using rows [OF that] unfolding evidence_ok_def he .
  ultimately have rows1: "\<forall>s\<in>set (runs ?d1). row_ok M s \<and> evidence_ok ?d1 s" using cases1 by blast
  have "claims_ok (insert c C) ?d1"
    unfolding claims_ok_def
  proof (intro ballI impI)
    fix c' s assume c': "c' \<in> insert c C" and s: "s \<in> set (runs ?d1)" "owns c' s"
    from s(2) have "pr_status s = Running" by (simp add: owns_def)
    with cases1 [OF s(1)] free have sr: "s = ?f r" by blast
    then have "rc_token c' = token" using s(2) by (simp add: owns_def claim_row_def)
    with c' new tok have "c' = c" by (metis image_eqI insertE)
    with sr c show "rc_attempt c' = pr_attempt s" by (simp add: claim_row_def)
  qed
  with u1 ao1 rows1 show ?thesis by (simp add: queue_ok_def)
qed

lemma owned_row:
  assumes "queue_ok M (d, C)" and "c \<in> C" and "claim_is_owned c d"
  obtains r where "r \<in> set (runs d)" and "pr_status r = Running" and "rc_run c = pr_id r"
    and "rc_attempt c = pr_attempt r" and "\<And>s. s \<in> set (runs d) \<Longrightarrow> owns c s \<longleftrightarrow> pr_id s = pr_id r"
    and "rowcount (owns c) d = 1" and "owns c r"
proof -
  have u: "unique_rows d" and co: "claims_ok C d" using assms(1) by (auto simp: queue_ok_def)
  obtain r where r: "r \<in> set (runs d)" "owns c r" using assms(3) by (auto simp: claim_is_owned_def)
  have "owns c s \<longleftrightarrow> pr_id s = pr_id r" if "s \<in> set (runs d)" for s
    using id_unique [OF u that r(1)] r(2) by (auto simp: owns_def)
  moreover have "rowcount (owns c) d = 1"
    using owned_once(1) [OF _ assms(3)] u by (simp add: unique_rows_def)
  moreover have "rc_attempt c = pr_attempt r" using co assms(2) r by (simp add: claims_ok_def)
  moreover have "pr_status r = Running" "rc_run c = pr_id r" using r(2) by (simp_all add: owns_def)
  ultimately show thesis using that [of r] r by blast
qed


section \<open>Every operation keeps the invariant\<close>

lemma heartbeat_keeps: "queue_ok M (d, C) \<Longrightarrow> queue_ok M (snd (heartbeat c now ls d), C)"
  unfolding heartbeat_def snd_conv by (rule quiet_ok) (auto simp: row_ok_def)

lemma record_stage_keeps:
  assumes "queue_ok M (d, C)"
  shows "queue_ok M (snd (record_stage c st now d), C)"
proof (cases "st \<notin> {''extract'', ''transform'', ''load''}")
  case True
  with assms show ?thesis by (simp add: record_stage_def)
next
  case False
  have "queue_ok M (update_runs (owns c) (\<lambda>r. r\<lparr>pr_stage := Some st, pr_stage_started_at := Some now\<rparr>) d, C)"
    by (rule quiet_ok [OF assms]) (auto simp: row_ok_def)
  then show ?thesis unfolding record_stage_def if_not_P [OF False] by simp
qed

lemma queue_ok_tables:
  assumes "runs d' = runs d" and "attempts d' = attempts d"
  shows "queue_ok M (d', C) = queue_ok M (d, C)"
proof -
  have "evidence_ok d' = evidence_ok d" by (simp add: evidence_ok_def has_evidence_def fun_eq_iff assms)
  then show ?thesis by (simp only: queue_ok_def unique_rows_def attempts_ok_def claims_ok_def assms prod.case)
qed

lemma worker_heartbeat_keeps:
  "queue_ok M (d, C) \<Longrightarrow> queue_ok M (record_worker_heartbeat now p h d, C)"
  by (subst queue_ok_tables [of _ d]) (simp_all add: record_worker_heartbeat_def)

lemma new_run_simps [simp]:
  "pr_id (new_run i t w now) = i" "pr_status (new_run i t w now) = Requested"
  "pr_trigger (new_run i t w now) = t" "pr_pipeline (new_run i t w now) = PIPELINE_NAME"
  "pr_nonce (new_run i t w now) = None" "pr_week (new_run i t w now) = None"
  by (simp_all add: new_run_def)

lemma new_run_row_ok: "0 \<le> M \<Longrightarrow> row_ok M (new_run i t w now)"
  by (simp add: row_ok_def new_run_def)

lemma row_ok_request_fields [simp]:
  "row_ok M (r\<lparr>pr_business_date := b\<rparr>) = row_ok M r" "row_ok M (r\<lparr>pr_scheduled_for := s\<rparr>) = row_ok M r"
  "row_ok M (r\<lparr>pr_week := wk\<rparr>) = row_ok M r" "row_ok M (r\<lparr>pr_nonce := nc\<rparr>) = row_ok M r"
  by (simp_all add: row_ok_def)

lemma enqueue_scheduled_keeps:
  assumes "queue_ok M (d, C)" and "0 \<le> M" and "i \<notin> pr_id ` set (runs d)"
  shows "queue_ok M (snd (enqueue_scheduled i bd sf now d), C)"
proof (cases "bd = None \<and> sf = None \<or>
    (\<exists>s\<in>set (runs d). same_slot ((new_run i Scheduled ''system'' now)\<lparr>pr_business_date := bd, pr_scheduled_for := sf\<rparr>) s)")
  case True
  then show ?thesis using assms(1) by (auto simp: enqueue_scheduled_def Let_def)
next
  case False
  then show ?thesis
    unfolding enqueue_scheduled_def Let_def
    using add_run_ok [OF assms(1), of "(new_run i Scheduled ''system'' now)\<lparr>pr_business_date := bd, pr_scheduled_for := sf\<rparr>"]
      assms(2,3) False by (auto simp add: new_run_row_ok pending_manual_def)
qed

lemma enqueue_cli_keeps:
  assumes "queue_ok M (d, C)" and "0 \<le> M" and "i \<notin> pr_id ` set (runs d)"
  shows "queue_ok M (snd (enqueue_cli i wk now d), C)"
proof (cases "week_value wk")
  case (Inl e)
  then show ?thesis using assms(1) by (simp add: enqueue_cli_def)
next
  case (Inr w)
  then show ?thesis
    using add_run_ok [OF assms(1), of "(new_run i Cli ''cli'' now)\<lparr>pr_week := w\<rparr>"] assms(2,3)
    by (simp add: enqueue_cli_def new_run_row_ok pending_manual_def same_slot_def)
qed

lemma enqueue_manual_cases:
  "snd (enqueue_manual i nonce who wk force now d) = d \<or>
   (\<exists>w. let r = (new_run i Manual who now)\<lparr>pr_week := w, pr_nonce := (if force then Some nonce else None)\<rparr> in
      \<not> (pending_manual r \<and> (\<exists>s\<in>set (runs d). pending_manual s \<and> pr_pipeline s = PIPELINE_NAME \<and>
          week_slot (pr_week s) = week_slot w)) \<and>
      enqueue_manual i nonce who wk force now d = (Inr i, d\<lparr>runs := runs d @ [r]\<rparr>))"
  unfolding enqueue_manual_def Let_def by (auto split: sum.splits if_splits option.splits)

lemma enqueue_manual_keeps:
  assumes "queue_ok M (d, C)" and "0 \<le> M" and "i \<notin> pr_id ` set (runs d)"
  shows "queue_ok M (snd (enqueue_manual i nonce who wk force now d), C)"
  using enqueue_manual_cases [of i nonce who wk force now d]
proof
  assume "snd (enqueue_manual i nonce who wk force now d) = d"
  with assms(1) show ?thesis by simp
next
  assume "\<exists>w. let r = (new_run i Manual who now)\<lparr>pr_week := w, pr_nonce := (if force then Some nonce else None)\<rparr> in
      \<not> (pending_manual r \<and> (\<exists>s\<in>set (runs d). pending_manual s \<and> pr_pipeline s = PIPELINE_NAME \<and>
          week_slot (pr_week s) = week_slot w)) \<and>
      enqueue_manual i nonce who wk force now d = (Inr i, d\<lparr>runs := runs d @ [r]\<rparr>)"
  then obtain w r where r: "r = (new_run i Manual who now)\<lparr>pr_week := w, pr_nonce := (if force then Some nonce else None)\<rparr>"
    and no: "\<not> (pending_manual r \<and> (\<exists>s\<in>set (runs d). pending_manual s \<and> pr_pipeline s = PIPELINE_NAME \<and>
          week_slot (pr_week s) = week_slot w))"
    and res: "enqueue_manual i nonce who wk force now d = (Inr i, d\<lparr>runs := runs d @ [r]\<rparr>)"
    unfolding Let_def by blast
  have pipe: "pr_pipeline s = PIPELINE_NAME" if "s \<in> set (runs d)" for s
    using assms(1) that by (simp add: queue_ok_def row_ok_def)
  have wk: "pr_week r = w" by (simp add: r)
  have "queue_ok M (d\<lparr>runs := runs d @ [r]\<rparr>, C)"
  proof (rule add_run_ok [OF assms(1)])
    show "week_slot (pr_week r) \<noteq> week_slot (pr_week s)"
      if "s \<in> set (runs d)" "pending_manual r" "pending_manual s" for s
      using no pipe that unfolding wk by metis
  qed (use assms(2,3) in \<open>simp_all add: r new_run_row_ok same_slot_def\<close>)
  with res show ?thesis by simp
qed


lemma fail_row_ok: "row_ok M r \<Longrightarrow> pr_status r = Running \<Longrightarrow> row_ok M (fail_row now code r)"
  by (simp add: row_ok_def fail_row_def clear_claim_def)

lemma release_row_ok:
  "row_ok M r \<Longrightarrow> pr_status r = Running \<Longrightarrow> n = pr_attempt r \<Longrightarrow> row_ok M (release_row now n M b code r)"
  by (auto simp: row_ok_def release_row_def fail_row_def retry_row_def clear_claim_def)

lemma ended_row_fields [simp]:
  "pr_attempt (fail_row now code r) = pr_attempt r" "pr_status (fail_row now code r) = Failed"
  "pr_attempt (release_row now n M b code r) = pr_attempt r"
  "pr_status (release_row now n M b code r) = (if M \<le> n then Failed else Retryable)"
  by (simp_all add: fail_row_def release_row_def retry_row_def clear_claim_def)

lemma queue_row: "queue_ok M (d, C) \<Longrightarrow> r \<in> set (runs d) \<Longrightarrow> row_ok M r"
  by (simp add: queue_ok_def)

text \<open>The three final transitions share their proof: an owned row ends with its evidence.\<close>

lemma final_keeps:
  assumes ok: "queue_ok M (d, C)" and c: "c \<in> C" and f: "\<And>s. same_request s (f s)"
    and fr: "\<And>s. row_ok M s \<Longrightarrow> pr_status s = Running \<Longrightarrow> pr_attempt s = rc_attempt c \<Longrightarrow>
      row_ok M (f s) \<and> pr_attempt (f s) = pr_attempt s \<and> pr_status (f s) \<noteq> Running \<and> pr_status (f s) \<noteq> Requested"
  shows "queue_ok M (if rowcount (owns c) d = 1
     then record_attempt sha c now out sg code ty m (update_runs (owns c) f d) else update_runs (owns c) f d, C)"
proof (cases "claim_is_owned c d")
  case True
  from owned_row [OF ok c True] obtain r where r: "r \<in> set (runs d)" "pr_status r = Running"
    "rc_run c = pr_id r" "rc_attempt c = pr_attempt r" and P: "\<And>s. s \<in> set (runs d) \<Longrightarrow> owns c s \<longleftrightarrow> pr_id s = pr_id r"
    and one: "rowcount (owns c) d = 1" by blast
  have fr': "row_ok M (f r)" "pr_attempt (f r) = pr_attempt r" "pr_status (f r) \<noteq> Running" "pr_status (f r) \<noteq> Requested"
    using fr [OF queue_row [OF ok r(1)] r(2)] r(4) by simp_all
  have "queue_ok M (record_attempt sha c now out sg code ty m (update_runs (owns c) f d), C)"
    by (rule finish_ok [OF ok r(1,2) P f fr'(2-4,1) r(3,4)])
  with one show ?thesis by simp
next
  case False
  with not_owned_none [OF False, of f] ok show ?thesis by simp
qed

lemma finalize_success_keeps:
  assumes "queue_ok M (d, C)" and "c \<in> C"
  shows "queue_ok M (snd (finalize_success sha c m now d), C)"
proof -
  let ?f = "\<lambda>r. (clear_claim r)
           \<lparr>pr_status := Succeeded, pr_finished_at := Some now, pr_extracted := Some (rm_extracted m),
            pr_transformed := Some (rm_transformed m), pr_loaded := Some (rm_loaded m),
            pr_watermark := rm_watermark m, pr_error_code := None, pr_error_summary := None\<rparr>"
  have "queue_ok M (if rowcount (owns c) d = 1
     then record_attempt sha c now ''succeeded'' None None None (Some m) (update_runs (owns c) ?f d)
     else update_runs (owns c) ?f d, C)"
    by (rule final_keeps [OF assms]) (simp_all add: same_request_def clear_claim_def row_ok_def)
  then show ?thesis by (simp add: finalize_success_def Let_def split: if_splits)
qed

lemma release_retryable_keeps:
  assumes "queue_ok M (d, C)" and "c \<in> C"
  shows "queue_ok M (snd (release_retryable sha c code now M b st ty d), C)"
proof -
  have "queue_ok M (if rowcount (owns c) d = 1
     then record_attempt sha c now (if M \<le> rc_attempt c then ''exhausted'' else ''retried'') st (Some code) ty None
        (update_runs (owns c) (release_row now (rc_attempt c) M b code) d)
     else update_runs (owns c) (release_row now (rc_attempt c) M b code) d, C)"
    by (rule final_keeps [OF assms]) (simp_all add: release_row_ok)
  then show ?thesis by (simp add: release_retryable_def Let_def split: if_splits)
qed

lemma finalize_failure_keeps:
  assumes "queue_ok M (d, C)" and "c \<in> C"
  shows "queue_ok M (snd (finalize_failure sha c code now st ty d), C)"
proof -
  have "queue_ok M (if rowcount (owns c) d = 1
     then record_attempt sha c now ''failed'' st (Some code) ty None (update_runs (owns c) (fail_row now code) d)
     else update_runs (owns c) (fail_row now code) d, C)"
    by (rule final_keeps [OF assms]) (simp_all add: fail_row_ok)
  then show ?thesis by (simp add: finalize_failure_def Let_def split: if_splits)
qed

lemma filter_eq_single: "distinct xs \<Longrightarrow> x \<in> set xs \<Longrightarrow> filter (\<lambda>y. y = x) xs = [x]"
  by (induction xs) (auto simp: filter_empty_conv)

lemma one_running:
  assumes u: "unique_rows d" and r: "r \<in> set (runs d)" "pr_status r = Running"
  shows "filter (stale now) (runs d) = (if stale now r then [r] else [])"
proof -
  have only: "stale now s = (s = r \<and> stale now r)" if s: "s \<in> set (runs d)" for s
  proof (cases "pr_status s = Running")
    case True
    with u r s have "pr_id s = pr_id r" unfolding unique_rows_def by metis
    from id_unique [OF u s r(1) this] show ?thesis by simp
  next
    case False
    with r(2) have "s \<noteq> r" by metis
    with False show ?thesis by (simp add: stale_def)
  qed
  have dist: "distinct (runs d)" using u by (simp add: unique_rows_def distinct_map)
  show ?thesis
  proof (cases "stale now r")
    case True
    have "filter (stale now) (runs d) = filter (\<lambda>s. s = r) (runs d)"
      by (rule filter_cong) (use only True in simp_all)
    with filter_eq_single [OF dist r(1)] True show ?thesis by simp
  next
    case False
    have "filter (stale now) (runs d) = []"
      unfolding filter_empty_conv using only False by metis
    with False show ?thesis by simp
  qed
qed


lemma recover_stale_runs_keeps:
  assumes ok: "queue_ok M (d, C)"
  shows "queue_ok M (snd (recover_stale_runs sha now M b d), C)"
proof (cases "filter (stale now) (runs d) = []")
  case True
  with ok show ?thesis by (simp add: recover_stale_runs_def)
next
  case False
  then obtain r where r: "r \<in> set (runs d)" "stale now r" by (auto simp: filter_empty_conv)
  have run: "pr_status r = Running" using r(2) by (simp add: stale_def)
  have u: "unique_rows d" using ok by (simp add: queue_ok_def)
  have one: "filter (stale now) (runs d) = [r]" using one_running [OF u r(1) run] r(2) by simp
  have P: "(pr_id s = pr_id r \<and> pr_status s = Running) = (pr_id s = pr_id r)" if "s \<in> set (runs d)" for s
    using id_unique [OF u that r(1)] run by metis
  have "queue_ok M (recover_row sha now M b r d, C)"
    unfolding recover_row_def
    by (rule finish_ok [OF ok r(1) run P])
      (simp_all add: claim_of_def release_row_ok [OF queue_row [OF ok r(1)] run])
  then show ?thesis by (simp add: recover_stale_runs_def one)
qed

lemma queue_ok_mono: "queue_ok M (d, C) \<Longrightarrow> C' \<subseteq> C \<Longrightarrow> queue_ok M (d, C')"
  by (auto simp: queue_ok_def claims_ok_def)

lemma claim_of_simps [simp]:
  "rc_run (claim_of r t w) = pr_id r" "rc_token (claim_of r t w) = t" "rc_attempt (claim_of r t w) = pr_attempt r"
  "rc_trigger (claim_of r t w) = pr_trigger r" "rc_week (claim_of r t w) = pr_week r"
  "rc_target_weeks (claim_of r t w) = w"
  by (simp_all add: claim_of_def)

lemma claim_row_simps [simp]:
  "pr_id (claim_row now v t ls r) = pr_id r" "pr_attempt (claim_row now v t ls r) = pr_attempt r + 1"
  "pr_status (claim_row now v t ls r) = Running" "pr_token (claim_row now v t ls r) = Some t"
  "pr_week (claim_row now v t ls r) = pr_week r" "pr_trigger (claim_row now v t ls r) = pr_trigger r"
  by (simp_all add: claim_row_def)

text \<open>What \<open>claim_next\<close> selects: nothing, or the first eligible run while none is running.\<close>

lemma claim_next_cases:
  obtains (none) "claim_next sha token now v ls k d = (None, d)"
  | (claim) r where "r \<in> set (runs d)" and "eligible now r"
      and "\<forall>s\<in>set (runs d). eligible now s \<longrightarrow> pr_requested_at r \<le> pr_requested_at s"
      and "\<forall>s\<in>set (runs d). pr_pipeline s = PIPELINE_NAME \<longrightarrow> pr_status s \<noteq> Running"
      and "claim_next sha token now v ls k d =
        (let r' = claim_row now v token ls r;
             d1 = update_runs (\<lambda>s. pr_id s = pr_id r) (claim_row now v token ls) d
         in (case target_weeks (pr_week r') now (last_reset_at d1) k of
               Inl _ \<Rightarrow>
                 (None,
                  record_attempt sha (claim_of r' token []) now ''failed'' (Some ''orchestration'')
                    (Some VALIDATE_FAILED) (Some ''QueueValidationError'') None
                    (update_runs (owns (claim_of r' token [])) (fail_row now VALIDATE_FAILED) d1))
             | Inr weeks \<Rightarrow>
                 (Some (claim_of r' token weeks),
                  update_runs (\<lambda>s. pr_id s = pr_id r) (\<lambda>s. s\<lparr>pr_target_weeks := Some weeks\<rparr>) d1)))"
proof (cases "sort_key pr_requested_at (filter (eligible now) (runs d))")
  case Nil
  then show thesis using none by (simp add: claim_next_def)
next
  case (Cons r rs)
  have set: "set (r # rs) = {s \<in> set (runs d). eligible now s}"
    unfolding Cons [symmetric] by auto
  have r: "r \<in> set (runs d)" "eligible now r" using set by auto
  have sorted: "sorted (map pr_requested_at (r # rs))"
    unfolding Cons [symmetric] by (rule sorted_sort_key)
  have first: "\<forall>s\<in>set (runs d). eligible now s \<longrightarrow> pr_requested_at r \<le> pr_requested_at s"
  proof (intro ballI impI)
    fix s assume "s \<in> set (runs d)" "eligible now s"
    then have "s \<in> set (r # rs)" unfolding set by simp
    with sorted show "pr_requested_at r \<le> pr_requested_at s" by auto
  qed
  show thesis
  proof (cases "\<exists>s\<in>set (runs d). pr_status s = Running \<and> pr_pipeline s = pr_pipeline r")
    case True
    then show thesis using none Cons by (simp add: claim_next_def)
  next
    case False
    have "pr_pipeline r = PIPELINE_NAME" using r(2) by (simp add: eligible_def)
    with False have "\<forall>s\<in>set (runs d). pr_pipeline s = PIPELINE_NAME \<longrightarrow> pr_status s \<noteq> Running" by metis
    then show thesis
      by (rule claim [OF r first]) (unfold claim_next_def Cons list.case if_not_P [OF False], rule refl)
  qed
qed

lemma claim_next_keeps:
  assumes ok: "queue_ok M (d, C)" and M: "1 \<le> M" and new: "token \<notin> rc_token ` C"
    and res: "claim_next sha token now v ls k d = (cl, d')"
  shows "queue_ok M (d', set_option cl \<union> C)"
proof (cases rule: claim_next_cases [of sha token now v ls k d])
  case none
  with res ok show ?thesis by simp
next
  case (claim r)
  let ?d1 = "update_runs (\<lambda>s. pr_id s = pr_id r) (claim_row now v token ls) d"
  let ?r = "claim_row now v token ls r"
  have free: "pr_status s \<noteq> Running" if "s \<in> set (runs d)" for s
    using claim(4) that queue_row [OF ok that] unfolding row_ok_def by blast
  have claimed: "queue_ok M (?d1, insert (claim_of ?r token w) C)" for w
    by (rule claim_ok [OF ok claim(1,2) M free]) (use new in simp_all)
  show ?thesis
  proof (cases "target_weeks (pr_week ?r) now (last_reset_at ?d1) k")
    case (Inr w)
    have "queue_ok M (update_runs (\<lambda>s. pr_id s = pr_id r) (\<lambda>s. s\<lparr>pr_target_weeks := Some w\<rparr>) ?d1,
        insert (claim_of ?r token w) C)"
      by (rule quiet_ok [OF claimed]) (simp_all add: row_ok_def)
    with res claim(5) Inr show ?thesis by auto
  next
    case (Inl e)
    let ?c = "claim_of ?r token []"
    have "?r \<in> set (runs ?d1)" unfolding runs_update using claim(1) by force
    then have owned: "claim_is_owned ?c ?d1"
      unfolding claim_is_owned_def by (rule bexI [rotated]) (simp add: owns_def)
    have one: "rowcount (owns ?c) ?d1 = 1" by (rule owned_row [OF claimed insertI1 owned])
    have "queue_ok M (if rowcount (owns ?c) ?d1 = 1 then record_attempt sha ?c now ''failed'' (Some ''orchestration'')
                    (Some VALIDATE_FAILED) (Some ''QueueValidationError'') None
                    (update_runs (owns ?c) (fail_row now VALIDATE_FAILED) ?d1)
             else update_runs (owns ?c) (fail_row now VALIDATE_FAILED) ?d1, insert ?c C)"
      by (rule final_keeps [OF claimed]) (simp_all add: fail_row_ok)
    then have "queue_ok M (record_attempt sha ?c now ''failed'' (Some ''orchestration'')
        (Some VALIDATE_FAILED) (Some ''QueueValidationError'') None
        (update_runs (owns ?c) (fail_row now VALIDATE_FAILED) ?d1), C)"
      unfolding one by (simp add: queue_ok_mono [OF _ subset_insertI])
    moreover have "cl = None \<and> d' = record_attempt sha ?c now ''failed'' (Some ''orchestration'')
        (Some VALIDATE_FAILED) (Some ''QueueValidationError'') None
        (update_runs (owns ?c) (fail_row now VALIDATE_FAILED) ?d1)"
      using res claim(5) unfolding Let_def Inl by simp
    ultimately show ?thesis by simp
  qed
qed


section \<open>The step relation\<close>

text \<open>
  Everything that writes the tables, at any time, in any order: the API and the scheduler enqueue,
  workers claim, and a worker that holds a claim (whether or not its lease is still good) renews it,
  records stages and ends it. Identifiers and tokens are fresh, as those \<open>uuid4\<close> draws; the attempt
  limit \<open>M\<close> is the deployment's.
\<close>

inductive queue_step :: "int \<Rightarrow> report_db \<times> run_claim set \<Rightarrow> report_db \<times> run_claim set \<Rightarrow> bool" for M where
  scheduled: "i \<notin> pr_id ` set (runs d) \<Longrightarrow>
    queue_step M (d, C) (snd (enqueue_scheduled i bd sf now d), C)"
| manual: "i \<notin> pr_id ` set (runs d) \<Longrightarrow>
    queue_step M (d, C) (snd (enqueue_manual i nonce who wk force now d), C)"
| cli: "i \<notin> pr_id ` set (runs d) \<Longrightarrow> queue_step M (d, C) (snd (enqueue_cli i wk now d), C)"
| claim: "token \<notin> rc_token ` C \<Longrightarrow> claim_next sha token now v ls k d = (cl, d') \<Longrightarrow>
    queue_step M (d, C) (d', set_option cl \<union> C)"
| renew: "c \<in> C \<Longrightarrow> queue_step M (d, C) (snd (heartbeat c now ls d), C)"
| stage: "c \<in> C \<Longrightarrow> queue_step M (d, C) (snd (record_stage c st now d), C)"
| success: "c \<in> C \<Longrightarrow> queue_step M (d, C) (snd (finalize_success sha c m now d), C)"
| release: "c \<in> C \<Longrightarrow> queue_step M (d, C) (snd (release_retryable sha c code now M b st ty d), C)"
| failure: "c \<in> C \<Longrightarrow> queue_step M (d, C) (snd (finalize_failure sha c code now st ty d), C)"
| recover: "queue_step M (d, C) (snd (recover_stale_runs sha now M b d), C)"
| worker: "queue_step M (d, C) (record_worker_heartbeat now p h d, C)"
| source_reset: "queue_step M (d, C) (d\<lparr>last_reset_at := t\<rparr>, C)"

definition fresh_queue :: "report_db \<times> run_claim set \<Rightarrow> bool" where
  "fresh_queue x \<longleftrightarrow> runs (fst x) = [] \<and> attempts (fst x) = [] \<and> snd x = {}"

lemma fresh_queue_ok: "fresh_queue x \<Longrightarrow> queue_ok M x"
  by (cases x) (simp add: fresh_queue_def queue_ok_def unique_rows_def attempts_ok_def claims_ok_def)

lemma queue_step_ok:
  assumes "queue_step M x y" and "1 \<le> M" and "queue_ok M x"
  shows "queue_ok M y"
  using assms
proof (induction rule: queue_step.induct)
  case (claim token C sha now v ls k d cl d')
  show ?case by (rule claim_next_keeps [OF claim(4,3,1,2)])
next
  case (source_reset d C t)
  then show ?case by (subst queue_ok_tables [of _ d]) simp_all
qed (simp_all add: enqueue_scheduled_keeps enqueue_manual_keeps enqueue_cli_keeps heartbeat_keeps
    record_stage_keeps finalize_success_keeps release_retryable_keeps finalize_failure_keeps
    recover_stale_runs_keeps worker_heartbeat_keeps)

text \<open>A running row of the next state was running under the same token, or its token is new.\<close>

definition tokens_kept :: "report_db \<Rightarrow> report_db \<Rightarrow> bool" where
  "tokens_kept d d' \<longleftrightarrow> (\<forall>c. claim_is_owned c d' \<longrightarrow> claim_is_owned c d)"

lemma tokens_kept_same: "runs d' = runs d \<Longrightarrow> tokens_kept d d'"
  by (simp add: tokens_kept_def claim_is_owned_def)

lemma tokens_kept_trans: "tokens_kept d d' \<Longrightarrow> tokens_kept d' d'' \<Longrightarrow> tokens_kept d d''"
  by (simp add: tokens_kept_def)

lemma tokens_kept_update:
  assumes "\<And>r c. P r \<Longrightarrow> owns c (f r) \<Longrightarrow> owns c r"
  shows "tokens_kept d (update_runs P f d)"
  using assms unfolding tokens_kept_def claim_is_owned_def Bex_def runs_update by metis

lemma tokens_kept_add: "pr_status r \<noteq> Running \<Longrightarrow> tokens_kept d (d\<lparr>runs := runs d @ [r]\<rparr>)"
  by (auto simp: tokens_kept_def claim_is_owned_def owns_def)

lemma tokens_kept_fold: "(\<And>x e. tokens_kept e (g x e)) \<Longrightarrow> tokens_kept d (fold g xs d)"
  by (induction xs arbitrary: d) (auto intro: tokens_kept_same tokens_kept_trans)

lemma not_owns_ended [simp]: "pr_status r \<noteq> Running \<Longrightarrow> \<not> owns c r"
  by (simp add: owns_def)

lemma queue_ops_tokens:
  "tokens_kept d (snd (enqueue_scheduled i bd sf now d))"
  "tokens_kept d (snd (enqueue_manual i nonce who wk force now d))"
  "tokens_kept d (snd (enqueue_cli i wk now d))"
  "tokens_kept d (snd (heartbeat c now ls d))"
  "tokens_kept d (snd (record_stage c st now d))"
  "tokens_kept d (snd (finalize_success sha c m now d))"
  "tokens_kept d (snd (release_retryable sha c code now M b sg ty d))"
  "tokens_kept d (snd (finalize_failure sha c code now sg ty d))"
  "tokens_kept d (snd (recover_stale_runs sha now M b d))"

proof -
  have upd: "tokens_kept e (record_attempt sha c' now o' sg cd ty' m' (update_runs P f e))"
    if "\<And>r. pr_status (f r) \<noteq> Running" for e c' o' sg cd ty' m' P f
    using tokens_kept_update [of P f e] that
    by (auto intro: tokens_kept_trans [OF _ tokens_kept_same])
  have upd': "tokens_kept e (update_runs P f e)" if "\<And>r. pr_status (f r) \<noteq> Running" for e P f
    using tokens_kept_update [of P f e] that by simp
  show "tokens_kept d (snd (enqueue_scheduled i bd sf now d))"
    unfolding enqueue_scheduled_def Let_def by (auto intro: tokens_kept_same tokens_kept_add)
  show "tokens_kept d (snd (enqueue_manual i nonce who wk force now d))"
    using enqueue_manual_cases [of i nonce who wk force now d]
    by (auto simp: Let_def tokens_kept_same tokens_kept_add)
  show "tokens_kept d (snd (enqueue_cli i wk now d))"
    unfolding enqueue_cli_def by (auto split: sum.split intro: tokens_kept_same tokens_kept_add)
  show "tokens_kept d (snd (heartbeat c now ls d))"
    unfolding heartbeat_def snd_conv by (rule tokens_kept_update) (simp add: owns_def)
  have st: "tokens_kept d (update_runs (owns c) (\<lambda>r. r\<lparr>pr_stage := Some st, pr_stage_started_at := Some now\<rparr>) d)"
    by (rule tokens_kept_update) (simp add: owns_def)
  show "tokens_kept d (snd (record_stage c st now d))"
    by (cases "st \<notin> {''extract'', ''transform'', ''load''}")
      (use st in \<open>simp_all only: record_stage_def if_True if_False snd_conv tokens_kept_same
        not_True_eq_False not_False_eq_True\<close>)
  show "tokens_kept d (snd (finalize_success sha c m now d))"
    unfolding finalize_success_def Let_def by (auto intro!: upd upd')
  show "tokens_kept d (snd (release_retryable sha c code now M b sg ty d))"
    unfolding release_retryable_def Let_def by (auto intro!: upd upd')
  show "tokens_kept d (snd (finalize_failure sha c code now sg ty d))"
    unfolding finalize_failure_def Let_def by (auto intro!: upd upd')
  show "tokens_kept d (snd (recover_stale_runs sha now M b d))"
    unfolding recover_stale_runs_def Let_def snd_conv
    by (rule tokens_kept_fold) (simp only: recover_row_def, rule upd, simp)
qed


lemma claim_next_tokens:
  assumes "claim_next sha token now v ls k d = (cl, d')" and "claim_is_owned c d'" and "rc_token c \<noteq> token"
  shows "claim_is_owned c d"
proof (cases rule: claim_next_cases [of sha token now v ls k d])
  case none
  with assms show ?thesis by simp
next
  case (claim r)
  let ?d1 = "update_runs (\<lambda>s. pr_id s = pr_id r) (claim_row now v token ls) d"
  let ?r = "claim_row now v token ls r"
  have d1: "claim_is_owned c d" if "claim_is_owned c ?d1"
  proof -
    from that obtain s0 where s0: "s0 \<in> set (runs d)"
      "owns c (if pr_id s0 = pr_id r then claim_row now v token ls s0 else s0)"
      unfolding claim_is_owned_def Bex_def runs_update by blast
    then have "owns c s0" using assms(3) by (cases "pr_id s0 = pr_id r") (simp_all add: owns_def)
    with s0(1) show ?thesis unfolding claim_is_owned_def by blast
  qed
  show ?thesis
  proof (cases "target_weeks (pr_week ?r) now (last_reset_at ?d1) k")
    case (Inr w)
    have "d' = update_runs (\<lambda>s. pr_id s = pr_id r) (\<lambda>s. s\<lparr>pr_target_weeks := Some w\<rparr>) ?d1"
      using assms(1) claim(5) unfolding Let_def Inr by simp
    moreover have "tokens_kept ?d1 (update_runs (\<lambda>s. pr_id s = pr_id r) (\<lambda>s. s\<lparr>pr_target_weeks := Some w\<rparr>) ?d1)"
      by (rule tokens_kept_update) (simp add: owns_def)
    ultimately show ?thesis using assms(2) d1 unfolding tokens_kept_def by blast
  next
    case (Inl e)
    let ?c = "claim_of ?r token []"
    let ?d2 = "update_runs (owns ?c) (fail_row now VALIDATE_FAILED) ?d1"
    have "runs d' = runs ?d2"
      using assms(1) claim(5) unfolding Let_def Inl by auto
    then have "claim_is_owned c ?d2" using assms(2) by (simp add: claim_is_owned_def)
    moreover have "tokens_kept ?d1 ?d2" by (rule tokens_kept_update) simp
    ultimately show ?thesis using d1 unfolding tokens_kept_def by blast
  qed
qed

lemma lost_kept: "tokens_kept d d' \<Longrightarrow> \<not> claim_is_owned c d \<Longrightarrow> \<not> claim_is_owned c d'"
  unfolding tokens_kept_def by blast

lemma step_keeps_lost:
  assumes "queue_step M x y" and "c \<in> snd x" and "\<not> claim_is_owned c (fst x)"
  shows "c \<in> snd y \<and> \<not> claim_is_owned c (fst y)"
  using assms
proof (induction rule: queue_step.induct)
  case (claim token C sha now v ls k d cl d')
  then have "rc_token c \<noteq> token" by auto
  with claim claim_next_tokens [OF claim(2)] show ?case by auto
next
  case (worker d C now p h)
  then show ?case
    by (simp add: claim_is_owned_def record_worker_heartbeat_def)
next
  case (source_reset d C t)
  then show ?case by (simp add: lost_kept [OF tokens_kept_same, of "d\<lparr>last_reset_at := t\<rparr>" d])
qed (simp_all add: queue_ops_tokens [THEN lost_kept])

section \<open>Properties\<close>

text \<open>
  C2: whatever the API, the scheduler and the workers do and in whatever order, starting from empty
  tables: at most one run is running, every run's columns fit its status, no run is attempted more
  often than the limit, every ended attempt has exactly one row of evidence and the attempt under way
  has none, and no two pending manual requests for the same week or two scheduled runs of the same
  slot exist.\<close>

theorem queue_invariant:
  assumes "1 \<le> M" and "fresh_queue x" and "(queue_step M)\<^sup>*\<^sup>* x y"
  shows "queue_ok M y"
  using assms(3)
proof (induction rule: rtranclp_induct)
  case base
  then show ?case by (rule fresh_queue_ok [OF assms(2)])
next
  case (step y z)
  then show ?case using queue_step_ok assms(1) by blast
qed

definition empty_queue :: report_db where
  "empty_queue = \<lparr>runs = [], attempts = [], heartbeats = [], last_reset_at = None\<rparr>"

theorem queue_invariant_witness:
  "queue_ok 5 (snd (enqueue_scheduled ''r1'' (Some 738000) None 0 empty_queue), {})"
proof (rule queue_invariant)
  show "fresh_queue (empty_queue, {})" by (simp add: fresh_queue_def empty_queue_def)
  show "(queue_step 5)\<^sup>*\<^sup>* (empty_queue, {}) (snd (enqueue_scheduled ''r1'' (Some 738000) None 0 empty_queue), {})"
    by (rule r_into_rtranclp, rule queue_step.scheduled) (simp add: empty_queue_def)
qed simp


text \<open>
  C30: \<open>claim_next\<close> hands out a run only when none is running, and then the longest waiting of the
  runs that are due. The run becomes running under the new token with a lease, its attempt count goes
  up by one, and no other run changes.
\<close>

theorem claim_next_takes_oldest:
  assumes "queue_ok M (d, C)" and "claim_next sha token now v ls k d = (Some c, d')"
  shows "\<exists>r r'. r \<in> set (runs d) \<and> eligible now r \<and> pr_id r = rc_run c \<and>
     (\<forall>s\<in>set (runs d). pr_status s \<noteq> Running) \<and>
     (\<forall>s\<in>set (runs d). eligible now s \<longrightarrow> pr_requested_at r \<le> pr_requested_at s) \<and>
     rc_token c = token \<and> rc_attempt c = pr_attempt r + 1 \<and>
     runs d' = map (\<lambda>s. if pr_id s = rc_run c then r' else s) (runs d) \<and>
     r' = (claim_row now v token ls r)\<lparr>pr_target_weeks := Some (rc_target_weeks c)\<rparr>"
proof (cases rule: claim_next_cases [of sha token now v ls k d])
  case none
  with assms(2) show ?thesis by simp
next
  case (claim r)
  let ?d1 = "update_runs (\<lambda>s. pr_id s = pr_id r) (claim_row now v token ls) d"
  let ?r = "claim_row now v token ls r"
  have u: "unique_rows d" using assms(1) by (simp add: queue_ok_def)
  have free: "\<forall>s\<in>set (runs d). pr_status s \<noteq> Running"
    using claim(4) queue_row [OF assms(1)] unfolding row_ok_def by blast
  obtain w where w: "target_weeks (pr_week ?r) now (last_reset_at ?d1) k = Inr w"
    using assms(2) claim(5) unfolding Let_def
    by (cases "target_weeks (pr_week ?r) now (last_reset_at ?d1) k") auto
  have res: "c = claim_of ?r token w"
    "d' = update_runs (\<lambda>s. pr_id s = pr_id r) (\<lambda>s. s\<lparr>pr_target_weeks := Some w\<rparr>) ?d1"
    using assms(2) claim(5) unfolding Let_def w by simp_all
  have "runs d' = map (\<lambda>s. if pr_id s = pr_id r then ?r\<lparr>pr_target_weeks := Some w\<rparr> else s) (runs d)"
    unfolding res(2) update_runs_def using id_unique [OF u _ claim(1)] by (auto simp: comp_def)
  with claim(1,2,3) free show ?thesis by (auto simp: res(1))
qed


text \<open>A queue with two scheduled runs, entered out of order, and its first claim.\<close>

definition waiting_queue :: report_db where
  "waiting_queue = snd (enqueue_scheduled ''r2'' (Some 20001) None 10
     (snd (enqueue_scheduled ''r1'' (Some 20000) None 20 empty_queue)))"

definition first_claim :: run_claim where
  "first_claim = \<lparr>rc_run = ''r2'', rc_token = ''t1'', rc_trigger = Scheduled, rc_week = None,
     rc_target_weeks = [-17, -10, -3], rc_attempt = 1\<rparr>"

definition claimed_queue :: report_db where
  "claimed_queue = snd (claim_next None ''t1'' 100 ''v1'' 900 3 waiting_queue)"

definition swept_queue :: report_db where
  "swept_queue = snd (recover_stale_runs None (seconds 901) 5 60 claimed_queue)"

lemma waiting_queue_ok: "queue_ok 5 (waiting_queue, {})"
  unfolding waiting_queue_def
  by (intro enqueue_scheduled_keeps fresh_queue_ok)
    (simp_all add: fresh_queue_def empty_queue_def enqueue_scheduled_def)

lemma first_claim_handed_out:
  "claim_next None ''t1'' 100 ''v1'' 900 3 waiting_queue = (Some first_claim, claimed_queue)"
proof -
  have "fst (claim_next None ''t1'' 100 ''v1'' 900 3 waiting_queue) = Some first_claim" by code_simp
  then show ?thesis unfolding claimed_queue_def by (metis prod.collapse)
qed

lemma claimed_queue_ok: "queue_ok 5 (claimed_queue, {first_claim})"
  using claim_next_keeps [OF waiting_queue_ok _ _ first_claim_handed_out] by simp

theorem claim_next_witness:
  "pr_id (hd (runs waiting_queue)) = ''r1'' \<and> rc_run first_claim = ''r2'' \<and> rc_attempt first_claim = 1 \<and>
   (\<exists>r. r \<in> set (runs waiting_queue) \<and> pr_id r = ''r2'' \<and>
      list_all (\<lambda>s. pr_requested_at r \<le> pr_requested_at s) (filter (eligible 100) (runs waiting_queue)))"
proof -
  have "pr_id (hd (runs waiting_queue)) = ''r1''" by code_simp
  with claim_next_takes_oldest [OF waiting_queue_ok first_claim_handed_out]
  show ?thesis unfolding list_all_iff by (auto simp: first_claim_def)
qed


text \<open>What a final transition of an owned claim leaves behind.\<close>

lemma final_effect:
  assumes ok: "queue_ok M (d, C)" and c: "c \<in> C" and own: "claim_is_owned c d" and f: "\<And>s. same_request s (f s)"
  shows "\<exists>r a. find_run d (rc_run c) = Some r \<and> pr_status r = Running \<and> pr_attempt r = rc_attempt c \<and>
     find_run (record_attempt sha c now out sg code ty m (update_runs (owns c) f d)) (rc_run c) = Some (f r) \<and>
     attempts (record_attempt sha c now out sg code ty m (update_runs (owns c) f d)) = attempts d @ [a] \<and>
     at_run a = rc_run c \<and> at_number a = rc_attempt c \<and> at_outcome a = out"
proof -
  let ?d1 = "update_runs (owns c) f d"
  from owned_row [OF ok c own] obtain r where r: "r \<in> set (runs d)" "pr_status r = Running"
    "rc_run c = pr_id r" "rc_attempt c = pr_attempt r" "owns c r" by blast
  have u: "unique_rows d" and ev: "evidence_ok d r" using ok r(1) by (auto simp: queue_ok_def)
  have idf: "pr_id (f s) = pr_id s" for s using f [of s] by (simp add: same_request_def)
  have d1: "distinct (map pr_id (runs ?d1))" using u idf by (simp add: unique_rows_def)
  have fr_in: "f r \<in> set (runs ?d1)" unfolding runs_update using r(1,5) by (intro bexI [of _ r]) simp_all
  have find: "find_run ?d1 (rc_run c) = Some (f r)"
    using find_key_unique [OF d1 fr_in] by (simp add: find_run_def r(3) idf)
  have "\<not> has_evidence d (rc_run c) (rc_attempt c)"
    using ev r(2) unfolding evidence_ok_def r(3,4) by simp
  then have none: "\<not> has_evidence ?d1 (rc_run c) (rc_attempt c)" by (simp add: has_evidence_def)
  have find0: "find_run d (rc_run c) = Some r"
    using find_key_unique [of pr_id, OF _ r(1)] u by (simp add: find_run_def r(3) unique_rows_def)
  from record_attempt_new [OF find none, of sha now out sg code ty m] obtain a where
    a: "record_attempt sha c now out sg code ty m ?d1 = ?d1\<lparr>attempts := attempts ?d1 @ [a]\<rparr>"
      "at_run a = rc_run c" "at_number a = rc_attempt c" "at_outcome a = out" by blast
  have "attempts (record_attempt sha c now out sg code ty m ?d1) = attempts d @ [a]" unfolding a(1) by simp
  moreover have "find_run (record_attempt sha c now out sg code ty m ?d1) (rc_run c) = Some (f r)"
    using find by (simp add: find_run_def)
  ultimately show ?thesis using find0 r a(2-4) by metis
qed

text \<open>
  C32: releasing a failed attempt ends it with its evidence and either schedules the next one after an
  exponential backoff (the base delay doubled with every attempt: not eligible a moment earlier) or,
  when the limit is reached, fails the run for good, so that it is never claimed again.
\<close>

theorem release_backs_off:
  assumes "queue_ok M (d, C)" and "c \<in> C" and "claim_is_owned c d"
    and "release_retryable sha c code now M base sg ty d = (res, d')"
  shows "res \<and> (\<exists>r' a. find_run d' (rc_run c) = Some r' \<and> pr_token r' = None \<and>
     attempts d' = attempts d @ [a] \<and> at_run a = rc_run c \<and> at_number a = rc_attempt c \<and>
     (if M \<le> rc_attempt c
      then at_outcome a = ''exhausted'' \<and> pr_status r' = Failed \<and>
        pr_error_code r' = Some MAX_ATTEMPTS_EXCEEDED \<and> (\<forall>t. \<not> eligible t r')
      else at_outcome a = ''retried'' \<and> pr_status r' = Retryable \<and> pr_error_code r' = Some code \<and>
        (\<forall>t. eligible t r' \<longleftrightarrow> now + seconds (base * 2 ^ nat (rc_attempt c - 1)) \<le> t)))"
proof -
  have one: "rowcount (owns c) d = 1" by (rule owned_row [OF assms(1-3)])
  let ?out = "if M \<le> rc_attempt c then ''exhausted'' else ''retried''"
  have res: "res" and d': "d' = record_attempt sha c now ?out sg (Some code) ty None
      (update_runs (owns c) (release_row now (rc_attempt c) M base code) d)"
    using assms(4) one unfolding release_retryable_def Let_def by simp_all
  from final_effect [OF assms(1-3), where f = "release_row now (rc_attempt c) M base code" and sha = sha
      and now = now and out = ?out and sg = sg and code = "Some code" and ty = ty and m = None,
      OF same_request_simps(4)] obtain r a where
    r: "find_run d (rc_run c) = Some r" "pr_status r = Running" "pr_attempt r = rc_attempt c"
    and e: "find_run d' (rc_run c) = Some (release_row now (rc_attempt c) M base code r)"
      "attempts d' = attempts d @ [a]" "at_run a = rc_run c" "at_number a = rc_attempt c" "at_outcome a = ?out"
    unfolding d' by blast
  have "r \<in> set (runs d)" using r(1) by (auto simp: find_run_def dest: find_Some_in)
  then have "row_ok M r" using queue_row [OF assms(1)] by blast
  then have pipe: "pr_pipeline r = PIPELINE_NAME" and "1 \<le> rc_attempt c"
    using r(2,3) by (auto simp: row_ok_def)
  then have pow: "max 0 (rc_attempt c - 1) = rc_attempt c - 1" by simp
  show ?thesis
    using res e pipe pow
    by (auto simp: release_row_def fail_row_def retry_row_def clear_claim_def eligible_def backoff_def)
qed


theorem release_backs_off_witness:
  "\<exists>d'. release_retryable None first_claim DB_UNAVAILABLE 500 5 60 None None claimed_queue = (True, d') \<and>
     (\<exists>r. find_run d' ''r2'' = Some r \<and> \<not> eligible (499 + seconds 60) r \<and> eligible (500 + seconds 60) r)"
proof -
  have own: "claim_is_owned first_claim claimed_queue" by code_simp
  obtain res d' where d': "release_retryable None first_claim DB_UNAVAILABLE 500 5 60 None None claimed_queue = (res, d')"
    by (cases "release_retryable None first_claim DB_UNAVAILABLE 500 5 60 None None claimed_queue")
  from release_backs_off [OF claimed_queue_ok insertI1 own d']
  show ?thesis using d' by (auto simp: first_claim_def seconds_def)
qed

text \<open>
  The stale sweep ends exactly the runs whose lease has expired. They are counted, get the evidence
  of the lost attempt and become due again later or fail; afterwards no expired lease is left, and a
  run whose lease still holds, or which is not running, is untouched.
\<close>

theorem sweep_recovers_only_expired:
  assumes "queue_ok M (d, C)" and "recover_stale_runs sha now M base d = (n, d')"
  shows "n = length (filter (stale now) (runs d)) \<and>
     (\<forall>r\<in>set (runs d'). \<not> stale now r) \<and>
     (\<forall>r\<in>set (runs d). \<not> stale now r \<longrightarrow> r \<in> set (runs d')) \<and>
     (\<forall>r\<in>set (runs d). stale now r \<longrightarrow>
        release_row now (pr_attempt r) M base STALE_ABANDONED r \<in> set (runs d') \<and>
        has_evidence d' (pr_id r) (pr_attempt r)) \<and>
     (n = 0 \<longrightarrow> d' = d)"
proof (cases "filter (stale now) (runs d) = []")
  case True
  with assms(2) show ?thesis by (auto simp: recover_stale_runs_def filter_empty_conv)
next
  case False
  then obtain r where r: "r \<in> set (runs d)" "stale now r" by (auto simp: filter_empty_conv)
  have run: "pr_status r = Running" using r(2) by (simp add: stale_def)
  have u: "unique_rows d" using assms(1) by (simp add: queue_ok_def)
  have one: "filter (stale now) (runs d) = [r]" using one_running [OF u r(1) run] r(2) by simp
  let ?f = "release_row now (pr_attempt r) M base STALE_ABANDONED"
  let ?P = "\<lambda>s. pr_id s = pr_id r \<and> pr_status s = Running"
  have res: "n = 1" and d': "d' = recover_row sha now M base r d"
    using assms(2) by (simp_all add: recover_stale_runs_def one)
  have runs': "runs d' = runs (update_runs ?P ?f d)" by (simp add: d' recover_row_def)
  have P: "?P s \<longleftrightarrow> s = r" if "s \<in> set (runs d)" for s
    using id_unique [OF u that r(1)] run by metis
  have stale_one: "stale now s \<longleftrightarrow> s = r" if "s \<in> set (runs d)" for s
  proof -
    have "s \<in> set (filter (stale now) (runs d)) \<longleftrightarrow> s = r" unfolding one by simp
    with that show ?thesis by simp
  qed
  have mem: "s \<in> set (runs d') \<longleftrightarrow> (\<exists>s0\<in>set (runs d). s = (if s0 = r then ?f s0 else s0))" for s
    unfolding runs' runs_update using P by (metis (no_types, lifting))
  have fr: "?f r \<in> set (runs d')" unfolding mem using r(1) by (intro bexI [of _ r]) simp_all
  have nst: "\<not> stale now (?f r)" by (simp add: stale_def)
  have "queue_ok M (d', C)" using recover_stale_runs_keeps [OF assms(1), of sha now base] assms(2) by simp
  then have "evidence_ok d' (?f r)" "row_ok M r" using fr queue_row [OF assms(1) r(1)] by (auto simp: queue_ok_def)
  moreover have "pr_id (?f r) = pr_id r" using same_request_simps(4) unfolding same_request_def by blast
  moreover have "1 \<le> pr_attempt r" using \<open>row_ok M r\<close> run by (auto simp: row_ok_def)
  ultimately have ev: "has_evidence d' (pr_id r) (pr_attempt r)"
    unfolding evidence_ok_def by simp
  show ?thesis
  proof (intro conjI ballI impI)
    show "n = length (filter (stale now) (runs d))" by (simp add: one res)
    show "\<not> stale now s" if "s \<in> set (runs d')" for s
      using that stale_one nst unfolding mem by (metis (full_types))
    show "s \<in> set (runs d')" if "s \<in> set (runs d)" "\<not> stale now s" for s
      using that stale_one unfolding mem by (metis (full_types))
    show "release_row now (pr_attempt s) M base STALE_ABANDONED s \<in> set (runs d')"
      if "s \<in> set (runs d)" "stale now s" for s
      using fr stale_one [OF that(1)] that(2) by simp
    show "has_evidence d' (pr_id s) (pr_attempt s)" if "s \<in> set (runs d)" "stale now s" for s
      using ev stale_one [OF that(1)] that(2) by simp
    show "d' = d" if "n = 0" using that res by simp
  qed
qed

theorem sweep_witness:
  "fst (recover_stale_runs None (seconds 901) 5 60 claimed_queue) = 1 \<and>
   has_evidence swept_queue ''r2'' 1 \<and> list_all (\<lambda>r. \<not> stale (seconds 901) r) (runs swept_queue)"
proof -
  obtain n where n: "recover_stale_runs None (seconds 901) 5 60 claimed_queue = (n, swept_queue)"
    unfolding swept_queue_def by (metis prod.collapse)
  have "fst (recover_stale_runs None (seconds 901) 5 60 claimed_queue) = 1" "has_evidence swept_queue ''r2'' 1"
    by code_simp+
  with sweep_recovers_only_expired [OF claimed_queue_ok n] show ?thesis unfolding list_all_iff by blast
qed

text \<open>
  A worker that renews its lease keeps its run through every sweep up to the moment the renewed
  lease ends.
\<close>

theorem renewed_lease_survives_sweep:
  assumes "queue_ok M (d, C)" and "claim_is_owned c d" and "t \<le> now + seconds ls"
  shows "claim_is_owned c (snd (recover_stale_runs sha t M base (snd (heartbeat c now ls d))))"
proof -
  let ?f = "\<lambda>r. r\<lparr>pr_heartbeat_at := Some now, pr_lease_expires_at := Some (now + seconds ls)\<rparr>"
  let ?d1 = "update_runs (owns c) ?f d"
  have hb: "snd (heartbeat c now ls d) = ?d1" by (simp add: heartbeat_def)
  obtain r where r: "r \<in> set (runs d)" "owns c r" using assms(2) by (auto simp: claim_is_owned_def)
  have fr: "?f r \<in> set (runs ?d1)" unfolding runs_update using r by (intro bexI [of _ r]) simp_all
  have own: "owns c (?f r)" using r(2) by (simp add: owns_def)
  have "queue_ok M (?d1, C)" using heartbeat_keeps [OF assms(1), of c now ls] unfolding hb .
  then have u: "unique_rows ?d1" by (simp add: queue_ok_def)
  have "\<not> stale t (?f r)" using assms(3) by (simp add: stale_def)
  moreover have "pr_status (?f r) = Running" using own by (simp add: owns_def)
  ultimately have "filter (stale t) (runs ?d1) = []" using one_running [OF u fr] by simp
  then have "snd (recover_stale_runs sha t M base ?d1) = ?d1" by (simp add: recover_stale_runs_def)
  then show ?thesis unfolding hb claim_is_owned_def using fr own by (metis)
qed

theorem renewed_lease_witness:
  "claim_is_owned first_claim (snd (recover_stale_runs None (seconds 1000) 5 60
     (snd (heartbeat first_claim (seconds 600) 900 claimed_queue))))"
proof (rule renewed_lease_survives_sweep [OF claimed_queue_ok])
  show "claim_is_owned first_claim claimed_queue" by code_simp
qed (simp add: seconds_def)


text \<open>The window of a run without a requested week is always defined: its candidates are Mondays.\<close>

lemma target_weeks_window: "\<exists>w. target_weeks None now reset k = Inr w"
proof -
  let ?cur = "iso_week_start now"
  have "isoweekday (?cur - 7 * int j) = 1" for j
    unfolding iso_week_start_def isoweekday_def Let_def by presburger
  then have "rmap target_week (map (\<lambda>k. PyDate (?cur - 7 * int k)) (rev [0..<k])) =
      Inr (map (\<lambda>k. ?cur - 7 * int k) (rev [0..<k]))"
    unfolding rmap_Inr_iff by (simp add: target_week_def)
  then show ?thesis
    by (cases reset) (simp_all add: target_weeks_def recomputable_weeks_def rbind_def reset_value_def
        aware_utc_def Let_def)
qed

lemma claim_next_due:
  assumes "s \<in> set (runs d)" and "eligible now s" and "\<forall>s\<in>set (runs d). pr_status s \<noteq> Running"
  obtains r where "r \<in> set (runs d)" and "eligible now r"
    and "claim_next sha token now v ls k d =
        (let r' = claim_row now v token ls r;
             d1 = update_runs (\<lambda>s. pr_id s = pr_id r) (claim_row now v token ls) d
         in (case target_weeks (pr_week r') now (last_reset_at d1) k of
               Inl _ \<Rightarrow>
                 (None,
                  record_attempt sha (claim_of r' token []) now ''failed'' (Some ''orchestration'')
                    (Some VALIDATE_FAILED) (Some ''QueueValidationError'') None
                    (update_runs (owns (claim_of r' token [])) (fail_row now VALIDATE_FAILED) d1))
             | Inr weeks \<Rightarrow>
                 (Some (claim_of r' token weeks),
                  update_runs (\<lambda>s. pr_id s = pr_id r) (\<lambda>s. s\<lparr>pr_target_weeks := Some weeks\<rparr>) d1)))"
proof -
  have "filter (eligible now) (runs d) \<noteq> []" using assms(1,2) by (auto simp: filter_empty_conv)
  then have "sort_key pr_requested_at (filter (eligible now) (runs d)) \<noteq> []" by (simp add: sort_key_Nil_iff)
  then obtain r rs where r: "sort_key pr_requested_at (filter (eligible now) (runs d)) = r # rs"
    by (cases "sort_key pr_requested_at (filter (eligible now) (runs d))") simp_all
  have no: "\<not> (\<exists>s\<in>set (runs d). pr_status s = Running \<and> pr_pipeline s = pr_pipeline r)" using assms(3) by blast
  have "set (r # rs) = {s \<in> set (runs d). eligible now s}" unfolding r [symmetric] by auto
  then have "r \<in> set (runs d)" "eligible now r" by auto
  then show thesis
    by (rule that) (unfold claim_next_def r list.case if_not_P [OF no], rule refl)
qed

text \<open>
  C31: the queue never sits on due work. When nothing runs and some run is due, \<open>claim_next\<close> hands out
  a claim, unless the run it took asks for a week that has become invalid; then that run fails for good,
  with the evidence of its attempt, so that it cannot block the next call.
\<close>

theorem claim_next_progress:
  assumes "queue_ok M (d, C)" and "1 \<le> M" and "token \<notin> rc_token ` C"
    and "s \<in> set (runs d)" and "eligible now s" and "\<forall>s\<in>set (runs d). pr_status s \<noteq> Running"
    and "claim_next sha token now v ls k d = (cl, d')"
  shows "cl \<noteq> None \<or> (\<exists>r r'. r \<in> set (runs d) \<and> eligible now r \<and> pr_week r \<noteq> None \<and>
     find_run d' (pr_id r) = Some r' \<and> pr_status r' = Failed \<and>
     pr_error_code r' = Some VALIDATE_FAILED \<and> (\<forall>t. \<not> eligible t r') \<and>
     has_evidence d' (pr_id r) (pr_attempt r + 1))"
proof -
  obtain r where r: "r \<in> set (runs d)" "eligible now r" and res: "claim_next sha token now v ls k d =
        (let r' = claim_row now v token ls r;
             d1 = update_runs (\<lambda>s. pr_id s = pr_id r) (claim_row now v token ls) d
         in (case target_weeks (pr_week r') now (last_reset_at d1) k of
               Inl _ \<Rightarrow>
                 (None,
                  record_attempt sha (claim_of r' token []) now ''failed'' (Some ''orchestration'')
                    (Some VALIDATE_FAILED) (Some ''QueueValidationError'') None
                    (update_runs (owns (claim_of r' token [])) (fail_row now VALIDATE_FAILED) d1))
             | Inr weeks \<Rightarrow>
                 (Some (claim_of r' token weeks),
                  update_runs (\<lambda>s. pr_id s = pr_id r) (\<lambda>s. s\<lparr>pr_target_weeks := Some weeks\<rparr>) d1)))"
    by (rule claim_next_due [OF assms(4-6)])
  let ?d1 = "update_runs (\<lambda>s. pr_id s = pr_id r) (claim_row now v token ls) d"
  let ?r = "claim_row now v token ls r"
  show ?thesis
  proof (cases "target_weeks (pr_week ?r) now (last_reset_at ?d1) k")
    case (Inr w)
    with assms(7) res show ?thesis unfolding Let_def Inr by auto
  next
    case (Inl e)
    let ?c = "claim_of ?r token []"
    have wk: "pr_week r \<noteq> None"
      using target_weeks_window [of now "last_reset_at ?d1" k] Inl by (cases "pr_week r") auto
    have claimed: "queue_ok M (?d1, insert ?c C)"
      by (rule claim_ok [OF assms(1) r assms(2)]) (use assms(3,6) in simp_all)
    have "?r \<in> set (runs ?d1)" unfolding runs_update using r(1) by (intro bexI [of _ r]) simp_all
    then have owned: "claim_is_owned ?c ?d1"
      unfolding claim_is_owned_def by (rule bexI [rotated]) (simp add: owns_def)
    have d': "d' = record_attempt sha ?c now ''failed'' (Some ''orchestration'')
        (Some VALIDATE_FAILED) (Some ''QueueValidationError'') None
        (update_runs (owns ?c) (fail_row now VALIDATE_FAILED) ?d1)"
      using assms(7) res unfolding Let_def Inl by simp
    from final_effect [OF claimed insertI1 owned, where f = "fail_row now VALIDATE_FAILED" and sha = sha
        and now = now and out = "''failed''" and sg = "Some ''orchestration''" and code = "Some VALIDATE_FAILED"
        and ty = "Some ''QueueValidationError''" and m = None, OF same_request_simps(2)]
    obtain r0 a where f: "find_run d' (pr_id r) = Some (fail_row now VALIDATE_FAILED r0)"
      and a: "attempts d' = attempts d @ [a]" "at_run a = pr_id r" "at_number a = pr_attempt r + 1"
      unfolding d' [symmetric] by (auto simp del: record_attempt_fields)
    have "has_evidence d' (pr_id r) (pr_attempt r + 1)" unfolding has_evidence_def a(1) using a(2,3) by auto
    moreover have "\<not> eligible t (fail_row now VALIDATE_FAILED r0)" for t by (simp add: eligible_def)
    moreover have "pr_error_code (fail_row now VALIDATE_FAILED r0) = Some VALIDATE_FAILED"
      by (simp add: fail_row_def)
    ultimately show ?thesis using r wk f by (intro disjI2 exI [of _ r] exI [of _ "fail_row now VALIDATE_FAILED r0"]) simp
  qed
qed

theorem claim_next_progress_witness:
  "fst (claim_next None ''t1'' 100 ''v1'' 900 3 waiting_queue) \<noteq> None"
proof -
  have idle: "\<forall>s\<in>set (runs waiting_queue). pr_status s \<noteq> Running \<and> pr_week s = None" by code_simp
  have due: "hd (runs waiting_queue) \<in> set (runs waiting_queue)" "eligible 100 (hd (runs waiting_queue))"
    by code_simp+
  from idle have "\<forall>s\<in>set (runs waiting_queue). pr_status s \<noteq> Running" by blast
  from claim_next_progress [OF waiting_queue_ok _ _ due this first_claim_handed_out] idle
  show ?thesis unfolding first_claim_handed_out by auto
qed


text \<open>No request row is ever dropped, nor what it asked for.\<close>

definition requests_kept :: "report_db \<Rightarrow> report_db \<Rightarrow> bool" where
  "requests_kept d d' \<longleftrightarrow> (\<forall>r\<in>set (runs d). \<exists>r'\<in>set (runs d'). same_request r r')"

lemma requests_kept_refl [simp]: "requests_kept d d"
  unfolding requests_kept_def using same_request_simps(7) by blast

lemma requests_kept_trans: "requests_kept d d' \<Longrightarrow> requests_kept d' d'' \<Longrightarrow> requests_kept d d''"
  unfolding requests_kept_def using same_request_trans by blast

lemma requests_kept_grow: "set (runs d) \<subseteq> set (runs d') \<Longrightarrow> requests_kept d d'"
  unfolding requests_kept_def using same_request_simps(7) by blast

lemma requests_kept_update:
  assumes "\<And>r. same_request r (f r)"
  shows "requests_kept d (update_runs P f d)"
  unfolding requests_kept_def runs_update Bex_def
proof (intro ballI)
  fix r assume "r \<in> set (runs d)"
  moreover have "same_request r (if P r then f r else r)" using assms by simp
  ultimately show "\<exists>r'. (\<exists>s. s \<in> set (runs d) \<and> r' = (if P s then f s else s)) \<and> same_request r r'" by blast
qed

lemma requests_kept_record: "requests_kept d e \<Longrightarrow> requests_kept d (record_attempt sha c now out sg code ty m e)"
  by (simp add: requests_kept_def)

lemma requests_kept_fold: "(\<And>x e. requests_kept e (g x e)) \<Longrightarrow> requests_kept d (fold g xs d)"
  by (induction xs arbitrary: d) (auto intro: requests_kept_trans)

lemma step_keeps_requests:
  assumes "queue_step M x y"
  shows "requests_kept (fst x) (fst y)"
  using assms
proof (induction rule: queue_step.induct)
  case (scheduled i d C bd sf now)
  show ?case unfolding enqueue_scheduled_def Let_def by (auto intro: requests_kept_grow)
next
  case (manual i d C nonce who wk force now)
  show ?case using enqueue_manual_cases [of i nonce who wk force now d]
    by (auto simp: Let_def intro: requests_kept_grow)
next
  case (cli i d C wk now)
  show ?case unfolding enqueue_cli_def by (auto split: sum.split intro: requests_kept_grow)
next
  case (claim token C sha now v ls k d cl d')
  show ?case
  proof (cases rule: claim_next_cases [of sha token now v ls k d])
    case none
    with claim(2) show ?thesis by simp
  next
    case (claim r)
    let ?d1 = "update_runs (\<lambda>s. pr_id s = pr_id r) (claim_row now v token ls) d"
    have k1: "requests_kept d ?d1" by (rule requests_kept_update) simp
    have k2: "requests_kept ?d1 (update_runs P f ?d1)" if "\<And>r. same_request r (f r)" for P f
      by (rule requests_kept_update) (rule that)
    show ?thesis
      using claim(5) \<open>claim_next sha token now v ls k d = (cl, d')\<close> requests_kept_trans [OF k1 k2]
      unfolding Let_def
      by (cases "target_weeks (pr_week (claim_row now v token ls r)) now (last_reset_at ?d1) k")
        (auto intro!: requests_kept_record)
  qed
next
  case (renew c C d now ls)
  show ?case unfolding heartbeat_def snd_conv fst_conv by (rule requests_kept_update) simp
next
  case (stage c C d st now)
  show ?case
  proof (cases "st \<notin> {''extract'', ''transform'', ''load''}")
    case True
    then show ?thesis by (simp add: record_stage_def)
  next
    case False
    show ?thesis unfolding record_stage_def if_not_P [OF False] snd_conv fst_conv
      by (rule requests_kept_update) simp
  qed
next
  case (success c C sha m d now)
  show ?case unfolding finalize_success_def Let_def
    by (auto intro!: requests_kept_record requests_kept_update simp: same_request_def clear_claim_def)
next
  case (release c C sha code now b sg ty d)
  show ?case unfolding release_retryable_def Let_def
    by (auto intro!: requests_kept_record requests_kept_update)
next
  case (failure c C sha code now sg ty d)
  show ?case unfolding finalize_failure_def Let_def
    by (auto intro!: requests_kept_record requests_kept_update)
next
  case (recover d C sha now b)
  show ?case unfolding recover_stale_runs_def Let_def snd_conv fst_conv
    by (rule requests_kept_fold) (simp only: recover_row_def, intro requests_kept_record requests_kept_update, simp)
qed (simp_all add: requests_kept_grow record_worker_heartbeat_def)

text \<open>
  A slot of the schedule is requested once, for ever. The first request of a business date (or of a
  cadence instant) is stored with its date; from then on, whatever happens, the same request by any
  dispatcher stores nothing and reports no new run.
\<close>

theorem scheduled_slot_once:
  assumes "enqueue_scheduled i bd sf now d = (Inr (Some j), d')" and "(queue_step M)\<^sup>*\<^sup>* (d', C) (d'', C'')"
  shows "j = i \<and> (\<exists>r\<in>set (runs d'). pr_id r = i \<and> pr_business_date r = bd \<and> pr_scheduled_for r = sf \<and>
       pr_status r = Requested) \<and>
     enqueue_scheduled i' bd sf now' d'' = (Inr None, d'')"
proof -
  let ?r = "\<lambda>i now. (new_run i Scheduled ''system'' now)\<lparr>pr_business_date := bd, pr_scheduled_for := sf\<rparr>"
  have some: "\<not> (bd = None \<and> sf = None)" and j: "j = i" and d': "d' = d\<lparr>runs := runs d @ [?r i now]\<rparr>"
    using assms(1) unfolding enqueue_scheduled_def Let_def by (auto split: if_splits)
  have mem: "?r i now \<in> set (runs d')" unfolding d' by simp
  have "requests_kept (fst (d', C)) (fst (d'', C''))"
    using assms(2)
  proof (induction rule: rtranclp_induct)
    case (step y z)
    then show ?case using step_keeps_requests requests_kept_trans by blast
  qed simp
  then obtain s where s: "s \<in> set (runs d'')" "same_request (?r i now) s"
    using mem unfolding requests_kept_def fst_conv by blast
  have "same_slot (?r i' now') s"
    using s(2) some by (auto simp: same_slot_def same_request_def new_run_def)
  with s(1) some have "enqueue_scheduled i' bd sf now' d'' = (Inr None, d'')"
    unfolding enqueue_scheduled_def Let_def by auto
  moreover have "\<exists>r\<in>set (runs d'). pr_id r = i \<and> pr_business_date r = bd \<and> pr_scheduled_for r = sf \<and>
       pr_status r = Requested"
    using mem by (rule bexI [rotated]) simp
  ultimately show ?thesis using j by blast
qed

theorem scheduled_slot_once_witness:
  "enqueue_scheduled ''r9'' (Some 20001) None 99 (snd (enqueue_scheduled ''r2'' (Some 20001) None 10 empty_queue)) =
     (Inr None, snd (enqueue_scheduled ''r2'' (Some 20001) None 10 empty_queue))"
proof -
  have "enqueue_scheduled ''r2'' (Some 20001) None 10 empty_queue =
      (Inr (Some ''r2''), snd (enqueue_scheduled ''r2'' (Some 20001) None 10 empty_queue))"
    by (simp add: enqueue_scheduled_def empty_queue_def)
  from scheduled_slot_once [OF this rtranclp.rtrancl_refl] show ?thesis by blast
qed

end
