(* ===== verification/ReportRunner.thy ===== *)
theory ReportRunner
  imports Rollups ReportQueueSystem
begin

text \<open>
  The execution of a claimed run: the classification and retry of transient failures
  (\<open>retries.py\<close>), the direct SQL executor with its stages (\<open>direct_executor.py\<close>) and the one-shot
  runner (\<open>runner.py\<close>), all in \<open>data/pipelines/business_performance/\<close>.

  A worker shares the database with the API, the scheduler and other workers, and runs a thread that
  renews its lease. \<open>w_env\<close> says what they do: before each transaction of the worker the next entry
  is taken, which may change the database, let time pass, set the abort flag (the renewal thread does
  when it finds the lease lost) and make the transaction fail with an exception, rolled back or, when
  the connection breaks while it commits, committed all the same (\<open>es_committed\<close>). A list that is used
  up stands for an undisturbed database. Logging is left out.
\<close>

section \<open>Exceptions\<close>

datatype exn_class =
  ConnectionRefusedError | ConnectionResetError | ConnectionAbortedError | GaiError | TimeoutError | OSError
| DBAPIError | SQLAlchemyBaseError | OtherException

text \<open>
  An exception with its class, its type's name, its text, the \<open>sqlstate\<close> (or \<open>pgcode\<close>) of the driver
  error it wraps, and \<open>__cause__ or __context__\<close>.
\<close>

datatype py_exn = PyExn (exn_class: exn_class) (type_name: string) (exn_text: string)
  (exn_sqlstate: "string option") (exn_cause: "py_exn option")

record stage_error =
  se_stage :: string
  se_code :: error_code
  se_type :: string
  se_retryable :: bool
  se_reason :: "string option"

datatype run_exn =
  Fault py_exn | LeaseLost | StageError stage_error | PermanentRun error_code | TransientRun error_code
| QueueFailure queue_error | RollupFailure rollup_error | InvalidOutcome

definition exn_type_name :: "run_exn \<Rightarrow> string" where
  "exn_type_name e = (case e of
      Fault x \<Rightarrow> type_name x | LeaseLost \<Rightarrow> ''LeaseLostError'' | StageError _ \<Rightarrow> ''PipelineStageError''
    | PermanentRun _ \<Rightarrow> ''PermanentRunError'' | TransientRun _ \<Rightarrow> ''TransientRunError''
    | QueueFailure (QueueValidationError _) \<Rightarrow> ''QueueValidationError''
    | QueueFailure (LeaseLostError _) \<Rightarrow> ''LeaseLostError''
    | QueueFailure (QueueConfigurationError _) \<Rightarrow> ''QueueConfigurationError''
    | QueueFailure NoResultFound \<Rightarrow> ''NoResultFound''
    | RollupFailure _ \<Rightarrow> ''RollupValidationError'' | InvalidOutcome \<Rightarrow> ''RuntimeError'')"

section \<open>Transient failures\<close>

definition TRANSIENT_SQLSTATES :: "string list" where
  "TRANSIENT_SQLSTATES = [''57P01'', ''57P02'', ''57P03'']"

definition TRANSIENT_TEXT :: "string list" where
  "TRANSIENT_TEXT = [''connection refused'', ''connection reset'', ''connection closed unexpectedly'',
     ''server closed the connection unexpectedly'', ''connection is closed'', ''connect timeout'',
     ''connection timeout'', ''timeout expired'', ''temporarily unavailable'',
     ''database system is starting up'', ''could not translate host name'',
     ''temporary failure in name resolution'', ''name or service not known'']"

text \<open>\<open>fragment in text\<close>.\<close>

fun contains :: "string \<Rightarrow> string \<Rightarrow> bool" where
  "contains p [] \<longleftrightarrow> p = []"
| "contains p (c # s) \<longleftrightarrow> take (length p) (c # s) = p \<or> contains p s"

fun chain :: "py_exn \<Rightarrow> py_exn list" where
  "chain (PyExn c n t s None) = [PyExn c n t s None]"
| "chain (PyExn c n t s (Some e)) = PyExn c n t s (Some e) # chain e"

definition is_sqlalchemy :: "exn_class \<Rightarrow> bool" where
  "is_sqlalchemy c \<longleftrightarrow> c \<in> {DBAPIError, SQLAlchemyBaseError}"

definition is_oserror :: "exn_class \<Rightarrow> bool" where
  "is_oserror c \<longleftrightarrow> c \<in> {ConnectionRefusedError, ConnectionResetError, ConnectionAbortedError, GaiError,
     TimeoutError, OSError}"

fun transient_in :: "py_exn list \<Rightarrow> bool" where
  "transient_in [] \<longleftrightarrow> False"
| "transient_in (e # es) \<longleftrightarrow>
     (if exn_class e \<in> {ConnectionRefusedError, ConnectionResetError, ConnectionAbortedError, GaiError, TimeoutError}
      then True
      else case (if exn_class e = DBAPIError then exn_sqlstate e else None) of
          Some state \<Rightarrow> take 2 state = ''08'' \<or> state \<in> set TRANSIENT_SQLSTATES
        | None \<Rightarrow>
            if (is_sqlalchemy (exn_class e) \<or> is_oserror (exn_class e)) \<and>
               list_ex (\<lambda>p. contains p (to_lower (exn_text e))) TRANSIENT_TEXT
            then True else transient_in es)"

definition is_transient_connectivity_failure :: "run_exn \<Rightarrow> bool" where
  "is_transient_connectivity_failure e = (case e of Fault x \<Rightarrow> transient_in (chain x) | _ \<Rightarrow> False)"

text \<open>What \<open>except (SQLAlchemyError, OSError, TimeoutError)\<close> catches.\<close>

definition retried_class :: "run_exn \<Rightarrow> bool" where
  "retried_class e = (case e of Fault x \<Rightarrow> is_sqlalchemy (exn_class x) \<or> is_oserror (exn_class x) | _ \<Rightarrow> False)"

fun run_with_transient_retries ::
  "('d \<Rightarrow> 's \<Rightarrow> 's) \<Rightarrow> ('s \<Rightarrow> (run_exn + 'a) \<times> 's) \<Rightarrow> 'd list \<Rightarrow> 's \<Rightarrow> (run_exn + 'a) \<times> 's" where
  "run_with_transient_retries sleeper operation [] s = operation s"
| "run_with_transient_retries sleeper operation (d # ds) s =
     (case operation s of
        (Inr v, s') \<Rightarrow> (Inr v, s')
      | (Inl e, s') \<Rightarrow>
          if \<not> retried_class e \<or> \<not> is_transient_connectivity_failure e then (Inl e, s')
          else run_with_transient_retries sleeper operation ds (sleeper d s'))"

section \<open>The world of a worker\<close>

record 'r env_step =
  es_world :: "'r reporting \<Rightarrow> 'r reporting"
  es_elapsed :: int
  es_abort :: bool
  es_fault :: "py_exn option"
  es_committed :: bool

record 'r world =
  w_reporting :: "'r reporting"
  w_now :: instant
  w_abort :: bool
  w_env :: "'r env_step list"

type_synonym ('r, 'a) run = "'r world \<Rightarrow> (run_exn + 'a) \<times> 'r world"

abbreviation queue_of :: "'r world \<Rightarrow> report_db" where
  "queue_of w \<equiv> queue_db (w_reporting w)"

definition andThen :: "('r, 'a) run \<Rightarrow> ('a \<Rightarrow> ('r, 'b) run) \<Rightarrow> ('r, 'b) run" where
  "andThen m k w = (case m w of (Inl e, w') \<Rightarrow> (Inl e, w') | (Inr v, w') \<Rightarrow> k v w')"

definition return_run :: "'a \<Rightarrow> ('r, 'a) run" where
  "return_run v w = (Inr v, w)"

definition raise_run :: "run_exn \<Rightarrow> ('r, 'a) run" where
  "raise_run e w = (Inl e, w)"

definition disturb :: "'r env_step \<Rightarrow> 'r world \<Rightarrow> 'r world" where
  "disturb e w = w\<lparr>w_reporting := es_world e (w_reporting w), w_now := w_now w + es_elapsed e,
     w_abort := (w_abort w \<or> es_abort e)\<rparr>"

text \<open>One \<open>engine.begin()\<close> block at the current time.\<close>

definition transact ::
  "(instant \<Rightarrow> 'r reporting \<Rightarrow> (run_exn + 'a) \<times> 'r reporting) \<Rightarrow> ('r, 'a) run" where
  "transact f w =
     (let w1 = (case w_env w of [] \<Rightarrow> w | e # es \<Rightarrow> disturb e (w\<lparr>w_env := es\<rparr>));
          (r, q) = f (w_now w1) (w_reporting w1)
      in case w_env w of
           e # es \<Rightarrow> (case es_fault e of
               Some x \<Rightarrow> (Inl (Fault x), if es_committed e then w1\<lparr>w_reporting := q\<rparr> else w1)
             | None \<Rightarrow> (r, w1\<lparr>w_reporting := q\<rparr>))
         | [] \<Rightarrow> (r, w1\<lparr>w_reporting := q\<rparr>))"

text \<open>A transaction on the queue tables alone.\<close>

definition on_queue :: "(instant \<Rightarrow> report_db \<Rightarrow> 'a \<times> report_db) \<Rightarrow> ('r, 'a) run" where
  "on_queue f = transact (\<lambda>now q. case f now (queue_db q) of (r, d) \<Rightarrow> (Inr r, q\<lparr>queue_db := d\<rparr>))"

definition rollup_exn :: "rollup_error \<Rightarrow> run_exn" where
  "rollup_exn e = (case e of
      RollupQueueError (LeaseLostError m) \<Rightarrow> LeaseLost
    | RollupQueueError x \<Rightarrow> QueueFailure x
    | RollupValidationError m r \<Rightarrow> RollupFailure (RollupValidationError m r))"

definition map_error :: "('e \<Rightarrow> 'f) \<Rightarrow> 'e + 'a \<Rightarrow> 'f + 'a" where
  "map_error f r = (case r of Inl e \<Rightarrow> Inl (f e) | Inr v \<Rightarrow> Inr v)"

section \<open>The direct SQL executor\<close>

definition DIRECT_SQL_RETRY_DELAYS_SECONDS :: "int list" where
  "DIRECT_SQL_RETRY_DELAYS_SECONDS = [10, 10]"

definition sleep :: "int \<Rightarrow> 'r world \<Rightarrow> 'r world" where
  "sleep d w = w\<lparr>w_now := w_now w + seconds d\<rparr>"

definition run_sql :: "('r, 'a) run \<Rightarrow> ('r, 'a) run" where
  "run_sql operation = run_with_transient_retries sleep operation DIRECT_SQL_RETRY_DELAYS_SECONDS"

definition ensure_owned :: "run_claim \<Rightarrow> ('r, unit) run" where
  "ensure_owned c w =
     (if w_abort w then (Inl LeaseLost, w)
      else andThen (on_queue (\<lambda>now d. (claim_is_owned c d, d)))
        (\<lambda>owned. if owned then return_run () else raise_run LeaseLost) w)"

definition begin_stage :: "run_claim \<Rightarrow> string \<Rightarrow> ('r, unit) run" where
  "begin_stage c stage =
     andThen (ensure_owned c) (\<lambda>_.
     andThen (on_queue (\<lambda>now d. record_stage c stage now d)) (\<lambda>r.
       case r of
         Inl e \<Rightarrow> raise_run (QueueFailure e)
       | Inr recorded \<Rightarrow> if recorded then return_run () else raise_run LeaseLost))"

definition complete_stage :: "run_claim \<Rightarrow> ('r, unit) run" where
  "complete_stage c = ensure_owned c"

definition stage_failure :: "string \<Rightarrow> run_exn \<Rightarrow> stage_error" where
  "stage_failure stage e =
     (let reason = (case e of RollupFailure (RollupValidationError m r) \<Rightarrow> Some r | _ \<Rightarrow> None);
          code = (if is_transient_connectivity_failure e then DB_UNAVAILABLE
                  else if stage = ''load'' then LOAD_FAILED
                  else if stage = ''extract'' then EXTRACT_FAILED else INTERNAL_FAILED)
      in \<lparr>se_stage = stage, se_code = code, se_type = exn_type_name e, se_retryable = True, se_reason = reason\<rparr>)"

text \<open>\<open>except LeaseLostError: raise\<close>, \<open>except Exception as exc: raise _stage_failure(...)\<close>.\<close>

definition guarded :: "string \<Rightarrow> ('r, 'a) run \<Rightarrow> ('r, 'a) run" where
  "guarded stage m w = (case m w of
      (Inl LeaseLost, w') \<Rightarrow> (Inl LeaseLost, w')
    | (Inl e, w') \<Rightarrow> (Inl (StageError (stage_failure stage e)), w')
    | (Inr v, w') \<Rightarrow> (Inr v, w'))"

text \<open>\<open>written, served_rows\<close> of the load stage.\<close>

definition load_rollups ::
  "(int \<Rightarrow> int \<Rightarrow> 'r) \<Rightarrow> 'r \<Rightarrow> bool \<Rightarrow> run_claim \<Rightarrow> rollup_window \<Rightarrow> hourly_row list \<Rightarrow> instant \<Rightarrow> 'r reporting \<Rightarrow>
   (run_exn + nat \<times> nat) \<times> 'r reporting" where
  "load_rollups numeric_div zero cutover c window rows now q =
     (if cutover
      then (case activate_reconciled_rollups numeric_div zero c window (Some rows) ROLLUP_PIPELINE_VERSION now q of
          (r, q') \<Rightarrow> (map_error rollup_exn (case r of Inl e \<Rightarrow> Inl e
              | Inr a \<Rightarrow> Inr (ac_hourly_rows a, ac_weekly_rows a)), q'))
      else (case publish_hourly_rollups c window rows ROLLUP_PIPELINE_VERSION now q of
          (r, q') \<Rightarrow> (map_error rollup_exn (case r of Inl e \<Rightarrow> Inl e | Inr n \<Rightarrow> Inr (n, n)), q')))"

definition direct_sql_executor ::
  "(int \<Rightarrow> int \<Rightarrow> 'r) \<Rightarrow> 'r \<Rightarrow> bool \<Rightarrow> run_claim \<Rightarrow> ('r, run_metrics) run" where
  "direct_sql_executor numeric_div zero cutover c =
     andThen (begin_stage c ''extract'') (\<lambda>_.
     andThen (guarded ''extract'' (run_sql (transact (\<lambda>now q.
        (map_error rollup_exn (capture_rollup_window c now q), q))))) (\<lambda>window.
     andThen (complete_stage c) (\<lambda>_.
     andThen (begin_stage c ''transform'') (\<lambda>_.
     andThen (guarded ''transform'' (run_sql (transact (\<lambda>now q.
        (Inr (compute_hourly_rollups (source_db q) window), q))))) (\<lambda>rows.
     andThen (complete_stage c) (\<lambda>_.
     andThen (begin_stage c ''load'') (\<lambda>_.
     andThen (guarded ''load'' (run_sql (transact (load_rollups numeric_div zero cutover c window rows)))) (\<lambda>written_served.
     andThen (complete_stage c) (\<lambda>_.
       return_run \<lparr>rm_extracted = rw_scanned window, rm_transformed = int (length rows),
         rm_loaded = int (snd written_served), rm_watermark = Some (rw_cutoff window),
         rm_cutoff = Some (rw_cutoff window), rm_scanned = Some (rw_scanned window),
         rm_written = Some (int (fst written_served))\<rparr>)))))))))"

section \<open>The runner\<close>

datatype runner_status = RIdle | RSucceeded | RRetryable | RFailed | RLeaseLost

record runner_result =
  rr_status :: runner_status
  rr_run :: "uuid option"

record claim_outcome =
  co_status :: runner_status
  co_metrics :: "run_metrics option"
  co_code :: "error_code option"
  co_stage :: "string option"
  co_type :: "string option"

definition outcome ::
  "runner_status \<Rightarrow> error_code option \<Rightarrow> string option \<Rightarrow> string option \<Rightarrow> claim_outcome" where
  "outcome st code stage ty =
     \<lparr>co_status = st, co_metrics = None, co_code = code, co_stage = stage, co_type = ty\<rparr>"

text \<open>
  The renewal thread, one entry for each time it wakes up before it is stopped: the time, and whether
  its transaction raises. It answers whether it set the abort flag.
\<close>

fun renew_claim :: "run_claim \<Rightarrow> (instant \<times> bool) list \<Rightarrow> report_db \<Rightarrow> bool \<times> report_db" where
  "renew_claim c [] d = (False, d)"
| "renew_claim c ((now, raises) # ticks) d =
     (if raises then (True, d)
      else case heartbeat c now DEFAULT_LEASE_SECONDS d of
          (True, d') \<Rightarrow> renew_claim c ticks d' | (False, d') \<Rightarrow> (True, d'))"

definition heartbeat_run :: "run_claim \<Rightarrow> ('r, bool) run" where
  "heartbeat_run c = on_queue (\<lambda>now d. heartbeat c now DEFAULT_LEASE_SECONDS d)"

text \<open>The \<open>except\<close> clauses around the executor.\<close>

definition outcome_of :: "run_exn \<Rightarrow> claim_outcome" where
  "outcome_of e = (case e of
      LeaseLost \<Rightarrow> outcome RLeaseLost None None None
    | StageError s \<Rightarrow> outcome (if se_retryable s then RRetryable else RFailed) (Some (se_code s))
        (Some (se_stage s)) (Some (se_type s))
    | PermanentRun code \<Rightarrow> outcome RFailed (Some code) (Some ''orchestration'') (Some (exn_type_name e))
    | TransientRun code \<Rightarrow> outcome RRetryable (Some code) (Some ''orchestration'') (Some (exn_type_name e))
    | _ \<Rightarrow> outcome RRetryable (Some INTERNAL_FAILED) (Some ''orchestration'') (Some (exn_type_name e)))"

definition execute_claim_with_renewal ::
  "bool \<Rightarrow> (run_claim \<Rightarrow> ('r, run_metrics) run) \<Rightarrow> run_claim \<Rightarrow> ('r, claim_outcome) run" where
  "execute_claim_with_renewal acquired executor c =
     (if \<not> acquired
      then return_run (outcome RRetryable (Some LOCK_UNAVAILABLE) (Some ''orchestration'') None)
      else andThen (heartbeat_run c) (\<lambda>owned.
        if \<not> owned then return_run (outcome RLeaseLost None None None)
        else (\<lambda>w.
          (case andThen (executor c) (\<lambda>metrics w'.
               if w_abort w' then (Inl LeaseLost, w')
               else andThen (heartbeat_run c) (\<lambda>owned.
                 if owned then return_run metrics else raise_run LeaseLost) w') (w\<lparr>w_abort := False\<rparr>) of
             (Inr metrics, w') \<Rightarrow> (Inr ((outcome RSucceeded None None None)\<lparr>co_metrics := Some metrics\<rparr>), w')
           | (Inl e, w') \<Rightarrow> (Inr (outcome_of e), w')))))"

definition finalize_claim ::
  "string option \<Rightarrow> run_claim \<Rightarrow> claim_outcome \<Rightarrow> ('r, runner_result) run" where
  "finalize_claim sha c oc =
     (let finish = (\<lambda>m. andThen m (\<lambda>transitioned.
            return_run \<lparr>rr_status = (if transitioned then co_status oc else RLeaseLost), rr_run = Some (rc_run c)\<rparr>))
      in case (co_status oc, co_metrics oc, co_code oc) of
           (RLeaseLost, _, _) \<Rightarrow> return_run \<lparr>rr_status = RLeaseLost, rr_run = Some (rc_run c)\<rparr>
         | (RSucceeded, Some m, _) \<Rightarrow> finish (on_queue (\<lambda>now d. finalize_success sha c m now d))
         | (RFailed, _, Some code) \<Rightarrow>
             finish (on_queue (\<lambda>now d. finalize_failure sha c code now (co_stage oc) (co_type oc) d))
         | (RRetryable, _, Some code) \<Rightarrow>
             finish (on_queue (\<lambda>now d. release_retryable sha c code now DEFAULT_MAX_ATTEMPTS
               DEFAULT_BACKOFF_SECONDS (co_stage oc) (co_type oc) d))
         | _ \<Rightarrow> raise_run InvalidOutcome)"

definition run_once ::
  "string option \<Rightarrow> uuid \<Rightarrow> bool \<Rightarrow> (run_claim \<Rightarrow> ('r, run_metrics) run) \<Rightarrow> ('r, runner_result) run" where
  "run_once sha token acquired executor =
     andThen (on_queue (\<lambda>now d. claim_next sha token now PIPELINE_VERSION DEFAULT_LEASE_SECONDS
        DEFAULT_RECOMPUTE_WEEKS d)) (\<lambda>claim.
       case claim of
         None \<Rightarrow> return_run \<lparr>rr_status = RIdle, rr_run = None\<rparr>
       | Some c \<Rightarrow> andThen (execute_claim_with_renewal acquired executor c) (finalize_claim sha c))"

section \<open>What a worker keeps\<close>

text \<open>A property of the stored tables that a computation, and everything around it, keeps.\<close>

definition env_keeps :: "('r reporting \<Rightarrow> bool) \<Rightarrow> 'r world \<Rightarrow> bool" where
  "env_keeps I w \<longleftrightarrow> (\<forall>e\<in>set (w_env w). \<forall>q. I q \<longrightarrow> I (es_world e q))"

definition run_keeps :: "('r reporting \<Rightarrow> bool) \<Rightarrow> ('r, 'a) run \<Rightarrow> bool" where
  "run_keeps I m \<longleftrightarrow> (\<forall>w. env_keeps I w \<and> I (w_reporting w) \<longrightarrow>
     set (w_env (snd (m w))) \<subseteq> set (w_env w) \<and> I (w_reporting (snd (m w))))"

named_theorems keeps

lemma run_keepsD:
  "run_keeps I m \<Longrightarrow> env_keeps I w \<Longrightarrow> I (w_reporting w) \<Longrightarrow> m w = (r, w') \<Longrightarrow>
     set (w_env w') \<subseteq> set (w_env w) \<and> env_keeps I w' \<and> I (w_reporting w')"
  unfolding run_keeps_def env_keeps_def by (metis snd_conv subset_iff)

lemma run_keepsI:
  "(\<And>w r w'. env_keeps I w \<Longrightarrow> I (w_reporting w) \<Longrightarrow> m w = (r, w') \<Longrightarrow>
     set (w_env w') \<subseteq> set (w_env w) \<and> I (w_reporting w')) \<Longrightarrow> run_keeps I m"
  unfolding run_keeps_def by (metis prod.collapse)

lemma keeps_return [keeps]: "run_keeps I (return_run v)"
  by (simp add: run_keeps_def return_run_def)

lemma keeps_raise [keeps]: "run_keeps I (raise_run e)"
  by (simp add: run_keeps_def raise_run_def)

lemma keeps_andThen [keeps]:
  assumes "run_keeps I m" and "\<And>v. run_keeps I (k v)"
  shows "run_keeps I (andThen m k)"
proof (rule run_keepsI)
  fix w r w' assume w: "env_keeps I w" "I (w_reporting w)" and k: "andThen m k w = (r, w')"
  obtain r1 w1 where m: "m w = (r1, w1)" by fastforce
  note w1 = run_keepsD [OF assms(1) w m]
  show "set (w_env w') \<subseteq> set (w_env w) \<and> I (w_reporting w')"
  proof (cases r1)
    case (Inr v)
    with k m have "k v w1 = (r, w')" by (simp add: andThen_def)
    with run_keepsD [OF assms(2), of w1] w1 show ?thesis by blast
  qed (use k m w1 in \<open>simp add: andThen_def\<close>)
qed

lemma env_keeps_simps [simp]:
  "env_keeps I (w\<lparr>w_reporting := q\<rparr>) = env_keeps I w" "env_keeps I (w\<lparr>w_now := t\<rparr>) = env_keeps I w"
  "env_keeps I (w\<lparr>w_abort := b\<rparr>) = env_keeps I w"
  by (simp_all add: env_keeps_def)

lemma transact_cases:
  assumes "transact f w = (r, w')" and "env_keeps I w" and "I (w_reporting w)"
  obtains (ran) q where "I q" and "f (w_now w') q = (r, w_reporting w')"
  | (fault) q x where "I q" and "r = Inl (Fault x)" and "w_reporting w' = q \<or> w_reporting w' = snd (f (w_now w') q)"
proof (cases "w_env w")
  case Nil
  obtain r0 q0 where f: "f (w_now w) (w_reporting w) = (r0, q0)" by fastforce
  with assms(1) Nil have "r = r0" "w' = w\<lparr>w_reporting := q0\<rparr>" by (simp_all add: transact_def Let_def)
  with f assms(3) show thesis by (intro ran [of "w_reporting w"]) simp_all
next
  case (Cons e es)
  define w1 where "w1 = disturb e (w\<lparr>w_env := es\<rparr>)"
  have q: "I (w_reporting w1)"
    using assms(2,3) Cons by (auto simp: env_keeps_def disturb_def w1_def)
  obtain r0 q0 where f: "f (w_now w1) (w_reporting w1) = (r0, q0)" by fastforce
  show thesis
  proof (cases "es_fault e")
    case None
    with assms(1) Cons f have "r = r0" "w' = w1\<lparr>w_reporting := q0\<rparr>"
      by (simp_all add: transact_def Let_def w1_def)
    with f q show thesis by (intro ran [of "w_reporting w1"]) simp_all
  next
    case (Some x)
    with assms(1) Cons f have "r = Inl (Fault x)" "w' = (if es_committed e then w1\<lparr>w_reporting := q0\<rparr> else w1)"
      by (auto simp: transact_def Let_def w1_def)
    with f q show thesis by (intro fault [of "w_reporting w1" x]) (simp_all split: if_splits)
  qed
qed

lemma transact_env: "set (w_env (snd (transact f w))) \<subseteq> set (w_env w)"
  by (auto simp: transact_def Let_def disturb_def split: list.splits option.splits prod.splits if_splits)

lemma keeps_transact:
  assumes "\<And>now q. I q \<Longrightarrow> I (snd (f now q))"
  shows "run_keeps I (transact f)"
proof (rule run_keepsI)
  fix w r w' assume w: "env_keeps I w" "I (w_reporting w)" and t: "transact f w = (r, w')"
  from t w have "I (w_reporting w')"
  proof (cases rule: transact_cases)
    case (ran q)
    with assms [of q "w_now w'"] show ?thesis by simp
  next
    case (fault q x)
    with assms [of q "w_now w'"] show ?thesis by auto
  qed
  with transact_env [of f w] t show "set (w_env w') \<subseteq> set (w_env w) \<and> I (w_reporting w')" by simp
qed

lemma keeps_on_queue:
  assumes "\<And>now q. I q \<Longrightarrow> I (q\<lparr>queue_db := snd (f now (queue_db q))\<rparr>)"
  shows "run_keeps I (on_queue f)"
  unfolding on_queue_def
  by (rule keeps_transact) (use assms in \<open>simp add: case_prod_beta\<close>)

lemma keeps_retries:
  assumes "run_keeps I m"
  shows "run_keeps I (run_with_transient_retries sleep m ds)"
proof (induction ds)
  case Nil
  have "run_with_transient_retries sleep m [] = m" by (rule ext) simp
  with assms show ?case by simp
next
  case (Cons d ds)
  show ?case
  proof (rule run_keepsI)
    fix w r w' assume w: "env_keeps I w" "I (w_reporting w)" and t: "run_with_transient_retries sleep m (d # ds) w = (r, w')"
    obtain r1 w1 where m: "m w = (r1, w1)" by fastforce
    note w1 = run_keepsD [OF assms w m]
    then have "env_keeps I (sleep d w1)" "I (w_reporting (sleep d w1))" "w_env (sleep d w1) = w_env w1"
      by (simp_all add: sleep_def)
    with run_keepsD [OF Cons this(1,2)] w1
    have again: "run_with_transient_retries sleep m ds (sleep d w1) = (r, w') \<Longrightarrow>
        set (w_env w') \<subseteq> set (w_env w) \<and> I (w_reporting w')" by auto
    show "set (w_env w') \<subseteq> set (w_env w) \<and> I (w_reporting w')"
    proof (cases "run_with_transient_retries sleep m (d # ds) w = m w")
      case True
      with t m w1 show ?thesis by simp
    next
      case False
      with m have "run_with_transient_retries sleep m (d # ds) w = run_with_transient_retries sleep m ds (sleep d w1)"
        by (auto split: sum.splits)
      with t again show ?thesis by simp
    qed
  qed
qed

lemma keeps_run_sql [keeps]: "run_keeps I m \<Longrightarrow> run_keeps I (run_sql m)"
  unfolding run_sql_def by (rule keeps_retries)

lemma keeps_guarded [keeps]: 
  assumes "run_keeps I m"
  shows "run_keeps I (guarded stage m)"
proof (rule run_keepsI)
  fix w r w' assume w: "env_keeps I w" "I (w_reporting w)" and g: "guarded stage m w = (r, w')"
  obtain r1 w1 where m: "m w = (r1, w1)" by fastforce
  from run_keepsD [OF assms w m] g show "set (w_env w') \<subseteq> set (w_env w) \<and> I (w_reporting w')"
    by (auto simp: guarded_def m split: sum.splits run_exn.splits)
qed

lemma keeps_ensure_owned [keeps]: "run_keeps I (ensure_owned c)"
proof -
  let ?m = "andThen (on_queue (\<lambda>now d. (claim_is_owned c d, d)))
    (\<lambda>owned. if owned then return_run () else raise_run LeaseLost) :: ('a, unit) run"
  have "run_keeps I ?m"
    by (intro keeps keeps_on_queue) (auto intro: keeps)
  then show ?thesis unfolding run_keeps_def ensure_owned_def by simp
qed

lemma keeps_complete_stage [keeps]: "run_keeps I (complete_stage c)"
  unfolding complete_stage_def by (rule keeps)

lemma keeps_begin_stage:
  assumes "\<And>now q. I q \<Longrightarrow> I (q\<lparr>queue_db := snd (record_stage c stage now (queue_db q))\<rparr>)"
  shows "run_keeps I (begin_stage c stage)"
  unfolding begin_stage_def
  by (intro keeps keeps_on_queue) (auto intro: keeps assms split: sum.split)

text \<open>The publications and the stages of the executor leave the queue to the queue's operations.\<close>

lemma publish_queue [simp]: "queue_db (snd (publish_hourly_rollups c win rows v now q)) = queue_db q"
  by (simp add: publish_hourly_rollups_def split: sum.split)

lemma activate_queue [simp]: "queue_db (snd (activate_reconciled_rollups nd z c win rows v now q)) = queue_db q"
  by (simp add: activate_reconciled_rollups_def Let_def split: sum.split option.split)

text \<open>A property that reads the queue tables alone and that recording a stage keeps.\<close>

lemma keeps_executor:
  assumes "\<And>stage now d. I d \<Longrightarrow> I (snd (record_stage c stage now d))"
  shows "run_keeps (\<lambda>q. I (queue_db q)) (direct_sql_executor nd z cutover c)"
proof -
  have stage: "run_keeps (\<lambda>q. I (queue_db q)) (begin_stage c st)" for st
    by (rule keeps_begin_stage) (simp add: assms)
  have capture: "run_keeps (\<lambda>q. I (queue_db q)) (transact (\<lambda>now q. (map_error rollup_exn (capture_rollup_window c now q), q)))"
    by (rule keeps_transact) simp
  have transform: "run_keeps (\<lambda>q. I (queue_db q)) (transact (\<lambda>now q. (Inr (compute_hourly_rollups (source_db q) win), q)))" for win
    by (rule keeps_transact) simp
  have load: "run_keeps (\<lambda>q. I (queue_db q)) (transact (load_rollups nd z cutover c window rows))" for window rows
    by (rule keeps_transact) (simp add: load_rollups_def case_prod_beta)
  show ?thesis
    unfolding direct_sql_executor_def by (intro keeps stage capture transform load)
qed

lemma keeps_renewal:
  assumes "run_keeps I (executor c)" and "run_keeps I (heartbeat_run c)"
  shows "run_keeps I (execute_claim_with_renewal acquired executor c)"
proof (cases acquired)
  case False
  then show ?thesis by (simp add: execute_claim_with_renewal_def keeps)
next
  case True
  define last :: "run_metrics \<Rightarrow> ('a, run_metrics) run" where "last = (\<lambda>metrics w'. if w_abort w' then (Inl LeaseLost, w')
     else andThen (heartbeat_run c) (\<lambda>owned. if owned then return_run metrics else raise_run LeaseLost) w')"
  have hb: "run_keeps I (andThen (heartbeat_run c) (\<lambda>owned. if owned then return_run metrics else raise_run LeaseLost))"
    for metrics :: run_metrics
    by (intro keeps assms(2)) (auto intro: keeps)
  have "run_keeps I (last metrics)" for metrics
    using hb [of metrics] unfolding run_keeps_def last_def by simp
  then have body: "run_keeps I (andThen (executor c) last)" by (intro keeps assms(1))
  define inner where "inner = (\<lambda>w. case andThen (executor c) last (w\<lparr>w_abort := False\<rparr>) of
       (Inr metrics, w') \<Rightarrow> (Inr ((outcome RSucceeded None None None)\<lparr>co_metrics := Some metrics\<rparr>), w')
     | (Inl e, w') \<Rightarrow> ((Inr (outcome_of e), w') :: (run_exn + claim_outcome) \<times> 'a world))"
  have inner: "run_keeps I inner"
  proof (rule run_keepsI)
    fix w r w' assume w: "env_keeps I w" "I (w_reporting w)" and i: "inner w = (r, w')"
    obtain r1 w1 where m: "andThen (executor c) last (w\<lparr>w_abort := False\<rparr>) = (r1, w1)" by fastforce
    have "w' = w1" using i by (cases r1) (simp_all add: m inner_def)
    with run_keepsD [OF body _ _ m] w show "set (w_env w') \<subseteq> set (w_env w) \<and> I (w_reporting w')" by simp
  qed
  have "execute_claim_with_renewal acquired executor c = andThen (heartbeat_run c)
      (\<lambda>owned. if \<not> owned then return_run (outcome RLeaseLost None None None) else inner)"
    unfolding execute_claim_with_renewal_def inner_def last_def using True by simp
  moreover have "run_keeps I (if \<not> owned then return_run (outcome RLeaseLost None None None) else inner)" for owned
    by (cases owned) (simp_all add: keeps inner)
  ultimately show ?thesis using assms(2) by (simp add: keeps_andThen)
qed

lemma keeps_finalize:
  assumes "\<And>now d m. I d \<Longrightarrow> I (snd (finalize_success sha c m now d))"
    and "\<And>now d code sg ty. I d \<Longrightarrow> I (snd (finalize_failure sha c code now sg ty d))"
    and "\<And>now d code sg ty. I d \<Longrightarrow> I (snd (release_retryable sha c code now DEFAULT_MAX_ATTEMPTS DEFAULT_BACKOFF_SECONDS sg ty d))"
  shows "run_keeps (\<lambda>q. I (queue_db q)) (finalize_claim sha c oc)"
proof -
  let ?I = "\<lambda>q. I (queue_db q)"
  have fin: "run_keeps ?I (andThen m (\<lambda>transitioned.
            return_run \<lparr>rr_status = (if transitioned then co_status oc else RLeaseLost), rr_run = Some (rc_run c)\<rparr>))"
    if "run_keeps ?I m" for m by (intro keeps that)
  have "run_keeps ?I (on_queue (\<lambda>now d. finalize_success sha c m now d))" for m
    by (rule keeps_on_queue) (simp add: assms)
  moreover have "run_keeps ?I (on_queue (\<lambda>now d. finalize_failure sha c code now (co_stage oc) (co_type oc) d))" for code
    by (rule keeps_on_queue) (simp add: assms)
  moreover have "run_keeps ?I (on_queue (\<lambda>now d. release_retryable sha c code now DEFAULT_MAX_ATTEMPTS
               DEFAULT_BACKOFF_SECONDS (co_stage oc) (co_type oc) d))" for code
    by (rule keeps_on_queue) (simp add: assms)
  ultimately show ?thesis
    by (auto simp: finalize_claim_def Let_def intro!: fin keeps split: runner_status.split option.split)
qed

section \<open>The runner keeps the queue invariant\<close>

text \<open>
  What the others do between two transactions of a worker with this token: whatever keeps the queue
  invariant, which every operation of the API, the scheduler, the sweep and the other workers does.
\<close>

definition benign :: "uuid \<Rightarrow> 'r env_step \<Rightarrow> bool" where
  "benign token e \<longleftrightarrow> (\<forall>q C. (\<forall>c\<in>C. rc_token c = token) \<and> queue_ok DEFAULT_MAX_ATTEMPTS (queue_db q, C) \<longrightarrow>
     queue_ok DEFAULT_MAX_ATTEMPTS (queue_db (es_world e q), C))"

lemma benign_keeps: "\<forall>e\<in>set (w_env w). benign token e \<Longrightarrow> \<forall>c\<in>C. rc_token c = token \<Longrightarrow>
    env_keeps (\<lambda>q. queue_ok DEFAULT_MAX_ATTEMPTS (queue_db q, C)) w"
  unfolding env_keeps_def benign_def by blast

lemma benign_sweep: "benign token \<lparr>es_world = (\<lambda>q. q\<lparr>queue_db := snd (recover_stale_runs sha now DEFAULT_MAX_ATTEMPTS b (queue_db q))\<rparr>),
    es_elapsed = t, es_abort = ab, es_fault = flt, es_committed = cm\<rparr>"
  by (simp add: benign_def recover_stale_runs_keeps)

lemma benign_other_claim: "token' \<noteq> token \<Longrightarrow>
  benign token \<lparr>es_world = (\<lambda>q. q\<lparr>queue_db := snd (claim_next sha token' now v ls k (queue_db q))\<rparr>),
    es_elapsed = t, es_abort = ab, es_fault = flt, es_committed = cm\<rparr>"
  unfolding benign_def
proof (intro allI impI, elim conjE)
  fix q :: "'a reporting" and C
  assume neq: "token' \<noteq> token" and C: "\<forall>c\<in>C. rc_token c = token" and ok: "queue_ok DEFAULT_MAX_ATTEMPTS (queue_db q, C)"
  obtain cl d where r: "claim_next sha token' now v ls k (queue_db q) = (cl, d)" by fastforce
  have "queue_ok DEFAULT_MAX_ATTEMPTS (d, set_option cl \<union> C)"
    by (rule claim_next_keeps [OF ok _ _ r]) (use neq C in \<open>auto simp: DEFAULT_MAX_ATTEMPTS_def\<close>)
  then have "queue_ok DEFAULT_MAX_ATTEMPTS (d, C)" by (rule queue_ok_mono) blast
  then show "queue_ok DEFAULT_MAX_ATTEMPTS (queue_db (es_world \<lparr>es_world = (\<lambda>q. q\<lparr>queue_db :=
     snd (claim_next sha token' now v ls k (queue_db q))\<rparr>), es_elapsed = t, es_abort = ab, es_fault = flt, es_committed = cm\<rparr> q), C)"
    by (simp add: r)
qed

lemma keeps_claim:
  assumes "run_keeps I (execute_claim_with_renewal acquired executor c)" and "\<And>oc. run_keeps I (finalize_claim sha c oc)"
  shows "run_keeps I (andThen (execute_claim_with_renewal acquired executor c) (finalize_claim sha c))"
  by (intro keeps assms)

lemma keeps_owned_claim:
  "run_keeps (\<lambda>q. queue_ok DEFAULT_MAX_ATTEMPTS (queue_db q, {c}))
     (andThen (execute_claim_with_renewal acquired (direct_sql_executor nd z cutover) c) (finalize_claim sha c))"
proof (rule keeps_claim)
  let ?I = "\<lambda>d. queue_ok DEFAULT_MAX_ATTEMPTS (d, {c})"
  have hb: "run_keeps (\<lambda>q. ?I (queue_db q)) (heartbeat_run c)"
    unfolding heartbeat_run_def by (rule keeps_on_queue) (simp add: heartbeat_keeps)
  show "run_keeps (\<lambda>q. ?I (queue_db q)) (execute_claim_with_renewal acquired (direct_sql_executor nd z cutover) c)"
    by (rule keeps_renewal [OF keeps_executor hb]) (rule record_stage_keeps)
  show "run_keeps (\<lambda>q. ?I (queue_db q)) (finalize_claim sha c oc)" for oc
    by (rule keeps_finalize) (simp_all add: finalize_success_keeps finalize_failure_keeps release_retryable_keeps)
qed

lemma claim_next_token:
  assumes "claim_next sha token now v ls k d = (Some c, d')"
  shows "rc_token c = token"
  using assms by (cases rule: claim_next_cases [of sha token now v ls k d])
    (auto simp: Let_def split: sum.splits)

lemma on_queue_claim:
  assumes ok: "queue_ok DEFAULT_MAX_ATTEMPTS (queue_of w, {})" and env: "\<forall>e\<in>set (w_env w). benign token e"
    and r: "on_queue (\<lambda>now d. claim_next sha token now v ls k d) w = (r, w')"
  shows "queue_ok DEFAULT_MAX_ATTEMPTS (queue_of w', {})"
    and "r = Inr (Some c) \<Longrightarrow> queue_ok DEFAULT_MAX_ATTEMPTS (queue_of w', {c}) \<and> rc_token c = token"
proof -
  let ?I = "\<lambda>q. queue_ok DEFAULT_MAX_ATTEMPTS (queue_db q, {})"
  have ek: "env_keeps ?I w" by (rule benign_keeps [OF env]) simp
  have claim: "queue_ok DEFAULT_MAX_ATTEMPTS (d', set_option cl)"
    if "?I q" "claim_next sha token now v ls k (queue_db q) = (cl, d')" for q now cl d'
    using claim_next_keeps [OF that(1) _ _ that(2)] by (simp add: DEFAULT_MAX_ATTEMPTS_def)
  from r [unfolded on_queue_def] ek ok
  have both: "?I (w_reporting w') \<and> (\<forall>c. r = Inr (Some c) \<longrightarrow>
      queue_ok DEFAULT_MAX_ATTEMPTS (queue_of w', {c}) \<and> rc_token c = token)"
  proof (cases rule: transact_cases)
    case (ran q)
    obtain cl d' where cn: "claim_next sha token (w_now w') v ls k (queue_db q) = (cl, d')" by fastforce
    with ran(2) have "r = Inr cl" "w_reporting w' = q\<lparr>queue_db := d'\<rparr>" by simp_all
    then have "r = Inr cl" "queue_of w' = d'" by simp_all
    with claim [OF ran(1) cn] cn show ?thesis
      by (auto dest: claim_next_token intro: queue_ok_mono)
  next
    case (fault q x)
    obtain cl d' where cn: "claim_next sha token (w_now w') v ls k (queue_db q) = (cl, d')" by fastforce
    with fault have "queue_of w' = queue_db q \<or> queue_of w' = d'" by auto
    with claim [OF fault(1) cn] fault(1,2) show ?thesis by (auto intro: queue_ok_mono)
  qed
  then show "queue_ok DEFAULT_MAX_ATTEMPTS (queue_of w', {})"
    and "r = Inr (Some c) \<Longrightarrow> queue_ok DEFAULT_MAX_ATTEMPTS (queue_of w', {c}) \<and> rc_token c = token"
    by blast+
qed

text \<open>
  A worker that claims a run, executes it and finalizes it keeps the queue invariant at every
  point, whichever of its transactions fail, commit without an answer or lose their lease, whatever
  the others do to the queue in between, and whether the advisory lock is free or not.
\<close>

lemma run_once_keeps_queue:
  assumes "queue_ok DEFAULT_MAX_ATTEMPTS (queue_of w, {})" and "\<forall>e\<in>set (w_env w). benign token e"
    and "run_once sha token acquired (direct_sql_executor nd z cutover) w = (r, w')"
  shows "queue_ok DEFAULT_MAX_ATTEMPTS (queue_of w', {})"
proof -
  let ?claim = "on_queue (\<lambda>now d. claim_next sha token now PIPELINE_VERSION DEFAULT_LEASE_SECONDS
        DEFAULT_RECOMPUTE_WEEKS d)"
  obtain cr w1 where cl: "?claim w = (cr, w1)" by fastforce
  note claimed = on_queue_claim [OF assms(1,2) cl]
  have "set (w_env w1) \<subseteq> set (w_env w)"
    using transact_env [of "\<lambda>now q. case claim_next sha token now PIPELINE_VERSION DEFAULT_LEASE_SECONDS
        DEFAULT_RECOMPUTE_WEEKS (queue_db q) of (r, d) \<Rightarrow> (Inr r, q\<lparr>queue_db := d\<rparr>)" w] cl
    unfolding on_queue_def by simp
  with assms(2) have env1: "\<forall>e\<in>set (w_env w1). benign token e" by blast
  show ?thesis
  proof (cases "\<exists>c. cr = Inr (Some c)")
    case True
    then obtain c where c: "cr = Inr (Some c)" by blast
    note ok = claimed(2) [OF c]
    have w': "andThen (execute_claim_with_renewal acquired (direct_sql_executor nd z cutover) c) (finalize_claim sha c) w1 = (r, w')"
      using assms(3) cl c by (simp add: run_once_def andThen_def [of ?claim])
    have "env_keeps (\<lambda>q. queue_ok DEFAULT_MAX_ATTEMPTS (queue_db q, {c})) w1"
      by (rule benign_keeps [OF env1]) (use ok in simp)
    from run_keepsD [OF keeps_owned_claim this _ w'] ok
    have "queue_ok DEFAULT_MAX_ATTEMPTS (queue_of w', {c})" by blast
    then show ?thesis by (rule queue_ok_mono) simp
  next
    case False
    with assms(3) cl have "w' = w1"
      by (cases cr) (auto simp: run_once_def andThen_def [of ?claim] return_run_def split: option.splits)
    with claimed(1) show ?thesis by simp
  qed
qed

text \<open>
  A waiting queue, whose run is claimed: an undisturbed start, claim and heartbeat, a sweep before the
  executor looks at its claim, and a connection that breaks when it records its first stage.
\<close>

definition quiet_step :: "(int \<times> int) env_step" where
  "quiet_step = \<lparr>es_world = (\<lambda>q. q), es_elapsed = 10, es_abort = False, es_fault = None, es_committed = False\<rparr>"

definition sweep_step :: "(int \<times> int) env_step" where
  "sweep_step = \<lparr>es_world = (\<lambda>q. q\<lparr>queue_db := snd (recover_stale_runs None 130 DEFAULT_MAX_ATTEMPTS 60 (queue_db q))\<rparr>),
     es_elapsed = 10, es_abort = False, es_fault = None, es_committed = False\<rparr>"

definition broken_step :: "(int \<times> int) env_step" where
  "broken_step = \<lparr>es_world = (\<lambda>q. q), es_elapsed = 10, es_abort = False,
     es_fault = Some (PyExn DBAPIError ''OperationalError'' ''connection reset'' None None), es_committed = True\<rparr>"

definition waiting_world :: "(int \<times> int) world" where
  "waiting_world = \<lparr>w_reporting = rollup_world\<lparr>queue_db := waiting_queue\<rparr>, w_now = 90, w_abort = False,
     w_env = [quiet_step, quiet_step, quiet_step, sweep_step, broken_step]\<rparr>"

section \<open>Retries\<close>

text \<open>The state before the call number \<open>k\<close>.\<close>

fun retry_state :: "('d \<Rightarrow> 's \<Rightarrow> 's) \<Rightarrow> ('s \<Rightarrow> 'r \<times> 's) \<Rightarrow> 'd list \<Rightarrow> nat \<Rightarrow> 's \<Rightarrow> 's" where
  "retry_state sleeper operation ds 0 s = s"
| "retry_state sleeper operation [] (Suc k) s = s"
| "retry_state sleeper operation (d # ds) (Suc k) s = retry_state sleeper operation ds k (sleeper d (snd (operation s)))"

definition retried :: "run_exn + 'a \<Rightarrow> bool" where
  "retried r \<longleftrightarrow> (case r of Inl e \<Rightarrow> retried_class e \<and> is_transient_connectivity_failure e | Inr _ \<Rightarrow> False)"

text \<open>
  C40: an operation is called again only after a connectivity failure of the allowlist, after the next
  delay, and at most once more than there are delays; the answer of the last call is the answer, so a
  success is never repeated, and an error passes on as it is when it is not transient or when the
  delays are used up.
\<close>

theorem retries_bounded:
  "\<exists>k\<le>length ds. run_with_transient_retries sleeper operation ds s =
       operation (retry_state sleeper operation ds k s) \<and>
     (\<forall>j<k. retried (fst (operation (retry_state sleeper operation ds j s)))) \<and>
     (k = length ds \<or> \<not> retried (fst (operation (retry_state sleeper operation ds k s))))"
proof (induction ds arbitrary: s)
  case Nil
  then show ?case by simp
next
  case (Cons d ds)
  obtain r s' where op: "operation s = (r, s')" by fastforce
  show ?case
  proof (cases "retried r")
    case False
    then have "run_with_transient_retries sleeper operation (d # ds) s = operation s"
      using op by (auto simp: retried_def split: sum.splits)
    with False op show ?thesis by (intro exI [of _ 0]) simp
  next
    case True
    then have run: "run_with_transient_retries sleeper operation (d # ds) s =
        run_with_transient_retries sleeper operation ds (sleeper d s')"
      using op by (auto simp: retried_def split: sum.splits)
    from Cons [of "sleeper d s'"] obtain k where k: "k \<le> length ds"
      "run_with_transient_retries sleeper operation ds (sleeper d s') = operation (retry_state sleeper operation ds k (sleeper d s'))"
      "\<forall>j<k. retried (fst (operation (retry_state sleeper operation ds j (sleeper d s'))))"
      "k = length ds \<or> \<not> retried (fst (operation (retry_state sleeper operation ds k (sleeper d s'))))" by blast
    have "\<forall>j<Suc k. retried (fst (operation (retry_state sleeper operation (d # ds) j s)))"
    proof (intro allI impI)
      fix j assume "j < Suc k"
      with k(3) True op show "retried (fst (operation (retry_state sleeper operation (d # ds) j s)))"
        by (cases j) simp_all
    qed
    with k run op show ?thesis by (intro exI [of _ "Suc k"]) simp
  qed
qed

text \<open>A server that is starting up answers the third call.\<close>

definition starting_up :: "int list \<Rightarrow> (run_exn + int) \<times> int list" where
  "starting_up slept = (if length slept < 2
     then (Inl (Fault (PyExn DBAPIError ''OperationalError'' '''' (Some ''57P03'') None)), slept) else (Inr 7, slept))"

theorem retries_witness:
  "run_with_transient_retries (\<lambda>d slept. d # slept) starting_up DIRECT_SQL_RETRY_DELAYS_SECONDS [] = (Inr 7, [10, 10])"
proof -
  have "retried (fst (starting_up []))" "retried (fst (starting_up [10]))" by code_simp+
  moreover obtain k where "k \<le> length DIRECT_SQL_RETRY_DELAYS_SECONDS"
    and run: "run_with_transient_retries (\<lambda>d slept. d # slept) starting_up DIRECT_SQL_RETRY_DELAYS_SECONDS [] =
      starting_up (retry_state (\<lambda>d slept. d # slept) starting_up DIRECT_SQL_RETRY_DELAYS_SECONDS k [])"
    and "k = length DIRECT_SQL_RETRY_DELAYS_SECONDS \<or>
      \<not> retried (fst (starting_up (retry_state (\<lambda>d slept. d # slept) starting_up DIRECT_SQL_RETRY_DELAYS_SECONDS k [])))"
    using retries_bounded [of DIRECT_SQL_RETRY_DELAYS_SECONDS "\<lambda>d slept. d # slept" starting_up "[]"] by blast
  moreover have s: "snd (starting_up x) = x" for x by (simp add: starting_up_def)
  ultimately have "k = 2"
    by (cases k; cases "k - 1"; simp add: DIRECT_SQL_RETRY_DELAYS_SECONDS_def)
  with run show ?thesis
    by (simp add: DIRECT_SQL_RETRY_DELAYS_SECONDS_def s numeral_2_eq_2) (simp add: starting_up_def)
qed

section \<open>What the runner reports\<close>

lemma on_queue_undisturbed:
  "w_env w = [] \<Longrightarrow> on_queue f w =
     (Inr (fst (f (w_now w) (queue_of w))), w\<lparr>w_reporting := (w_reporting w)\<lparr>queue_db := snd (f (w_now w) (queue_of w))\<rparr>\<rparr>)"
  by (simp add: on_queue_def transact_def Let_def case_prod_beta)

text \<open>The status that a finished attempt leaves its run in.\<close>

definition status_after :: "runner_status \<Rightarrow> int \<Rightarrow> run_status" where
  "status_after st attempt = (case st of RSucceeded \<Rightarrow> Succeeded | RFailed \<Rightarrow> Failed
     | RRetryable \<Rightarrow> (if DEFAULT_MAX_ATTEMPTS \<le> attempt then Failed else Retryable) | _ \<Rightarrow> Running)"

definition ended :: "run_claim \<Rightarrow> run_status \<Rightarrow> report_db \<Rightarrow> report_db \<Rightarrow> bool" where
  "ended c st d d' \<longleftrightarrow> (\<exists>r a. find_run d' (rc_run c) = Some r \<and> pr_token r = None \<and> pr_status r = st \<and>
     attempts d' = attempts d @ [a] \<and> at_run a = rc_run c \<and> at_number a = rc_attempt c)"

lemma final_transition:
  assumes "queue_ok M (d, C)" and "c \<in> C" and "claim_is_owned c d" and "\<And>s. same_request s (f s)"
    and "\<And>s. pr_status (f s) = st \<and> pr_token (f s) = None"
  shows "ended c st d (record_attempt sha c now out sg code ty m (update_runs (owns c) f d))"
  using final_effect [OF assms(1-4), of sha now out sg code ty m] assms(5) unfolding ended_def by blast

lemma owned_transitions:
  assumes "queue_ok M (d, C)" and "c \<in> C" and "claim_is_owned c d"
  shows "fst (finalize_success sha c m now d) \<and> ended c Succeeded d (snd (finalize_success sha c m now d))"
    and "fst (finalize_failure sha c code now sg ty d) \<and> ended c Failed d (snd (finalize_failure sha c code now sg ty d))"
    and "fst (release_retryable sha c code now N b sg ty d) \<and>
      ended c (if N \<le> rc_attempt c then Failed else Retryable) d (snd (release_retryable sha c code now N b sg ty d))"
proof -
  have one: "rowcount (owns c) d = 1" by (rule owned_row [OF assms])
  note ft = final_transition [OF assms]
  show "fst (finalize_success sha c m now d) \<and> ended c Succeeded d (snd (finalize_success sha c m now d))"
    unfolding finalize_success_def Let_def by (simp add: one, rule ft) (simp_all add: same_request_def clear_claim_def)
  show "fst (finalize_failure sha c code now sg ty d) \<and> ended c Failed d (snd (finalize_failure sha c code now sg ty d))"
    unfolding finalize_failure_def Let_def by (simp add: one, rule ft) (simp_all add: fail_row_def clear_claim_def same_request_def)
  show "fst (release_retryable sha c code now N b sg ty d) \<and>
      ended c (if N \<le> rc_attempt c then Failed else Retryable) d (snd (release_retryable sha c code now N b sg ty d))"
    unfolding release_retryable_def Let_def
    by (simp only: one refl if_True fst_conv snd_conv simp_thms, rule ft)
      (simp_all add: release_row_def fail_row_def retry_row_def clear_claim_def same_request_def)
qed

lemma lost_transitions:
  assumes "\<not> claim_is_owned c d"
  shows "finalize_success sha c m now d = (False, d)" and "finalize_failure sha c code now sg ty d = (False, d)"
    and "release_retryable sha c code now N b sg ty d = (False, d)"
proof -
  note none = not_owned_none [OF assms]
  have "update_runs (owns c) f d = d" "rowcount (owns c) d = 0" for f using none by blast+
  then show "finalize_success sha c m now d = (False, d)" "finalize_failure sha c code now sg ty d = (False, d)"
    "release_retryable sha c code now N b sg ty d = (False, d)"
    by (simp_all add: finalize_success_def finalize_failure_def release_retryable_def Let_def)
qed

text \<open>
  The final transition of an attempt that still owns its run leaves the run in the status that
  belongs to the outcome, without a token, with one more row of evidence for this attempt, and the
  runner reports the outcome; an attempt that has lost its run reports that and changes nothing. The
  report of a retryable outcome does not say whether a retry follows: at the last attempt the run has
  failed for good.
\<close>

theorem finalize_claim_reports:
  assumes "queue_ok DEFAULT_MAX_ATTEMPTS (queue_of w, C)" and "c \<in> C" and "w_env w = []"
    and "finalize_claim sha c oc w = (Inr res, w')"
  shows "rr_run res = Some (rc_run c) \<and>
    (if co_status oc \<noteq> RLeaseLost \<and> claim_is_owned c (queue_of w)
     then rr_status res = co_status oc \<and>
       ended c (status_after (co_status oc) (rc_attempt c)) (queue_of w) (queue_of w')
     else rr_status res = RLeaseLost \<and> queue_of w' = queue_of w)"
proof -
  have fin: "rr_status res = (if fst (f (w_now w) (queue_of w)) then co_status oc else RLeaseLost) \<and>
      rr_run res = Some (rc_run c) \<and> queue_of w' = snd (f (w_now w) (queue_of w))"
    if "andThen (on_queue f) (\<lambda>transitioned.
        return_run \<lparr>rr_status = (if transitioned then co_status oc else RLeaseLost), rr_run = Some (rc_run c)\<rparr>) w = (Inr res, w')"
    for f :: "instant \<Rightarrow> report_db \<Rightarrow> bool \<times> report_db"
    using that by (auto simp: andThen_def on_queue_undisturbed assms(3) return_run_def)
  show ?thesis
  proof (cases "claim_is_owned c (queue_of w)")
    case False
    then show ?thesis using assms(4) unfolding finalize_claim_def Let_def
      by (auto split: runner_status.splits option.splits simp: raise_run_def return_run_def lost_transitions dest!: fin)
  next
    case True
    note own = owned_transitions [OF assms(1,2) True]
    note release = own(3) [where N = DEFAULT_MAX_ATTEMPTS]
    have "DEFAULT_MAX_ATTEMPTS \<le> rc_attempt c \<Longrightarrow> ended c Failed (queue_of w) (snd (release_retryable sha c code now
          DEFAULT_MAX_ATTEMPTS b sg ty (queue_of w)))"
      "\<not> DEFAULT_MAX_ATTEMPTS \<le> rc_attempt c \<Longrightarrow> ended c Retryable (queue_of w) (snd (release_retryable sha c code now
          DEFAULT_MAX_ATTEMPTS b sg ty (queue_of w)))" for code now b sg ty
      using release [where code = code and now = now and b = b and sg = sg and ty = ty] by simp_all
    then show ?thesis using True assms(4) own(1,2) release [THEN conjunct1] unfolding finalize_claim_def Let_def
      by (auto split: runner_status.splits option.splits simp: raise_run_def return_run_def status_after_def dest!: fin)
  qed
qed

text \<open>The fifth attempt is reported as retryable, and its run has failed.\<close>

definition last_claim :: run_claim where
  "last_claim = rollup_claim\<lparr>rc_attempt := 5\<rparr>"

definition past_attempt :: "int \<Rightarrow> run_attempt" where
  "past_attempt n = \<lparr>at_run = ''r1'', at_number = n, at_stage = ''load'', at_started_at = 0, at_ended_at = 0,
     at_duration_ms = 0, at_source_cutoff = None, at_rows_scanned = None, at_rows_written = None,
     at_error_code = Some LOAD_FAILED, at_error_type = None, at_outcome = ''retried'', at_version = None,
     at_build_sha = None\<rparr>"

definition last_attempt :: "(int \<times> int) world" where
  "last_attempt = \<lparr>w_reporting = rollup_world\<lparr>queue_db := \<lparr>runs = [rollup_run\<lparr>pr_attempt := 5\<rparr>],
       attempts = map past_attempt [1, 2, 3, 4], heartbeats = [], last_reset_at = None\<rparr>\<rparr>,
     w_now = 50, w_abort = False, w_env = []\<rparr>"

lemma last_attempt_ok: "queue_ok DEFAULT_MAX_ATTEMPTS (queue_of last_attempt, {last_claim})"
proof -
  have "evidence_ok (queue_of last_attempt) (rollup_run\<lparr>pr_attempt := 5\<rparr>)"
    by (auto simp: evidence_ok_def has_evidence_def last_attempt_def past_attempt_def rollup_run_def)
  then show ?thesis
    by (simp add: queue_ok_def last_attempt_def unique_rows_def attempts_ok_def past_attempt_def claims_ok_def
        row_ok_def DEFAULT_MAX_ATTEMPTS_def rollup_run_def last_claim_def rollup_claim_def)
qed

theorem finalize_claim_witness:
  "\<exists>w' r. finalize_claim None last_claim (outcome RRetryable (Some LOAD_FAILED) (Some ''load'') None) last_attempt =
       (Inr \<lparr>rr_status = RRetryable, rr_run = Some ''r1''\<rparr>, w') \<and>
     find_run (queue_of w') ''r1'' = Some r \<and> pr_status r = Failed"
proof -
  let ?oc = "outcome RRetryable (Some LOAD_FAILED) (Some ''load'') None"
  let ?r = "finalize_claim None last_claim ?oc last_attempt"
  have res: "fst ?r = Inr \<lparr>rr_status = RRetryable, rr_run = Some ''r1''\<rparr>" by code_simp
  then have r: "?r = (Inr \<lparr>rr_status = RRetryable, rr_run = Some ''r1''\<rparr>, snd ?r)" by (metis prod.collapse)
  have "claim_is_owned last_claim (queue_of last_attempt)" by code_simp
  with finalize_claim_reports [OF last_attempt_ok insertI1 _ r]
  have "ended last_claim (status_after RRetryable 5) (queue_of last_attempt) (queue_of (snd ?r))"
    by (simp add: last_attempt_def last_claim_def outcome_def)
  with r show ?thesis
    by (auto simp: ended_def last_claim_def rollup_claim_def status_after_def DEFAULT_MAX_ATTEMPTS_def)
qed

section \<open>What is served\<close>

definition served :: "'r reporting \<Rightarrow> (hour_key \<times> hourly_cell) list \<times> rollup_state \<times> (week_key \<times> 'r weekly_cell) list" where
  "served q = (hourly q, rollup q, weekly q)"

text \<open>A publication: one transaction of an owner of the claim that succeeds.\<close>

definition publishes where
  "publishes nd z cutover c p p' \<longleftrightarrow> (\<exists>q q' win rows now. claim_is_owned c (queue_db q) \<and> served q = p \<and> served q' = p' \<and>
     (if cutover then \<exists>a. activate_reconciled_rollups nd z c win (Some rows) ROLLUP_PIPELINE_VERSION now q = (Inr a, q')
      else \<exists>n. publish_hourly_rollups c win rows ROLLUP_PIPELINE_VERSION now q = (Inr n, q')))"

lemma verified_owned: "verify_claim_for_publication c d = Inr u \<Longrightarrow> claim_is_owned c d"
  by (simp add: verify_claim_for_publication_def split: if_splits)

lemma publication_owned:
  "publish_hourly_rollups c win rows v now q = (Inr n, q') \<Longrightarrow> claim_is_owned c (queue_db q)"
  "activate_reconciled_rollups nd z c win rows' v now q = (Inr a, q') \<Longrightarrow> claim_is_owned c (queue_db q)"
  by (auto simp: publish_hourly_rollups_def activate_reconciled_rollups_def Let_def split: sum.splits dest: verified_owned)

lemma publication_failed:
  "publish_hourly_rollups c win rows v now q = (Inl e, q') \<Longrightarrow> q' = q"
  "activate_reconciled_rollups nd z c win rows' v now q = (Inl e, q') \<Longrightarrow> q' = q"
  by (auto simp: publish_hourly_rollups_def activate_reconciled_rollups_def Let_def split: sum.splits prod.splits if_splits)

lemma load_cases:
  assumes "load_rollups nd z cutover c window rows now q = (r, q')"
  shows "case r of Inl _ \<Rightarrow> q' = q | Inr _ \<Rightarrow> publishes nd z cutover c (served q) (served q')"
proof (cases cutover)
  case True
  obtain s q1 where a: "activate_reconciled_rollups nd z c window (Some rows) ROLLUP_PIPELINE_VERSION now q = (s, q1)" by fastforce
  show ?thesis
  proof (cases s)
    case (Inl e)
    with a publication_failed(2) assms True show ?thesis by (fastforce simp: load_rollups_def map_error_def)
  next
    case (Inr x)
    with a assms True have "r = Inr (ac_hourly_rows x, ac_weekly_rows x)" "q' = q1" by (auto simp: load_rollups_def map_error_def)
    with a Inr True publication_owned(2) show ?thesis unfolding publishes_def by fastforce
  qed
next
  case False
  obtain s q1 where a: "publish_hourly_rollups c window rows ROLLUP_PIPELINE_VERSION now q = (s, q1)" by fastforce
  show ?thesis
  proof (cases s)
    case (Inl e)
    with a publication_failed(1) assms False show ?thesis by (fastforce simp: load_rollups_def map_error_def)
  next
    case (Inr x)
    with a assms False have "r = Inr (x, x)" "q' = q1" by (auto simp: load_rollups_def map_error_def)
    with a Inr False publication_owned(1) show ?thesis unfolding publishes_def by fastforce
  qed
qed

lemma andThen_InrE:
  assumes "andThen m k w = (Inr v, w')"
  obtains x w1 where "m w = (Inr x, w1)" and "k x w1 = (Inr v, w')"
  using assms by (auto simp: andThen_def split: prod.splits sum.splits)

lemma retries_success:
  assumes "run_keeps I m" and "run_with_transient_retries sleep m ds w = (Inr v, w')"
    and "env_keeps I w" and "I (w_reporting w)"
  shows "\<exists>w0. env_keeps I w0 \<and> I (w_reporting w0) \<and> m w0 = (Inr v, w')"
  using assms(2-4)
proof (induction ds arbitrary: w)
  case Nil
  then show ?case by auto
next
  case (Cons d ds)
  obtain r1 w1 where m: "m w = (r1, w1)" by fastforce
  note w1 = run_keepsD [OF assms(1) Cons.prems(2,3) m]
  show ?case
  proof (cases "m w = (Inr v, w')")
    case True
    with Cons.prems show ?thesis by blast
  next
    case False
    with Cons.prems(1) m have "run_with_transient_retries sleep m ds (sleep d w1) = (Inr v, w')"
      by (auto split: sum.splits if_splits)
    moreover have "env_keeps I (sleep d w1)" "I (w_reporting (sleep d w1))" using w1 by (simp_all add: sleep_def)
    ultimately show ?thesis by (rule Cons.IH)
  qed
qed

text \<open>The publications made so far are publications of owners, and a load that succeeds adds one.\<close>

lemma keeps_load:
  "run_keeps (\<lambda>q. (publishes nd z cutover c)\<^sup>*\<^sup>* p (served q)) (transact (load_rollups nd z cutover c window rows))"
proof (rule keeps_transact)
  fix now and q :: "'a reporting" assume *: "(publishes nd z cutover c)\<^sup>*\<^sup>* p (served q)"
  obtain r q' where l: "load_rollups nd z cutover c window rows now q = (r, q')" by fastforce
  from load_cases [OF l] * show "(publishes nd z cutover c)\<^sup>*\<^sup>* p (served (snd (load_rollups nd z cutover c window rows now q)))"
    by (cases r) (auto simp: l intro: rtranclp.rtrancl_into_rtrancl)
qed

lemma load_publishes:
  assumes "guarded ''load'' (run_sql (transact (load_rollups nd z cutover c window rows))) w = (Inr v, w')"
    and "env_keeps (\<lambda>q. (publishes nd z cutover c)\<^sup>*\<^sup>* p (served q)) w" and "(publishes nd z cutover c)\<^sup>*\<^sup>* p (served (w_reporting w))"
  shows "(publishes nd z cutover c)\<^sup>+\<^sup>+ p (served (w_reporting w'))"
proof -
  have "run_sql (transact (load_rollups nd z cutover c window rows)) w = (Inr v, w')"
    using assms(1) by (auto simp: guarded_def split: prod.splits sum.splits run_exn.splits)
  from retries_success [OF keeps_load this [unfolded run_sql_def] assms(2,3)] obtain w0
    where w0: "env_keeps (\<lambda>q. (publishes nd z cutover c)\<^sup>*\<^sup>* p (served q)) w0"
      "(publishes nd z cutover c)\<^sup>*\<^sup>* p (served (w_reporting w0))"
      "transact (load_rollups nd z cutover c window rows) w0 = (Inr v, w')" by blast
  from w0(3,1,2) show ?thesis
  proof (cases rule: transact_cases)
    case (ran q)
    from ran(1) load_cases [OF ran(2)] show ?thesis by (auto intro: rtranclp_into_tranclp1)
  qed simp
qed

lemma keeps_queue_served:
  "run_keeps (\<lambda>q. \<phi> (served q)) (on_queue f)"
  "run_keeps (\<lambda>q. \<phi> (served q)) (begin_stage c stage)"
  by (rule keeps_on_queue keeps_begin_stage, simp add: served_def)+

lemma executor_publishes:
  assumes quiet: "\<forall>e\<in>set (w_env w). \<forall>q. served (es_world e q) = served q"
    and r: "direct_sql_executor nd z cutover c w = (r, w')"
  shows "(publishes nd z cutover c)\<^sup>*\<^sup>* (served (w_reporting w)) (served (w_reporting w'))"
proof -
  let ?I = "\<lambda>q. (publishes nd z cutover c)\<^sup>*\<^sup>* (served (w_reporting w)) (served q)"
  have read: "run_keeps ?I (transact (\<lambda>now q. (f now q, q)))" for f :: "instant \<Rightarrow> 'a reporting \<Rightarrow> run_exn + 'b"
    by (rule keeps_transact) simp
  have "run_keeps ?I (direct_sql_executor nd z cutover c)"
    unfolding direct_sql_executor_def
    by (intro keeps keeps_load keeps_queue_served read keeps_transact) simp_all
  moreover have "env_keeps ?I w" using quiet by (simp add: env_keeps_def)
  ultimately show ?thesis using run_keepsD r by blast
qed

text \<open>What a computation that succeeds leads to, as long as nobody else touches what is served.\<close>

definition quiet :: "'r world \<Rightarrow> bool" where
  "quiet w \<longleftrightarrow> (\<forall>e\<in>set (w_env w). \<forall>q. served (es_world e q) = served q)"

lemma quiet_keeps: "quiet w \<Longrightarrow> env_keeps (\<lambda>q. \<phi> (served q)) w"
  by (simp add: quiet_def env_keeps_def)

definition run_ends where
  "run_ends \<phi> \<psi> m \<longleftrightarrow> (\<forall>w v w'. quiet w \<and> \<phi> (served (w_reporting w)) \<and> m w = (Inr v, w') \<longrightarrow>
     quiet w' \<and> \<psi> (served (w_reporting w')))"

lemma ends_keeps:
  assumes "run_keeps (\<lambda>q. \<phi> (served q)) m"
  shows "run_ends \<phi> \<phi> m"
  unfolding run_ends_def
proof (intro allI impI)
  fix w v w' assume w: "quiet w \<and> \<phi> (served (w_reporting w)) \<and> m w = (Inr v, w')"
  from run_keepsD [OF assms quiet_keeps] w have "set (w_env w') \<subseteq> set (w_env w) \<and> \<phi> (served (w_reporting w'))" by blast
  with w show "quiet w' \<and> \<phi> (served (w_reporting w'))" by (auto simp: quiet_def)
qed

lemma ends_andThen:
  assumes "run_ends \<phi> \<chi> m" and "\<And>v. run_ends \<chi> \<psi> (k v)"
  shows "run_ends \<phi> \<psi> (andThen m k)"
  unfolding run_ends_def
proof (intro allI impI)
  fix w v w' assume w: "quiet w \<and> \<phi> (served (w_reporting w)) \<and> andThen m k w = (Inr v, w')"
  then obtain x w1 where 1: "m w = (Inr x, w1)" "k x w1 = (Inr v, w')" by (meson andThen_InrE)
  from assms(1) w 1(1) have "quiet w1 \<and> \<chi> (served (w_reporting w1))" unfolding run_ends_def by blast
  with assms(2) [of x] 1(2) show "quiet w' \<and> \<psi> (served (w_reporting w'))" unfolding run_ends_def by blast
qed

lemma ends_load:
  "run_ends (\<lambda>s. (publishes nd z cutover c)\<^sup>*\<^sup>* p s) (\<lambda>s. (publishes nd z cutover c)\<^sup>+\<^sup>+ p s)
     (guarded ''load'' (run_sql (transact (load_rollups nd z cutover c window rows))))" (is "run_ends ?\<phi> ?\<psi> ?m")
  unfolding run_ends_def
proof (intro allI impI)
  fix w v w' assume w: "quiet w \<and> ?\<phi> (served (w_reporting w)) \<and> ?m w = (Inr v, w')"
  have "run_keeps (\<lambda>q. ?\<phi> (served q)) ?m" by (intro keeps keeps_load)
  from ends_keeps [OF this] w have "quiet w'" unfolding run_ends_def by blast
  moreover have "?\<psi> (served (w_reporting w'))"
    using w by (intro load_publishes [OF _ quiet_keeps]) auto
  ultimately show "quiet w' \<and> ?\<psi> (served (w_reporting w'))" by blast
qed

lemmas ends_before = ends_andThen [OF ends_keeps]
lemmas ends_after = ends_andThen [OF _ ends_keeps]

lemma executor_success_publishes:
  "run_ends (\<lambda>s. (publishes nd z cutover c)\<^sup>*\<^sup>* p s) (\<lambda>s. (publishes nd z cutover c)\<^sup>+\<^sup>+ p s) (direct_sql_executor nd z cutover c)"
  unfolding direct_sql_executor_def
  apply (rule ends_before, rule keeps_queue_served)
  apply (rule ends_before, intro keeps keeps_transact, simp)
  apply (rule ends_before, rule keeps)
  apply (rule ends_before, rule keeps_queue_served)
  apply (rule ends_before, intro keeps keeps_transact, simp)
  apply (rule ends_before, rule keeps)
  apply (rule ends_before, rule keeps_queue_served)
  apply (rule ends_after, rule ends_load)
  apply (intro keeps)
  done


text \<open>A source with one dispatch, in the hour before the cutoff, and an undisturbed worker.\<close>

definition young_world :: "(int \<times> int) world" where
  "young_world = \<lparr>w_reporting = rollup_world\<lparr>source_db := rollup_source\<lparr>entries := []\<rparr>, hourly := [],
       rollup := (rollup rollup_world)\<lparr>rs_last_cutoff := None\<rparr>\<rparr>,
     w_now = midnight 20003 + 7, w_abort = False, w_env = [quiet_step]\<rparr>"


end
