(* ===== verification/ReportWorker.thy ===== *)
theory ReportWorker
  imports ReportRunner
begin

text \<open>
  The long-running worker (\<open>worker.py\<close>), its schedule (\<open>dispatcher.py\<close>) and the choice of the executor
  (\<open>executor_selection.py\<close>). The environment is a map from names to strings; its names are ASCII, so
  that lower case is what \<open>to_lower\<close> gives. The conversions between UTC and the local time of Dallas
  are parameters, since they are the data of the time zone database: \<open>to_local\<close> gives the date and
  the microseconds since local midnight, \<open>to_utc\<close> the instant of a date and a time of that day.
\<close>

section \<open>Settings\<close>

type_synonym environ = "string \<rightharpoonup> string"

definition env_get :: "environ \<Rightarrow> string \<Rightarrow> string \<Rightarrow> string" where
  "env_get env name fallback = to_lower (strip_chars py_space (coalesce (env name) fallback))"

definition computation_enabled :: "environ \<Rightarrow> bool" where
  "computation_enabled env \<longleftrightarrow> env_get env ''REPORTING_COMPUTATION_ENABLED'' ''true'' = ''true''"

definition hourly_rollups_enabled :: "environ \<Rightarrow> bool" where
  "hourly_rollups_enabled env \<longleftrightarrow> env_get env ''REPORTING_HOURLY_ROLLUPS_ENABLED'' ''false'' = ''true''"

definition rollup_cutover_enabled :: "environ \<Rightarrow> bool" where
  "rollup_cutover_enabled env \<longleftrightarrow> env_get env ''REPORTING_ROLLUP_CUTOVER_ENABLED'' ''false'' = ''true''"

definition DEFAULT_EXECUTOR :: string where
  "DEFAULT_EXECUTOR = ''direct_sql''"

definition SUPPORTED_EXECUTORS :: "string set" where
  "SUPPORTED_EXECUTORS = {DEFAULT_EXECUTOR}"

text \<open>None is the \<open>ValueError\<close>, which stops the worker before it starts.\<close>

definition executor_name_from_environment :: "environ \<Rightarrow> string option" where
  "executor_name_from_environment env =
     (if env_get env ''REPORTING_EXECUTOR'' DEFAULT_EXECUTOR \<notin> SUPPORTED_EXECUTORS then None
      else Some DEFAULT_EXECUTOR)"

section \<open>The schedule\<close>

definition REFRESH_TIMES :: "int list" where
  "REFRESH_TIMES = [hours 7, hours 19]"

record dispatch_result =
  dp_business_date :: date
  dp_created :: bool
  dp_recovered :: nat

text \<open>\<open>eligible[-1]\<close>: the last refresh time that has passed today.\<close>

definition due_slot :: "date \<times> int \<Rightarrow> (date option \<times> int) option" where
  "due_slot local =
     (case filter (\<lambda>t. t \<le> snd local) REFRESH_TIMES of
        [] \<Rightarrow> None
      | ts \<Rightarrow> Some (if last ts = hd REFRESH_TIMES then Some (fst local) else None, last ts))"

definition dispatch_tick ::
  "(instant \<Rightarrow> date \<times> int) \<Rightarrow> (date \<Rightarrow> int \<Rightarrow> instant) \<Rightarrow> string option \<Rightarrow> uuid \<Rightarrow> instant \<Rightarrow> report_db \<Rightarrow>
   (queue_error + dispatch_result) \<times> report_db" where
  "dispatch_tick to_local to_utc sha new_id now d =
     (let local = to_local now;
          (recovered, d1) = recover_stale_runs sha now DEFAULT_MAX_ATTEMPTS DEFAULT_BACKOFF_SECONDS d;
          result = (\<lambda>created. \<lparr>dp_business_date = fst local, dp_created = created, dp_recovered = recovered\<rparr>)
      in case due_slot local of
           None \<Rightarrow> (Inr (result False), d1)
         | Some (business_date, refresh_time) \<Rightarrow>
             (case enqueue_scheduled new_id business_date (Some (to_utc (fst local) refresh_time)) now d1 of
                (Inl e, d2) \<Rightarrow> (Inl e, d2)
              | (Inr r, d2) \<Rightarrow> (Inr (result (r \<noteq> None)), d2)))"

section \<open>Liveness\<close>

record liveness =
  lv_last_progress_at :: "instant option"
  lv_orchestrator_healthy :: "bool option"
  lv_written_orchestrator_healthy :: "bool option"

definition new_liveness :: liveness where
  "new_liveness = \<lparr>lv_last_progress_at = None, lv_orchestrator_healthy = None, lv_written_orchestrator_healthy = None\<rparr>"

text \<open>The two sections under the lock; the write of the row follows the second one outside it.\<close>

definition note_progress :: "instant \<Rightarrow> bool \<Rightarrow> liveness \<Rightarrow> bool \<times> liveness" where
  "note_progress progress healthy l =
     (Some healthy \<noteq> lv_written_orchestrator_healthy l,
      l\<lparr>lv_last_progress_at := Some progress, lv_orchestrator_healthy := Some healthy\<rparr>)"

definition take_observation :: "liveness \<Rightarrow> (instant option \<times> bool option) \<times> liveness" where
  "take_observation l =
     ((lv_last_progress_at l, lv_orchestrator_healthy l),
      l\<lparr>lv_written_orchestrator_healthy := lv_orchestrator_healthy l\<rparr>)"

definition write_observation :: "instant option \<times> bool option \<Rightarrow> ('r, unit) run" where
  "write_observation obs = on_queue (\<lambda>now d. ((), record_worker_heartbeat now (fst obs) (snd obs) d))"

definition write_liveness :: "liveness \<Rightarrow> liveness \<times> ('r, unit) run" where
  "write_liveness l = (case take_observation l of (obs, l') \<Rightarrow> (l', write_observation obs))"

definition observe :: "instant \<Rightarrow> bool \<Rightarrow> liveness \<Rightarrow> liveness \<times> ('r, unit) run" where
  "observe progress healthy l =
     (case note_progress progress healthy l of (changed, l') \<Rightarrow>
        if changed then write_liveness l' else (l', return_run ()))"

section \<open>One poll\<close>

text \<open>
  An iteration of the loop, whose exceptions are logged and dropped. It answers the liveness and what
  became of a claimed run. The watchdog, which ends the process when a run takes too long, is left
  out: a process that has ended takes no more steps.
\<close>

definition poll ::
  "environ \<Rightarrow> string option \<Rightarrow> uuid \<Rightarrow> bool \<Rightarrow> (run_claim \<Rightarrow> ('r, run_metrics) run) \<Rightarrow> liveness \<Rightarrow> 'r world \<Rightarrow>
   (liveness \<times> runner_result option) \<times> 'r world" where
  "poll env sha token acquired executor l w =
     (case observe (w_now w) True l of (l', write) \<Rightarrow>
        case andThen write (\<lambda>_.
          if \<not> computation_enabled env then return_run None
          else andThen (run_once sha token acquired executor) (\<lambda>r.
            return_run (if rr_status r = RIdle then None else Some r))) w of
          (Inl e, w') \<Rightarrow> ((l', None), w')
        | (Inr r, w') \<Rightarrow> ((l', r), w'))"

definition POLL_INTERVAL_SECONDS :: int where
  "POLL_INTERVAL_SECONDS = 5"

text \<open>
  The loop of \<open>run_worker\<close> for the polls until it is stopped, each with the token its claim would get
  and whether the advisory lock is free. The heartbeat thread and the dispatcher thread belong to what
  happens around it.
\<close>

fun run_worker ::
  "environ \<Rightarrow> string option \<Rightarrow> (run_claim \<Rightarrow> ('r, run_metrics) run) \<Rightarrow> (uuid \<times> bool) list \<Rightarrow> liveness \<Rightarrow>
   'r world \<Rightarrow> runner_result option list \<times> 'r world" where
  "run_worker env sha executor [] l w = ([], w)"
| "run_worker env sha executor ((token, acquired) # ps) l w =
     (case poll env sha token acquired executor l w of ((l', r), w') \<Rightarrow>
        (case run_worker env sha executor ps l' (sleep POLL_INTERVAL_SECONDS w') of (rs, w'') \<Rightarrow> (r # rs, w'')))"

section \<open>The worker keeps the queue invariant\<close>

lemma keeps_write [keeps]:
  assumes "\<And>now p h d. I d \<Longrightarrow> I (record_worker_heartbeat now p h d)"
  shows "run_keeps (\<lambda>q. I (queue_db q)) (snd (observe p h l))"
proof -
  have "run_keeps (\<lambda>q. I (queue_db q)) (write_observation obs)" for obs
    unfolding write_observation_def by (rule keeps_on_queue) (simp add: assms)
  then show ?thesis
    by (auto simp: observe_def note_progress_def write_liveness_def take_observation_def intro: keeps)
qed

lemma run_once_env:
  "run_keeps (\<lambda>q. True) (run_once sha token acquired (direct_sql_executor nd z cutover))"
proof -
  have q: "run_keeps (\<lambda>q. True) (on_queue f)" for f :: "instant \<Rightarrow> report_db \<Rightarrow> 'b \<times> report_db"
    by (rule keeps_on_queue) simp
  have c: "run_keeps (\<lambda>q. True) (andThen (execute_claim_with_renewal acquired (direct_sql_executor nd z cutover) c) (finalize_claim sha c))" for c
    by (intro keeps keeps_renewal keeps_executor [where I = "\<lambda>_. True"] keeps_finalize [where I = "\<lambda>_. True"])
      (simp_all add: heartbeat_run_def keeps_on_queue)
  show ?thesis unfolding run_once_def
    by (intro keeps keeps_on_queue) (auto intro: keeps c split: option.split)
qed

lemma poll_keeps_queue:
  assumes ok: "queue_ok DEFAULT_MAX_ATTEMPTS (queue_of w, {})" and env: "\<forall>e\<in>set (w_env w). benign token e"
    and p: "poll env sha token acquired (direct_sql_executor nd z cutover) l w = (x, w')"
  shows "queue_ok DEFAULT_MAX_ATTEMPTS (queue_of w', {})" and "set (w_env w') \<subseteq> set (w_env w)"
proof -
  let ?I = "\<lambda>q. queue_ok DEFAULT_MAX_ATTEMPTS (queue_db q, {})"
  obtain r1 w1 where o: "snd (observe (w_now w) True l) w = (r1, w1)" by fastforce
  have "run_keeps ?I (snd (observe (w_now w) True l))"
    by (rule keeps_write) (rule worker_heartbeat_keeps)
  from run_keepsD [OF this benign_keeps [OF env] _ o] ok
  have 1: "?I (w_reporting w1)" "set (w_env w1) \<subseteq> set (w_env w)" by auto
  then have env1: "\<forall>e\<in>set (w_env w1). benign token e" using env by blast
  have "w' = w1 \<or> (\<exists>r. run_once sha token acquired (direct_sql_executor nd z cutover) w1 = (r, w'))"
    using p o by (auto simp: poll_def andThen_def return_run_def case_prod_beta split: sum.splits if_splits)
      (metis prod.collapse)+
  then show "?I (w_reporting w')" "set (w_env w') \<subseteq> set (w_env w)"
    using 1 run_once_keeps_queue [OF 1(1) env1] run_keepsD [OF run_once_env _ _, of w1]
    by (fastforce simp: env_keeps_def)+
qed

text \<open>
  C11: a worker keeps the queue invariant for as long as it runs, whichever of its transactions fail,
  commit without an answer or lose their lease, whatever the others do to the queue in between,
  whether the advisory lock is free or not and whatever the settings are.
\<close>

theorem worker_keeps_queue:
  assumes "queue_ok DEFAULT_MAX_ATTEMPTS (queue_of w, {})"
    and "\<forall>p\<in>set polls. \<forall>e\<in>set (w_env w). benign (fst p) e"
    and "run_worker env sha (direct_sql_executor nd z cutover) polls l w = (rs, w')"
  shows "queue_ok DEFAULT_MAX_ATTEMPTS (queue_of w', {})"
  using assms
proof (induction polls arbitrary: l w rs)
  case Nil
  then show ?case by simp
next
  case (Cons p ps)
  obtain token acquired where p: "p = (token, acquired)" by fastforce
  obtain l1 r w1 where poll: "poll env sha token acquired (direct_sql_executor nd z cutover) l w = ((l1, r), w1)"
    by (metis prod.collapse)
  have env: "\<forall>e\<in>set (w_env w). benign token e" using Cons.prems(2) p by simp
  note w1 = poll_keeps_queue [OF Cons.prems(1) env poll]
  let ?w = "sleep POLL_INTERVAL_SECONDS w1"
  have same: "queue_of ?w = queue_of w1" "w_env ?w = w_env w1" by (simp_all add: sleep_def)
  obtain rs' where "run_worker env sha (direct_sql_executor nd z cutover) ps l1 ?w = (rs', w')"
    using Cons.prems(3) poll by (auto simp: p split: prod.splits)
  moreover have "\<forall>p\<in>set ps. \<forall>e\<in>set (w_env ?w). benign (fst p) e" using Cons.prems(2) w1(2) same(2) by auto
  ultimately show ?case using Cons.IH [of ?w] w1(1) same(1) by metis
qed

text \<open>The first poll fails in its first stage, the second does not get the advisory lock.\<close>

definition waiting_polls :: "(uuid \<times> bool) list" where
  "waiting_polls = [(''t1'', True), (''t2'', False)]"

theorem worker_witness:
  "\<exists>w'. run_worker Map.empty None (direct_sql_executor (\<lambda>n m. (n, m)) (0, 0) True) waiting_polls new_liveness waiting_world =
       ([Some \<lparr>rr_status = RRetryable, rr_run = Some ''r2''\<rparr>, Some \<lparr>rr_status = RRetryable, rr_run = Some ''r1''\<rparr>], w') \<and>
     queue_ok DEFAULT_MAX_ATTEMPTS (queue_of w', {})"
proof -
  let ?r = "run_worker Map.empty None (direct_sql_executor (\<lambda>n m. (n, m)) (0, 0) True) waiting_polls new_liveness waiting_world"
  let ?rs = "[Some \<lparr>rr_status = RRetryable, rr_run = Some ''r2''\<rparr>, Some \<lparr>rr_status = RRetryable, rr_run = Some ''r1''\<rparr>]"
  have "fst ?r = ?rs" by code_simp
  then have r: "?r = (?rs, snd ?r)" by (metis prod.collapse)
  have "benign t quiet_step" "benign t broken_step" "benign t sweep_step" for t
    using benign_sweep by (simp_all add: benign_def quiet_step_def broken_step_def sweep_step_def)
  then have env: "\<forall>p\<in>set waiting_polls. \<forall>e\<in>set (w_env waiting_world). benign (fst p) e"
    by (simp add: waiting_world_def waiting_polls_def)
  have ok: "queue_ok DEFAULT_MAX_ATTEMPTS (queue_of waiting_world, {})"
    using waiting_queue_ok by (simp add: waiting_world_def DEFAULT_MAX_ATTEMPTS_def)
  from worker_keeps_queue [OF ok env r] r show ?thesis by blast
qed

section \<open>The dispatcher and the schedule\<close>

definition slot_stored :: "date option \<Rightarrow> instant \<Rightarrow> report_db \<Rightarrow> bool" where
  "slot_stored bd sf d \<longleftrightarrow> (\<exists>s\<in>set (runs d). pr_pipeline s = PIPELINE_NAME \<and> pr_trigger s = Scheduled \<and>
     (bd \<noteq> None \<and> pr_business_date s = bd \<or> pr_scheduled_for s = Some sf))"

lemma slot_stored_iff: "slot_stored bd sf d \<longleftrightarrow> (\<exists>s\<in>set (runs d). same_slot
    ((new_run i Scheduled ''system'' now)\<lparr>pr_business_date := bd, pr_scheduled_for := Some sf\<rparr>) s)"
  unfolding slot_stored_def same_slot_def new_run_def by (rule bex_cong) auto

lemma enqueue_slot:
  "enqueue_scheduled i bd (Some sf) now d =
     (if slot_stored bd sf d then (Inr None, d)
      else (Inr (Some i), d\<lparr>runs := runs d @ [(new_run i Scheduled ''system'' now)\<lparr>pr_business_date := bd,
         pr_scheduled_for := Some sf\<rparr>]\<rparr>))"
  unfolding slot_stored_iff [of bd sf d i now] enqueue_scheduled_def Let_def by simp

lemma enqueue_stores_slot: "slot_stored bd sf (snd (enqueue_scheduled i bd (Some sf) now d))"
  by (auto simp: enqueue_slot slot_stored_def new_run_def)

lemma slot_kept:
  assumes "requests_kept d d'" and "slot_stored bd sf d"
  shows "slot_stored bd sf d'"
proof -
  obtain s where s: "s \<in> set (runs d)" "pr_pipeline s = PIPELINE_NAME" "pr_trigger s = Scheduled"
    "bd \<noteq> None \<and> pr_business_date s = bd \<or> pr_scheduled_for s = Some sf"
    using assms(2) by (auto simp: slot_stored_def)
  obtain s' where s': "s' \<in> set (runs d')" "same_request s s'" using assms(1) s(1) unfolding requests_kept_def by blast
  have "pr_pipeline s' = PIPELINE_NAME" "pr_trigger s' = Scheduled"
    "bd \<noteq> None \<and> pr_business_date s' = bd \<or> pr_scheduled_for s' = Some sf"
    using s(2-4) s'(2) by (simp_all add: same_request_def)
  with s'(1) show ?thesis unfolding slot_stored_def by blast
qed

lemma steps_keep_requests: "(queue_step M)\<^sup>*\<^sup>* x y \<Longrightarrow> requests_kept (fst x) (fst y)"
proof (induction rule: rtranclp_induct)
  case (step y z)
  then show ?case using step_keeps_requests requests_kept_trans by blast
qed simp

lemma sweep_keeps_requests: "requests_kept d (snd (recover_stale_runs sha now M b d))"
  using step_keeps_requests [OF queue_step.recover [of M d "{}" sha now b]] by simp

lemma dispatch_tick_slot:
  assumes "due_slot (to_local now) = Some (bd, t)"
  shows "dispatch_tick to_local to_utc sha i now d =
    (let d1 = snd (recover_stale_runs sha now DEFAULT_MAX_ATTEMPTS DEFAULT_BACKOFF_SECONDS d);
         sf = to_utc (fst (to_local now)) t
     in (Inr \<lparr>dp_business_date = fst (to_local now), dp_created = (\<not> slot_stored bd sf d1),
          dp_recovered = fst (recover_stale_runs sha now DEFAULT_MAX_ATTEMPTS DEFAULT_BACKOFF_SECONDS d)\<rparr>,
        snd (enqueue_scheduled i bd (Some sf) now d1)))"
  by (simp add: dispatch_tick_def assms case_prod_beta Let_def enqueue_slot)

text \<open>
  However often the dispatcher ticks and whoever else works on the queue in between, a slot of the
  schedule gets one run: after a tick at or past seven in the morning local time the slot is stored,
  and every later tick of the same slot creates nothing. Before seven no run is created at all.
\<close>

theorem dispatch_slot_once:
  assumes "dispatch_tick to_local to_utc sha i now d = (r, d1)"
    and "(queue_step M)\<^sup>*\<^sup>* (d1, C) (d2, C2)"
    and "dispatch_tick to_local to_utc sha i' now' d2 = (Inr r', d3)"
    and "due_slot (to_local now') = None \<or>
      due_slot (to_local now') = due_slot (to_local now) \<and> fst (to_local now') = fst (to_local now)"
  shows "\<not> dp_created r' \<and> (\<forall>bd t. due_slot (to_local now) = Some (bd, t) \<longrightarrow>
     slot_stored bd (to_utc (fst (to_local now)) t) d1)"
proof (cases "due_slot (to_local now')")
  case None
  have "slot_stored bd (to_utc (fst (to_local now)) t) d1" if "due_slot (to_local now) = Some (bd, t)" for bd t
    using assms(1) enqueue_stores_slot by (auto simp: dispatch_tick_slot [where to_local = to_local, OF that] Let_def)
  moreover have "\<not> dp_created r'"
    using assms(3) None by (auto simp: dispatch_tick_def case_prod_beta Let_def)
  ultimately show ?thesis by blast
next
  case (Some x)
  then obtain bd t where slot': "due_slot (to_local now') = Some (bd, t)" by (cases x) auto
  with assms(4) have slot: "due_slot (to_local now) = Some (bd, t)" and day: "fst (to_local now') = fst (to_local now)" by auto
  have st1: "slot_stored bd (to_utc (fst (to_local now)) t) d1"
    using assms(1) enqueue_stores_slot by (auto simp: dispatch_tick_slot [where to_local = to_local, OF slot] Let_def)
  then have "slot_stored bd (to_utc (fst (to_local now)) t) d2"
    using slot_kept steps_keep_requests [OF assms(2)] by (metis fst_conv)
  then have "slot_stored bd (to_utc (fst (to_local now)) t)
      (snd (recover_stale_runs sha now' DEFAULT_MAX_ATTEMPTS DEFAULT_BACKOFF_SECONDS d2))"
    by (rule slot_kept [OF sweep_keeps_requests])
  with assms(3) have "\<not> dp_created r'" by (auto simp: dispatch_tick_slot [where to_local = to_local, OF slot'] Let_def day)
  with st1 slot show ?thesis by simp
qed

text \<open>Dallas in winter: six hours behind UTC.\<close>

definition winter_local :: "instant \<Rightarrow> date \<times> int" where
  "winter_local t = ((t - hours 6) div days 1, (t - hours 6) mod days 1)"

definition winter_utc :: "date \<Rightarrow> int \<Rightarrow> instant" where
  "winter_utc d t = midnight d + t + hours 6"

theorem dispatch_witness:
  "\<exists>r d1 r' d3. dispatch_tick winter_local winter_utc None ''r1'' (midnight 20000 + hours 14) empty_queue = (Inr r, d1) \<and>
     dp_created r \<and> length (runs d1) = 1 \<and>
     dispatch_tick winter_local winter_utc None ''r2'' (midnight 20000 + hours 20) d1 = (Inr r', d3) \<and> \<not> dp_created r'"
proof -
  let ?t = "dispatch_tick winter_local winter_utc None ''r1'' (midnight 20000 + hours 14) empty_queue"
  let ?t' = "dispatch_tick winter_local winter_utc None ''r2'' (midnight 20000 + hours 20) (snd ?t)"
  have 1: "case ?t of (Inr r, d) \<Rightarrow> dp_created r \<and> length (runs d) = 1 | _ \<Rightarrow> False" by code_simp
  have 2: "case ?t' of (Inr r, d) \<Rightarrow> True | _ \<Rightarrow> False" by code_simp
  have 3: "due_slot (winter_local (midnight 20000 + hours 20)) = due_slot (winter_local (midnight 20000 + hours 14)) \<and>
      fst (winter_local (midnight 20000 + hours 20)) = fst (winter_local (midnight 20000 + hours 14))" by code_simp
  obtain r d1 where t: "?t = (Inr r, d1)" "dp_created r" "length (runs d1) = 1"
    using 1 by (auto split: prod.splits sum.splits)
  obtain r' d3 where t': "?t' = (Inr r', d3)" using 2 by (auto split: prod.splits sum.splits)
  from dispatch_slot_once [OF t(1) rtranclp.rtrancl_refl [of "queue_step 5" "(d1, {})"]] t t' 3
  show ?thesis by auto
qed

end
