(* ===== verification/ReportApi.thy ===== *)
theory ReportApi
  imports ReportWorker
begin

text \<open>
  What the API and the health probe say of the reports: the state of the queue
  (\<open>domains/reporting/status.py\<close>), the read-only queries (\<open>repository.py\<close>), the service with its
  authorization and its errors (\<open>service.py\<close>) and the evidence of \<open>health.py\<close>. The environment is
  the one of \<open>ReportWorker\<close>; \<open>sql_ok\<close> says whether the statements of a request succeed. A
  \<open>week_start\<close> parameter is None, or the result of \<open>date.fromisoformat\<close> on its text. Strings are
  ordered by their characters where SQL uses the collation of the database.
\<close>

section \<open>The state of the queue\<close>

datatype queue_state = Idle | Processing | Queued | Retrying | Stuck | Unavailable

record queue_signals =
  qs_heartbeat_at :: "instant option"
  qs_last_progress_at :: "instant option"
  qs_orchestrator_healthy :: "bool option"
  qs_running_stage :: "string option"
  qs_stage_started_at :: "instant option"
  qs_latest_status :: "run_status option"
  qs_latest_next_attempt_at :: "instant option"
  qs_queued_count :: nat

definition WORKER_STALE_AFTER :: int where "WORKER_STALE_AFTER = seconds 60"
definition PROGRESS_STALE_AFTER :: int where "PROGRESS_STALE_AFTER = seconds 180"

text \<open>\<open>int(text)\<close>: white space around it, a sign, and digits with single underscores between them.\<close>

fun read_digits :: "int \<Rightarrow> bool \<Rightarrow> string \<Rightarrow> int option" where
  "read_digits n seen [] = (if seen then Some n else None)"
| "read_digits n seen (c # cs) =
     (if CHR ''0'' \<le> c \<and> c \<le> CHR ''9'' then read_digits (10 * n + int (of_char c - 48)) True cs
      else if c = CHR ''_'' \<and> seen then read_digits n False cs else None)"

definition py_int :: "string \<Rightarrow> int option" where
  "py_int s = (case strip_chars py_space s of
      [] \<Rightarrow> None
    | c # cs \<Rightarrow> if c = CHR ''-'' then map_option uminus (read_digits 0 False cs)
        else if c = CHR ''+'' then read_digits 0 False cs else read_digits 0 False (c # cs))"

definition stage_deadline_seconds :: "environ \<Rightarrow> string option \<Rightarrow> int option" where
  "stage_deadline_seconds env stage =
     py_int (coalesce (env (''REPORTING_STAGE_TIMEOUT_'' @ to_upper (coalesce stage '''') @ ''_SECONDS'')) ''300'')"

text \<open>None is the \<open>ValueError\<close> of a deadline that is not a number.\<close>

definition derive_queue_state :: "environ \<Rightarrow> queue_signals \<Rightarrow> instant \<Rightarrow> queue_state option" where
  "derive_queue_state env s now =
     (if (case qs_heartbeat_at s of None \<Rightarrow> True | Some t \<Rightarrow> WORKER_STALE_AFTER < now - t)
         \<or> qs_orchestrator_healthy s \<noteq> Some True
      then Some Unavailable
      else if qs_running_stage s \<noteq> None \<or> qs_stage_started_at s \<noteq> None
      then (case qs_stage_started_at s of
          None \<Rightarrow> Some Stuck
        | Some t \<Rightarrow> map_option (\<lambda>deadline. if seconds deadline < now - t then Stuck else Processing)
            (stage_deadline_seconds env (qs_running_stage s)))
      else if (case qs_last_progress_at s of None \<Rightarrow> True | Some t \<Rightarrow> PROGRESS_STALE_AFTER < now - t)
      then Some Stuck
      else if qs_latest_status s = Some Retryable \<and> qs_latest_next_attempt_at s \<noteq> None then Some Retrying
      else if qs_latest_status s = Some Requested \<or> 0 < qs_queued_count s then Some Queued
      else Some Idle)"

section \<open>The repository\<close>

text \<open>\<open>ORDER BY key DESC LIMIT 1\<close> and \<open>ORDER BY key LIMIT 1\<close>.\<close>

definition newest_by :: "('a \<Rightarrow> 'k::linorder) \<Rightarrow> 'a list \<Rightarrow> 'a option" where
  "newest_by key xs = (case rev (sort_key key xs) of [] \<Rightarrow> None | x # _ \<Rightarrow> Some x)"

definition oldest_by :: "('a \<Rightarrow> 'k::linorder) \<Rightarrow> 'a list \<Rightarrow> 'a option" where
  "oldest_by key xs = (case sort_key key xs of [] \<Rightarrow> None | x # _ \<Rightarrow> Some x)"

definition pipeline_runs :: "report_db \<Rightarrow> pipeline_run list" where
  "pipeline_runs d = filter (\<lambda>r. pr_pipeline r = PIPELINE_NAME) (runs d)"

definition default_week_start :: "'r reporting \<Rightarrow> date option" where
  "default_week_start q =
     (case filter (\<lambda>week.
        case newest_by (\<lambda>r. (pr_requested_at r, pr_id r))
            (filter (\<lambda>r. week \<in> set (coalesce (pr_target_weeks r) [])) (pipeline_runs (queue_db q))) of
          None \<Rightarrow> False | Some r \<Rightarrow> pr_status r = Succeeded) (map (fst \<circ> fst) (weekly q)) of
        [] \<Rightarrow> None | w # ws \<Rightarrow> Some (fold max ws w))"

record 'r weekly_entry =
  we_dimension :: dimension
  we_client_name :: string
  we_inbound_units :: int
  we_outbound_orders :: int
  we_stockouts :: int
  we_discrepancies :: int
  we_rate :: 'r

text \<open>The join with \<open>clients\<close>: a row whose client is gone is not listed.\<close>

definition client_named :: "inventory_db \<Rightarrow> uuid \<Rightarrow> client list" where
  "client_named d i = filter (\<lambda>c. cl_id c = i) (clients d)"

definition entry_order :: "'r weekly_entry \<Rightarrow> string \<times> string \<times> uuid" where
  "entry_order e = (case we_dimension e of (w, c) \<Rightarrow>
     ((case w of LA \<Rightarrow> ''los_angeles'' | _ \<Rightarrow> ''zaragoza''), we_client_name e, c))"

definition weekly_entries :: "date \<Rightarrow> 'r reporting \<Rightarrow> 'r weekly_entry list" where
  "weekly_entries week q =
     sort_key entry_order (concat (map (\<lambda>((w, k), v).
       if w = week then map (\<lambda>c. \<lparr>we_dimension = k, we_client_name = cl_display_name c,
          we_inbound_units = wc_inbound_units v, we_outbound_orders = wc_outbound_orders v,
          we_stockouts = wc_stockouts v, we_discrepancies = wc_discrepancies v, we_rate = wc_rate v\<rparr>)
         (client_named (source_db q) (snd k)) else []) (weekly q)))"

definition current_week_entries ::
  "(int \<Rightarrow> int \<Rightarrow> 'r) \<Rightarrow> 'r \<Rightarrow> date \<Rightarrow> instant \<Rightarrow> 'r reporting \<Rightarrow> 'r weekly_entry list" where
  "current_week_entries numeric_div zero week cutoff q =
     (let g = filter (\<lambda>(h, v). within (midnight week) cutoff (fst h) \<and> hc_cutoff v \<le> cutoff) (hourly q);
          s = (\<lambda>k m. sum_where (\<lambda>(h, v). snd h = k) (\<lambda>(h, v). hc_metrics v m) g)
      in sort_key entry_order (concat (map (\<lambda>k.
        map (\<lambda>c. \<lparr>we_dimension = k, we_client_name = cl_display_name c,
            we_inbound_units = s k InboundUnits, we_outbound_orders = s k DispatchOrders,
            we_stockouts = s k Stockouts, we_discrepancies = s k Discrepancies,
            we_rate = (if s k DispatchOrders = 0 then zero else numeric_div (s k Discrepancies) (s k DispatchOrders))\<rparr>)
          (client_named (source_db q) (snd k))) (remdups (map (snd \<circ> fst) g)))))"

definition latest_run :: "report_db \<Rightarrow> pipeline_run option" where
  "latest_run d = newest_by (\<lambda>r. (pr_requested_at r, pr_id r)) (pipeline_runs d)"

definition queued_runs :: "report_db \<Rightarrow> pipeline_run list" where
  "queued_runs d = sort_key (\<lambda>r. (pr_requested_at r, pr_id r))
     (filter (\<lambda>r. pr_status r \<in> {Requested, Retryable}) (pipeline_runs d))"

definition latest_successful_run :: "report_db \<Rightarrow> pipeline_run option" where
  "latest_successful_run d = newest_by (\<lambda>r. (coalesce (pr_finished_at r) 0, pr_requested_at r, pr_id r))
     (filter (\<lambda>r. pr_status r = Succeeded \<and> pr_finished_at r \<noteq> None) (pipeline_runs d))"

definition latest_attempts :: "int \<Rightarrow> report_db \<Rightarrow> run_attempt list" where
  "latest_attempts limit d =
     take (nat (min (max limit 1) 25)) (rev (sort_key at_started_at
       (filter (\<lambda>a. \<exists>r\<in>set (pipeline_runs d). pr_id r = at_run a) (attempts d))))"

definition worker_signals :: "report_db \<Rightarrow> worker_heartbeat option" where
  "worker_signals d = map_of (heartbeats d) REPORTING_WORKER_NAME"

definition running_signals :: "report_db \<Rightarrow> (string option \<times> instant option) option" where
  "running_signals d = map_option (\<lambda>r. (pr_stage r, pr_stage_started_at r))
     (oldest_by (\<lambda>r. coalesce (pr_started_at r) 0) (filter (\<lambda>r. pr_status r = Running) (pipeline_runs d)))"

section \<open>The service\<close>

definition enabled :: "environ \<Rightarrow> string \<Rightarrow> bool \<Rightarrow> bool" where
  "enabled env name fallback =
     (case env name of None \<Rightarrow> fallback | Some v \<Rightarrow> to_lower (strip_chars py_space v) = ''true'')"

datatype reporting_error = ReportingError (re_status: int) (re_detail: string) (re_code: string)

definition database_failure :: reporting_error where
  "database_failure = ReportingError 503 ''Reporting service temporarily unavailable'' ''REPORTING_UNAVAILABLE''"

definition invalid_week :: reporting_error where
  "invalid_week = ReportingError 400 ''week_start must be an ISO Monday'' ''REPORTING_INVALID_WEEK_START''"

definition computation_disabled :: reporting_error where
  "computation_disabled = ReportingError 503 ''Reporting computation is temporarily disabled'' ''REPORTING_COMPUTATION_DISABLED''"

definition control_plane_unavailable :: reporting_error where
  "control_plane_unavailable =
     ReportingError 503 ''Reporting control plane is temporarily unavailable'' ''REPORTING_CONTROL_PLANE_UNAVAILABLE''"

definition api_week_start :: "date option option \<Rightarrow> reporting_error + date option" where
  "api_week_start value = (case value of
      None \<Rightarrow> Inr None
    | Some None \<Rightarrow> Inl invalid_week
    | Some (Some parsed) \<Rightarrow> if isoweekday parsed \<noteq> 1 then Inl invalid_week else Inr (Some parsed))"

definition worker_available :: "worker_heartbeat option \<Rightarrow> instant \<Rightarrow> bool" where
  "worker_available worker now = (case worker of
      None \<Rightarrow> False
    | Some w \<Rightarrow> now - wh_heartbeat_at w \<le> WORKER_STALE_AFTER \<and> wh_orchestrator_healthy w = Some True)"

definition RESULTS_STALE_AFTER :: int where "RESULTS_STALE_AFTER = hours 26"

record 'r weekly_response =
  wr_week_start :: "date option"
  wr_incomplete :: bool
  wr_entries :: "'r weekly_entry list"
  wr_state :: "string option"
  wr_source_cutoff_at :: "instant option"
  wr_published_at :: "instant option"

text \<open>\<open>incomplete\<close> holds the rows of \<open>reporting.incomplete_weeks\<close>, which the retention job writes.\<close>

definition cutover_weekly_performance ::
  "(int \<Rightarrow> int \<Rightarrow> 'r) \<Rightarrow> 'r \<Rightarrow> environ \<Rightarrow> bool \<Rightarrow> date list \<Rightarrow> date option \<Rightarrow> instant \<Rightarrow> 'r reporting \<Rightarrow>
   reporting_error + 'r weekly_response" where
  "cutover_weekly_performance numeric_div zero env sql_ok incomplete week now q =
     (if \<not> enabled env ''REPORTING_COMPUTATION_ENABLED'' True then Inl computation_disabled
      else if \<not> sql_ok then Inl database_failure
      else case (rs_active_cutoff (rollup q), rs_active_published (rollup q), rs_active_version (rollup q)) of
          (Some cutoff, Some published_at, Some _) \<Rightarrow>
            let force_stale = enabled env ''REPORTING_FORCE_STALE'' False in
            if \<not> worker_available (worker_signals (queue_db q)) now \<and> \<not> force_stale
            then Inl control_plane_unavailable
            else
              let active_week = iso_week_start cutoff;
                  selected_week = coalesce week active_week;
                  entries = (if selected_week = active_week
                    then current_week_entries numeric_div zero selected_week cutoff q
                    else weekly_entries selected_week q)
              in Inr \<lparr>wr_week_start = Some selected_week,
                   wr_incomplete = (selected_week = active_week \<or> selected_week \<in> set incomplete),
                   wr_entries = entries,
                   wr_state = Some (if force_stale \<or> RESULTS_STALE_AFTER < now - cutoff then ''stale'' else ''current''),
                   wr_source_cutoff_at = Some cutoff, wr_published_at = Some published_at\<rparr>
        | _ \<Rightarrow> Inl (ReportingError 503 ''Reporting has not activated a verified snapshot'' ''REPORTING_NOT_ACTIVATED''))"

definition weekly_performance ::
  "(int \<Rightarrow> int \<Rightarrow> 'r) \<Rightarrow> 'r \<Rightarrow> environ \<Rightarrow> bool \<Rightarrow> date list \<Rightarrow> date option option \<Rightarrow> instant \<Rightarrow> 'r reporting \<Rightarrow>
   reporting_error + 'r weekly_response" where
  "weekly_performance numeric_div zero env sql_ok incomplete requested now q =
     (case api_week_start requested of
        Inl e \<Rightarrow> Inl e
      | Inr week \<Rightarrow>
          if enabled env ''REPORTING_ROLLUP_CUTOVER_ENABLED'' False
          then cutover_weekly_performance numeric_div zero env sql_ok incomplete week now q
          else if \<not> sql_ok then Inl database_failure
          else case (case week of None \<Rightarrow> default_week_start q | Some w \<Rightarrow> Some w) of
              None \<Rightarrow> Inr \<lparr>wr_week_start = None, wr_incomplete = False, wr_entries = [], wr_state = None,
                  wr_source_cutoff_at = None, wr_published_at = None\<rparr>
            | Some w \<Rightarrow> Inr \<lparr>wr_week_start = Some w, wr_incomplete = w \<in> set incomplete,
                  wr_entries = weekly_entries w q, wr_state = None, wr_source_cutoff_at = None,
                  wr_published_at = None\<rparr>)"

definition DAILY_REFRESH_TIME :: int where "DAILY_REFRESH_TIME = hours 7"

text \<open>Both sides of the comparison are local times of the same zone, compared as wall clocks.\<close>

definition next_refresh :: "(instant \<Rightarrow> date \<times> int) \<Rightarrow> (date \<Rightarrow> int \<Rightarrow> instant) \<Rightarrow> instant \<Rightarrow> instant" where
  "next_refresh to_local to_utc now =
     (case to_local now of (today, clock) \<Rightarrow>
        to_utc (if DAILY_REFRESH_TIME \<le> clock then today + 1 else today) DAILY_REFRESH_TIME)"

datatype worker_status = WHealthy | WStale | WUnknown

datatype reporting_state = Current | Stale | Degraded | NotActivated

record runs_response =
  rn_queue_state :: queue_state
  rn_latest :: "pipeline_run option"
  rn_queued :: "pipeline_run list"
  rn_latest_successful :: "pipeline_run option"
  rn_worker_status :: worker_status
  rn_next_refresh :: instant
  rn_attempts :: "run_attempt list"
  rn_reporting_state :: reporting_state
  rn_results_current :: bool

definition api_signals :: "report_db \<Rightarrow> queue_signals" where
  "api_signals d = (let worker = worker_signals d; running = running_signals d; latest = latest_run d in
     \<lparr>qs_heartbeat_at = map_option wh_heartbeat_at worker,
      qs_last_progress_at = Option.bind worker wh_last_progress_at,
      qs_orchestrator_healthy = Option.bind worker wh_orchestrator_healthy,
      qs_running_stage = Option.bind running fst, qs_stage_started_at = Option.bind running snd,
      qs_latest_status = map_option pr_status latest,
      qs_latest_next_attempt_at = Option.bind latest pr_next_attempt_at,
      qs_queued_count = length (queued_runs d)\<rparr>)"

definition worker_status_of :: "worker_heartbeat option \<Rightarrow> instant \<Rightarrow> worker_status" where
  "worker_status_of worker now = (case worker of
      None \<Rightarrow> WUnknown
    | Some w \<Rightarrow> if WORKER_STALE_AFTER < now - wh_heartbeat_at w then WStale else WHealthy)"

definition results_current :: "environ \<Rightarrow> report_db \<Rightarrow> instant option \<Rightarrow> instant \<Rightarrow> bool" where
  "results_current env d cutoff now \<longleftrightarrow>
     enabled env ''REPORTING_COMPUTATION_ENABLED'' True \<and>
     (case cutoff of None \<Rightarrow> False | Some t \<Rightarrow> now - t \<le> RESULTS_STALE_AFTER) \<and>
     worker_status_of (worker_signals d) now = WHealthy \<and>
     Option.bind (worker_signals d) wh_orchestrator_healthy = Some True \<and>
     \<not> enabled env ''REPORTING_FORCE_STALE'' False"

definition reporting_state_of :: "environ \<Rightarrow> report_db \<Rightarrow> instant option \<Rightarrow> instant \<Rightarrow> reporting_state" where
  "reporting_state_of env d cutoff now =
     (if cutoff = None then NotActivated
      else if \<not> enabled env ''REPORTING_COMPUTATION_ENABLED'' True \<or>
         worker_status_of (worker_signals d) now \<noteq> WHealthy \<or>
         Option.bind (worker_signals d) wh_orchestrator_healthy \<noteq> Some True then Degraded
      else if enabled env ''REPORTING_FORCE_STALE'' False \<or> \<not> results_current env d cutoff now then Stale
      else Current)"

text \<open>None is the \<open>ValueError\<close> of a stage deadline that is not a number, which no clause catches.\<close>

definition latest_runs ::
  "(instant \<Rightarrow> date \<times> int) \<Rightarrow> (date \<Rightarrow> int \<Rightarrow> instant) \<Rightarrow> environ \<Rightarrow> bool \<Rightarrow> instant \<Rightarrow> 'r reporting \<Rightarrow>
   (reporting_error + runs_response) option" where
  "latest_runs to_local to_utc env sql_ok now q =
     (if \<not> sql_ok then Some (Inl database_failure)
      else let d = queue_db q; cutoff = rs_active_cutoff (rollup q) in
        map_option (\<lambda>state. Inr
          \<lparr>rn_queue_state = state, rn_latest = latest_run d, rn_queued = queued_runs d,
           rn_latest_successful = latest_successful_run d,
           rn_worker_status = worker_status_of (worker_signals d) now,
           rn_next_refresh = next_refresh to_local to_utc now, rn_attempts = latest_attempts 10 d,
           rn_reporting_state = reporting_state_of env d cutoff now,
           rn_results_current = results_current env d cutoff now\<rparr>)
          (derive_queue_state env (api_signals d) now))"

definition request_run ::
  "environ \<Rightarrow> bool \<Rightarrow> uuid \<Rightarrow> uuid \<Rightarrow> date option option \<Rightarrow> bool \<Rightarrow> string \<Rightarrow> string \<Rightarrow> instant \<Rightarrow> report_db \<Rightarrow>
   (reporting_error + uuid) \<times> report_db" where
  "request_run env sql_ok new_id nonce week force_refresh requested_by role now d =
     (if role \<noteq> ''admin''
      then (Inl (ReportingError 403 ''Administrator role required'' ''REPORTING_FORBIDDEN''), d)
      else case api_week_start week of
          Inl e \<Rightarrow> (Inl e, d)
        | Inr parsed_week \<Rightarrow>
            let cutover = enabled env ''REPORTING_ROLLUP_CUTOVER_ENABLED'' False in
            if cutover \<and> \<not> enabled env ''REPORTING_COMPUTATION_ENABLED'' True then (Inl computation_disabled, d)
            else if cutover \<and> \<not> sql_ok then (Inl database_failure, d)
            else if cutover \<and> \<not> worker_available (worker_signals d) now then (Inl control_plane_unavailable, d)
            else if \<not> sql_ok then (Inl database_failure, d)
            else (case enqueue_manual new_id nonce requested_by parsed_week force_refresh now d of
                (Inr run_id, d') \<Rightarrow> (Inr run_id, d')
              | (Inl (QueueValidationError m), d') \<Rightarrow>
                  (Inl (if contains ''precedes last ledger reset'' m
                    then ReportingError 400 ''Requested week precedes last ledger reset'' ''REPORTING_WEEK_FROZEN''
                    else invalid_week), d')
              | (Inl _, d') \<Rightarrow> (Inl database_failure, d')))"

section \<open>The health probe\<close>

definition probe_signals :: "report_db \<Rightarrow> queue_signals" where
  "probe_signals d = (api_signals d)\<lparr>qs_latest_next_attempt_at := None\<rparr>"

definition reporting_verification :: "environ \<Rightarrow> instant \<Rightarrow> report_db \<Rightarrow> (string \<times> queue_state \<times> bool) option" where
  "reporting_verification env now d =
     map_option (\<lambda>state.
       (if state \<notin> {Unavailable, Stuck} then ''verified'' else ''degraded'', state,
        case worker_signals d of
          None \<Rightarrow> True
        | Some w \<Rightarrow> WORKER_STALE_AFTER div seconds 1 < max 0 ((now - wh_heartbeat_at w) div seconds 1)))
       (derive_queue_state env (probe_signals d) now)"

section \<open>Lemmas on the queries\<close>

lemma oldest_by_None: "oldest_by key xs = None \<longleftrightarrow> xs = []"
  by (metis (no_types, lifting) length_0_conv length_sort list.case list.exhaust oldest_by_def option.distinct(1))

lemma oldest_by_in: "oldest_by key xs = Some x \<Longrightarrow> x \<in> set xs"
proof -
  assume "oldest_by key xs = Some x"
  then have "x \<in> set (sort_key key xs)" unfolding oldest_by_def by (cases "sort_key key xs") simp_all
  then show ?thesis by simp
qed

lemma newest_by_in: "newest_by key xs = Some x \<Longrightarrow> x \<in> set xs"
proof -
  assume "newest_by key xs = Some x"
  then have "x \<in> set (rev (sort_key key xs))" unfolding newest_by_def by (cases "rev (sort_key key xs)") simp_all
  then show ?thesis by simp
qed

lemma latest_run_in: "latest_run d = Some r \<Longrightarrow> r \<in> set (pipeline_runs d)"
  unfolding latest_run_def by (rule newest_by_in)

lemma queued_runs_set: "set (queued_runs d) = {r \<in> set (pipeline_runs d). pr_status r \<in> {Requested, Retryable}}"
  by (simp add: queued_runs_def)

lemma queued_none: "length (queued_runs d) = 0 \<longleftrightarrow> (\<forall>r\<in>set (pipeline_runs d). pr_status r \<notin> {Requested, Retryable})"
  using queued_runs_set [of d] by (metis (mono_tags, lifting) empty_Collect_eq length_0_conv set_empty)

lemma running_row:
  assumes "queue_ok M (d, C)" and "r \<in> set (runs d)" and "pr_status r = Running"
  shows "running_signals d = Some (pr_stage r, pr_stage_started_at r)"
proof -
  have pipe: "pr_pipeline s = PIPELINE_NAME" if "s \<in> set (runs d)" for s
    using queue_row [OF assms(1) that] by (simp add: row_ok_def)
  let ?xs = "filter (\<lambda>r. pr_status r = Running) (pipeline_runs d)"
  have r: "r \<in> set ?xs" using assms(2,3) pipe by (simp add: pipeline_runs_def)
  then obtain s where s: "oldest_by (\<lambda>r. coalesce (pr_started_at r) 0) ?xs = Some s"
    using oldest_by_None [of "\<lambda>r. coalesce (pr_started_at r) 0" ?xs] by fastforce
  then have "s \<in> set (runs d)" "pr_status s = Running" using oldest_by_in [OF s] by (auto simp: pipeline_runs_def)
  moreover have u: "unique_rows d" using assms(1) by (simp add: queue_ok_def)
  ultimately have "pr_id s = pr_id r" using assms(2,3) unfolding unique_rows_def by blast
  then have "s = r" using id_unique [OF u \<open>s \<in> set (runs d)\<close> assms(2)] by blast
  with s show ?thesis by (simp add: running_signals_def)
qed

lemma worker_available_iff:
  "worker_available (worker_signals d) now \<longleftrightarrow>
     \<not> ((case qs_heartbeat_at (api_signals d) of None \<Rightarrow> True | Some t \<Rightarrow> WORKER_STALE_AFTER < now - t)
        \<or> qs_orchestrator_healthy (api_signals d) \<noteq> Some True)"
  by (cases "worker_signals d") (auto simp: worker_available_def api_signals_def Let_def)

section \<open>Properties\<close>


text \<open>A beating worker over the waiting queue, and the same queue when the worker has stopped.\<close>

definition beating_queue :: report_db where
  "beating_queue = record_worker_heartbeat 100 (Some 100) (Some True) waiting_queue"


text \<open>
  The probe reads the same tables and reports the same state as the API, except that it never says
  that a run is being retried: it calls it queued.
\<close>

lemma probe_agrees:
  assumes "queue_ok M (d, C)"
  shows "derive_queue_state env (probe_signals d) now =
    map_option (\<lambda>st. if st = Retrying then Queued else st) (derive_queue_state env (api_signals d) now)"
proof -
  let ?s = "api_signals d"
  have pipe: "set (pipeline_runs d) = set (runs d)"
    using queue_row [OF assms] by (auto simp: pipeline_runs_def row_ok_def)
  have "0 < qs_queued_count ?s" if "qs_latest_status ?s = Some Retryable"
  proof -
    from that obtain r where "latest_run d = Some r" "pr_status r = Retryable" by (auto simp: api_signals_def Let_def)
    with latest_run_in [of d r] have "r \<in> set (queued_runs d)" by (simp add: queued_runs_set)
    then show ?thesis by (auto simp: api_signals_def Let_def intro: length_pos_if_in_set)
  qed
  moreover have "map_option (\<lambda>st. if st = Retrying then Queued else st) (map_option (\<lambda>n. if P n then Stuck else Processing) x) =
      map_option (\<lambda>n. if P n then Stuck else Processing) x" for P and x :: "int option"
    by (cases x) simp_all
  ultimately show ?thesis
    unfolding derive_queue_state_def probe_signals_def
    by (simp split: option.split) fastforce
qed



text \<open>
  The next refresh that the API announces skips the evening one. Between seven in the morning and
  seven in the evening local time it answers seven the next morning, although the dispatcher has
  another slot today, in the future and before that time, for which it will enqueue a run. From seven
  in the morning on (Dallas changes its clocks in the night) local times and instants correspond.
\<close>

theorem next_refresh_misses_evening:
  assumes "\<And>t. hours 7 \<le> snd (to_local t) \<Longrightarrow> to_utc (fst (to_local t)) (snd (to_local t)) = t"
    and "\<And>d t. hours 7 \<le> t \<Longrightarrow> t < days 1 \<Longrightarrow> to_local (to_utc d t) = (d, t)"
    and "\<And>d t d' t'. hours 7 \<le> t \<Longrightarrow> t < days 1 \<Longrightarrow> hours 7 \<le> t' \<Longrightarrow> t' < days 1 \<Longrightarrow> d < d' \<or> d = d' \<and> t < t' \<Longrightarrow>
      to_utc d t < to_utc d' t'"
    and "to_local now = (today, clock)" and "hours 7 \<le> clock" and "clock < hours 19"
  shows "\<exists>slot. now < slot \<and> slot < next_refresh to_local to_utc now \<and>
    due_slot (to_local slot) = Some (None, hours 19) \<and> to_utc (fst (to_local slot)) (hours 19) = slot"
proof (intro exI conjI)
  have h: "hours 7 \<le> hours 19" "hours 19 < days 1" "hours 7 \<le> hours 7" "hours 7 < days 1" "hours 7 < hours 19"
    by (simp_all add: hours_def seconds_def days_def)
  have now: "to_utc today clock = now" using assms(1) [of now] assms(4,5) by simp
  have local: "to_local (to_utc today (hours 19)) = (today, hours 19)" using assms(2) h by blast
  show "now < to_utc today (hours 19)"
    unfolding now [symmetric] by (rule assms(3)) (use assms(5,6) h in auto)
  show "to_utc today (hours 19) < next_refresh to_local to_utc now"
    unfolding next_refresh_def assms(4) DAILY_REFRESH_TIME_def prod.case if_P [OF assms(5)]
    by (rule assms(3)) (use h in auto)
  show "due_slot (to_local (to_utc today (hours 19))) = Some (None, hours 19)"
    unfolding local by (simp add: due_slot_def REFRESH_TIMES_def hours_def seconds_def)
  show "to_utc (fst (to_local (to_utc today (hours 19)))) (hours 19) = to_utc today (hours 19)" by (simp add: local)
qed

theorem next_refresh_witness:
  "\<exists>slot. midnight 20000 + hours 18 < slot \<and>
     slot < next_refresh winter_local winter_utc (midnight 20000 + hours 18) \<and>
     due_slot (winter_local slot) = Some (None, hours 19)"
proof -
  have inv: "winter_utc (fst (winter_local t)) (snd (winter_local t)) = t" for t
    by (simp add: winter_utc_def winter_local_def midnight_def days_def hours_def seconds_def)
  have loc: "winter_local (winter_utc d t) = (d, t)" if "hours 7 \<le> t" "t < days 1" for d t
    using that by (simp add: winter_utc_def winter_local_def midnight_def days_def hours_def seconds_def)
  have mono: "winter_utc d t < winter_utc d' t'"
    if "hours 7 \<le> t" "t < days 1" "hours 7 \<le> t'" "t' < days 1" "d < d' \<or> d = d' \<and> t < t'" for d t d' t'
    using that by (auto simp: winter_utc_def midnight_def days_def hours_def seconds_def)
  have now: "winter_local (midnight 20000 + hours 18) = (20000, hours 12)" by code_simp
  have c: "hours 7 \<le> hours 12" "hours 12 < hours 19" by (simp_all add: hours_def seconds_def)
  from next_refresh_misses_evening [of winter_local winter_utc, OF inv loc mono now c] show ?thesis by blast
qed

end
