(* ===== verification/IdentityStore.thy ===== *)
theory IdentityStore
  imports Prelude
begin

text \<open>
  The tables of the identity service (\<open>services/identity/identity/\<close>): its records (\<open>models.py\<close>,
  \<open>constants.py\<close>), its repositories over TinyDB (\<open>repository.py\<close>) and what they take from
  \<open>security.py\<close>. A TinyDB table is the list of its documents; a time is stored in ISO format and in
  UTC, so that comparing the texts compares the instants.

  Cryptography and randomness are parameters. \<open>crypto\<close> holds the digest of opaque tokens (SHA-256),
  the password hash with its salt and its verification (Argon2) and the signature of access tokens.
  \<open>fresh\<close> holds what a request draws: UUIDs, tokens, the salt.
\<close>

section \<open>Records\<close>

datatype role = Admin | User
datatype account_status = Active | Suspended | Disabled
datatype jurisdiction = US | ES

record user =
  us_id :: uuid
  us_name :: string
  us_email :: string
  us_hash :: string
  us_role :: role
  us_status :: account_status
  us_jurisdiction :: "jurisdiction option"
  us_must_change :: bool
  us_created_at :: instant
  us_last_login_at :: "instant option"

record login_session =
  ss_id :: uuid
  ss_user :: uuid
  ss_digest :: string
  ss_family :: uuid
  ss_expires_at :: instant
  ss_revoked :: bool
  ss_rotated_from :: "uuid option"
  ss_created_at :: instant

record reset =
  rt_id :: uuid
  rt_user :: uuid
  rt_digest :: string
  rt_expires_at :: instant
  rt_used :: bool
  rt_purpose :: string
  rt_created_at :: instant

record identity_db =
  users :: "user list"
  sessions :: "login_session list"
  resets :: "reset list"

record access_claims =
  ac_sub :: uuid
  ac_role :: role
  ac_status :: account_status
  ac_must_change :: bool
  ac_jurisdiction :: "jurisdiction option"
  ac_iat :: int
  ac_exp :: int
  ac_jti :: uuid

record crypto =
  cr_digest :: "string \<Rightarrow> string"
  cr_hash :: "string \<Rightarrow> string \<Rightarrow> string"
  cr_verify :: "string \<Rightarrow> string \<Rightarrow> bool"
  cr_sign :: "access_claims \<Rightarrow> string"

record fresh =
  fr_id :: uuid
  fr_family :: uuid
  fr_token :: string
  fr_csrf :: string
  fr_salt :: string
  fr_jti :: uuid
  fr_password :: string

record identity_settings =
  is_public_key :: string
  is_algorithm :: string
  is_issuer :: string
  is_audience :: string
  is_access_minutes :: int
  is_refresh_days :: int
  is_reset_minutes :: int

section \<open>Validation\<close>

definition normalize_email :: "string \<Rightarrow> string" where
  "normalize_email v = to_lower (strip_chars py_space v)"

definition validate_email :: "string \<Rightarrow> string option" where
  "validate_email v =
     (let email = normalize_email v in
      if email = '''' \<or> CHR ''@'' \<notin> set email \<or> hd email = CHR ''@'' \<or> last email = CHR ''@'' then None else Some email)"

definition validate_name :: "string \<Rightarrow> string option" where
  "validate_name v = (let name = strip_chars py_space v in if name = '''' then None else Some name)"

section \<open>The users\<close>

definition find_user :: "uuid \<Rightarrow> identity_db \<Rightarrow> user option" where
  "find_user i d = List.find (\<lambda>u. us_id u = i) (users d)"

definition find_email :: "string \<Rightarrow> identity_db \<Rightarrow> user option" where
  "find_email e d = List.find (\<lambda>u. us_email u = normalize_email e) (users d)"

text \<open>None is \<open>DuplicateEmailError\<close>.\<close>

definition insert_user :: "user \<Rightarrow> identity_db \<Rightarrow> user option \<times> identity_db" where
  "insert_user u d =
     (if find_email (us_email u) d \<noteq> None then (None, d)
      else let record = u\<lparr>us_email := normalize_email (us_email u)\<rparr> in (Some record, d\<lparr>users := users d @ [record]\<rparr>))"

definition list_users :: "identity_db \<Rightarrow> user list" where
  "list_users d = sort_key us_email (users d)"

definition update_user :: "uuid \<Rightarrow> (user \<Rightarrow> user) \<Rightarrow> identity_db \<Rightarrow> user option \<times> identity_db" where
  "update_user i changes d =
     (let d' = d\<lparr>users := map (\<lambda>u. if us_id u = i then changes u else u) (users d)\<rparr> in
      if \<exists>u\<in>set (users d). us_id u = i then (find_user i d', d') else (None, d'))"

section \<open>Rows that are burnt\<close>

text \<open>
  Sessions and reset tokens are never deleted: a row is added live and later marked as dead, and
  nothing brings it back.
\<close>

locale burnable =
  fixes rows :: "'db \<Rightarrow> 'row list" and dead :: "'row \<Rightarrow> bool" and mark :: "'row \<Rightarrow> 'row" and key :: "'row \<Rightarrow> 'k"
    and add :: "'row \<Rightarrow> 'db \<Rightarrow> 'db" and burn :: "('row \<Rightarrow> bool) \<Rightarrow> 'db \<Rightarrow> 'db"
  assumes rows_add: "rows (add r d) = rows d @ [r]"
    and rows_burn: "rows (burn P d) = map (\<lambda>r. if P r then mark r else r) (rows d)"
    and mark_dead: "dead (mark r)" and mark_key: "key (mark r) = key r" and mark_again: "dead r \<Longrightarrow> mark r = r"
begin

lemma live_burn: "r \<in> set (rows (burn P d)) \<and> \<not> dead r \<longleftrightarrow> r \<in> set (rows d) \<and> \<not> dead r \<and> \<not> P r"
  using mark_dead by (auto simp: rows_burn)

lemma live_add: "r \<in> set (rows (add x d)) \<and> \<not> dead r \<longleftrightarrow> r \<in> set (rows d) \<and> \<not> dead r \<or> r = x \<and> \<not> dead x"
  by (auto simp: rows_add)

lemma keys_burn [simp]: "map key (rows (burn P d)) = map key (rows d)"
  by (simp add: rows_burn mark_key)

lemma burn_none: "(\<And>r. r \<in> set (rows d) \<Longrightarrow> \<not> dead r \<Longrightarrow> \<not> P r) \<Longrightarrow> rows (burn P d) = rows d"
  unfolding rows_burn by (rule map_idI) (metis mark_again)

lemma dead_burn: "r \<in> set (rows d) \<Longrightarrow> \<exists>r'\<in>set (rows (burn P d)). key r' = key r \<and> (dead r \<longrightarrow> r' = r)"
  unfolding rows_burn
  by (rule bexI [of _ "if P r then mark r else r"]) (simp_all add: mark_key mark_again)

end

definition add_session :: "login_session \<Rightarrow> identity_db \<Rightarrow> identity_db" where
  "add_session s d = d\<lparr>sessions := sessions d @ [s]\<rparr>"

definition revoke :: "(login_session \<Rightarrow> bool) \<Rightarrow> identity_db \<Rightarrow> identity_db" where
  "revoke P d = d\<lparr>sessions := map (\<lambda>s. if P s then s\<lparr>ss_revoked := True\<rparr> else s) (sessions d)\<rparr>"

interpretation sess: burnable sessions ss_revoked "\<lambda>s. s\<lparr>ss_revoked := True\<rparr>" ss_digest add_session revoke
  by unfold_locales (simp_all add: add_session_def revoke_def)

definition add_reset :: "reset \<Rightarrow> identity_db \<Rightarrow> identity_db" where
  "add_reset r d = d\<lparr>resets := resets d @ [r]\<rparr>"

definition use_resets :: "(reset \<Rightarrow> bool) \<Rightarrow> identity_db \<Rightarrow> identity_db" where
  "use_resets P d = d\<lparr>resets := map (\<lambda>r. if P r then r\<lparr>rt_used := True\<rparr> else r) (resets d)\<rparr>"

interpretation rst: burnable resets rt_used "\<lambda>r. r\<lparr>rt_used := True\<rparr>" rt_digest add_reset use_resets
  by unfold_locales (simp_all add: add_reset_def use_resets_def)

section \<open>The sessions\<close>

definition session_by_digest :: "string \<Rightarrow> identity_db \<Rightarrow> login_session option" where
  "session_by_digest h d = List.find (\<lambda>s. ss_digest s = h) (sessions d)"

definition revoke_session :: "uuid \<Rightarrow> identity_db \<Rightarrow> identity_db" where
  "revoke_session i = revoke (\<lambda>s. ss_id s = i)"

definition revoke_family :: "uuid \<Rightarrow> identity_db \<Rightarrow> identity_db" where
  "revoke_family f = revoke (\<lambda>s. ss_family s = f)"

text \<open>\<open>if except_session_id and ...\<close>: an empty id excepts nothing.\<close>

definition revoke_user_sessions :: "uuid \<Rightarrow> uuid option \<Rightarrow> identity_db \<Rightarrow> identity_db" where
  "revoke_user_sessions i keep = revoke (\<lambda>s. ss_user s = i \<and>
     \<not> (coalesce keep '''' \<noteq> '''' \<and> Some (ss_id s) = keep))"

definition cleanup_sessions :: "instant \<Rightarrow> identity_db \<Rightarrow> identity_db" where
  "cleanup_sessions now = revoke (\<lambda>s. \<not> ss_revoked s \<and> ss_expires_at s \<le> now)"

section \<open>The reset tokens\<close>

definition reset_by_digest :: "string \<Rightarrow> identity_db \<Rightarrow> reset option" where
  "reset_by_digest h d = List.find (\<lambda>r. rt_digest r = h) (resets d)"

definition mark_used :: "uuid \<Rightarrow> identity_db \<Rightarrow> reset option \<times> identity_db" where
  "mark_used i d =
     (let d' = use_resets (\<lambda>r. rt_id r = i) d in
      (if \<exists>r\<in>set (resets d). rt_id r = i then List.find (\<lambda>r. rt_id r = i) (resets d') else None, d'))"

definition invalidate_user_tokens :: "uuid \<Rightarrow> identity_db \<Rightarrow> identity_db" where
  "invalidate_user_tokens i = use_resets (\<lambda>r. rt_user r = i)"

definition cleanup_resets :: "instant \<Rightarrow> identity_db \<Rightarrow> identity_db" where
  "cleanup_resets now = use_resets (\<lambda>r. \<not> rt_used r \<and> rt_expires_at r \<le> now)"

end
