(* ===== verification/AuthVerifier.thy ===== *)
theory AuthVerifier
  imports Prelude
begin

text \<open>
  The verification that the services share (\<open>packages/trackflow_auth/trackflow_auth/verifier.py\<close>) and the
  dependencies of the central API that rest on it (\<open>core/dependencies.py\<close>): access tokens of the
  identity service from a cookie or a bearer header, OAuth tokens with scopes, and CSRF.

  The JWT library (python-jose) is the parameter \<open>jwt\<close>: the algorithm in the header of a token, and
  the claims of a token that passes the check of its signature, lifetime, issuer and audience. An
  exception of the library is None.
\<close>

section \<open>Requests and claims\<close>

datatype http_error = HttpError (he_status: int) (he_detail: string)

text \<open>An exception that no handler catches.\<close>

definition uncaught :: http_error where
  "uncaught = HttpError 500 ''Internal Server Error''"

text \<open>Header names are kept in lower case, as the framework looks them up.\<close>

record http_request =
  hr_method :: string
  hr_cookies :: "(string \<times> string) list"
  hr_headers :: "(string \<times> string) list"

definition request_cookie :: "string \<Rightarrow> http_request \<Rightarrow> string" where
  "request_cookie name r = coalesce (map_of (hr_cookies r) name) ''''"

definition request_header :: "string \<Rightarrow> http_request \<Rightarrow> string" where
  "request_header name r = coalesce (map_of (hr_headers r) (to_lower name)) ''''"

text \<open>A JSON value of a claim; a list or an object is its truth value and its text.\<close>

datatype json = JStr string | JInt int | JBool bool | JNull | JOther bool string

type_synonym claims = "(string \<times> json) list"

fun truthy :: "json \<Rightarrow> bool" where
  "truthy (JStr s) \<longleftrightarrow> s \<noteq> ''''"
| "truthy (JInt n) \<longleftrightarrow> n \<noteq> 0"
| "truthy (JBool b) \<longleftrightarrow> b"
| "truthy JNull \<longleftrightarrow> False"
| "truthy (JOther b s) \<longleftrightarrow> b"

fun json_str :: "json \<Rightarrow> string" where
  "json_str (JStr s) = s"
| "json_str (JInt n) = str_int n"
| "json_str (JBool b) = (if b then ''True'' else ''False'')"
| "json_str JNull = ''None''"
| "json_str (JOther b s) = s"

record jwt =
  jw_alg :: "string \<Rightarrow> json option option"
  jw_claims :: "string \<Rightarrow> claims option"
  jw_decode :: "string \<Rightarrow> string \<Rightarrow> string \<Rightarrow> string \<Rightarrow> string \<Rightarrow> instant \<Rightarrow> claims option"

text \<open>\<open>jw_decode jw token key algorithm issuer audience now\<close>.\<close>

section \<open>Splitting text\<close>

definition before_space :: "string \<Rightarrow> string" where
  "before_space s = takeWhile (\<lambda>c. c \<noteq> CHR '' '') s"

definition after_space :: "string \<Rightarrow> string" where
  "after_space s = drop 1 (dropWhile (\<lambda>c. c \<noteq> CHR '' '') s)"

text \<open>\<open>[part for part in s.split(' ') if part]\<close>.\<close>

fun split_spaces :: "string \<Rightarrow> string \<Rightarrow> string list" where
  "split_spaces part [] = [rev part]"
| "split_spaces part (c # s) = (if c = CHR '' '' then rev part # split_spaces [] s else split_spaces (c # part) s)"

definition scope_words :: "string \<Rightarrow> string list" where
  "scope_words s = filter (\<lambda>w. w \<noteq> '''') (split_spaces [] s)"

section \<open>Access tokens of the identity service\<close>

definition ACCESS_COOKIE_NAME :: string where "ACCESS_COOKIE_NAME = ''trackflow_access''"
definition REFRESH_COOKIE_NAME :: string where "REFRESH_COOKIE_NAME = ''trackflow_refresh''"
definition CSRF_COOKIE_NAME :: string where "CSRF_COOKIE_NAME = ''trackflow_csrf''"
definition CSRF_HEADER_NAME :: string where "CSRF_HEADER_NAME = ''X-CSRF-Token''"
definition STATE_CHANGING_METHODS :: "string list" where
  "STATE_CHANGING_METHODS = [''POST'', ''PUT'', ''PATCH'', ''DELETE'']"

record verifier_config =
  vc_public_key :: string
  vc_issuer :: string
  vc_audience :: string
  vc_algorithm :: string
  vc_access_cookie :: string
  vc_csrf_cookie :: string
  vc_csrf_header :: string

record oauth_verifier_config =
  oc_public_key :: string
  oc_issuer :: string
  oc_audience :: string
  oc_algorithm :: string

datatype token_source = CookieToken | BearerToken

record principal =
  ap_user :: string
  ap_role :: string
  ap_status :: string
  ap_must_change :: bool
  ap_token :: string
  ap_source :: token_source
  ap_jurisdiction :: "string option"

record scoped_principal =
  sp_user :: string
  sp_client :: string
  sp_role :: string
  sp_status :: string
  sp_scopes :: "string set"
  sp_token :: string
  sp_jurisdiction :: "string option"

definition not_authenticated :: http_error where
  "not_authenticated = HttpError 401 ''Not authenticated''"

definition forbidden :: "string \<Rightarrow> http_error" where
  "forbidden detail = HttpError 403 detail"

definition bearer_token :: "http_request \<Rightarrow> string option" where
  "bearer_token r =
     (let authorization = request_header ''Authorization'' r; token = strip_chars py_space (after_space authorization) in
      if to_lower (before_space authorization) = ''bearer'' \<and> token \<noteq> '''' then Some token else None)"

definition extract_access_token :: "http_request \<Rightarrow> string \<Rightarrow> http_error + string \<times> token_source" where
  "extract_access_token r name =
     (if request_cookie name r \<noteq> '''' then Inr (request_cookie name r, CookieToken)
      else case bearer_token r of Some token \<Rightarrow> Inr (token, BearerToken) | None \<Rightarrow> Inl not_authenticated)"

definition REQUIRED_CLAIMS :: "string list" where
  "REQUIRED_CLAIMS = [''sub'', ''role'', ''status'', ''must_change_password'', ''iss'', ''aud'', ''exp'', ''iat'', ''jti'', ''token_type'']"

definition lacks :: "string list \<Rightarrow> claims \<Rightarrow> bool" where
  "lacks required cs \<longleftrightarrow> (\<exists>k\<in>set required. map_of cs k = None)"

definition verify_access_token :: "jwt \<Rightarrow> instant \<Rightarrow> string \<Rightarrow> verifier_config \<Rightarrow> http_error + claims" where
  "verify_access_token jw now token cfg =
     (if strip_chars py_space (vc_public_key cfg) = '''' then Inl not_authenticated
      else case jw_alg jw token of
          None \<Rightarrow> Inl not_authenticated
        | Some alg \<Rightarrow>
            if alg \<noteq> Some (JStr (vc_algorithm cfg)) \<or> vc_algorithm cfg \<noteq> ''RS256'' then Inl not_authenticated
            else (case jw_decode jw token (vc_public_key cfg) (vc_algorithm cfg) (vc_issuer cfg) (vc_audience cfg) now of
                None \<Rightarrow> Inl not_authenticated
              | Some cs \<Rightarrow>
                  if lacks REQUIRED_CLAIMS cs then Inl not_authenticated
                  else if map_of cs ''token_type'' \<noteq> Some (JStr ''access'') then Inl not_authenticated
                  else Inr cs))"

text \<open>\<open>claims[k]\<close> of a required claim.\<close>

definition claim_str :: "claims \<Rightarrow> string \<Rightarrow> string" where
  "claim_str cs k = json_str (coalesce (map_of cs k) JNull)"

text \<open>\<open>claims.get("jurisdiction") in {"US", "ES"}\<close>: a list or an object is not hashable.\<close>

definition claim_jurisdiction :: "claims \<Rightarrow> http_error + string option" where
  "claim_jurisdiction cs =
     (case map_of cs ''jurisdiction'' of
        Some (JStr j) \<Rightarrow> Inr (if j \<in> {''US'', ''ES''} then Some j else None)
      | Some (JOther b s) \<Rightarrow> Inl uncaught
      | _ \<Rightarrow> Inr None)"

definition authenticate_request :: "jwt \<Rightarrow> instant \<Rightarrow> http_request \<Rightarrow> verifier_config \<Rightarrow> bool \<Rightarrow> http_error + principal" where
  "authenticate_request jw now r cfg allow_password_change =
     (case extract_access_token r (vc_access_cookie cfg) of
        Inl e \<Rightarrow> Inl e
      | Inr (token, source) \<Rightarrow> (case verify_access_token jw now token cfg of
          Inl e \<Rightarrow> Inl e
        | Inr cs \<Rightarrow>
            if map_of cs ''status'' \<noteq> Some (JStr ''active'') then Inl not_authenticated
            else if map_of cs ''must_change_password'' = Some (JBool True) \<and> \<not> allow_password_change
            then Inl (forbidden ''Password change required'')
            else (case claim_jurisdiction cs of
                Inl e \<Rightarrow> Inl e
              | Inr j \<Rightarrow> Inr \<lparr>ap_user = claim_str cs ''sub'', ap_role = claim_str cs ''role'', ap_status = claim_str cs ''status'',
                  ap_must_change = truthy (coalesce (map_of cs ''must_change_password'') JNull),
                  ap_token = claim_str cs ''jti'', ap_source = source, ap_jurisdiction = j\<rparr>)))"

section \<open>OAuth tokens\<close>

definition REQUIRED_OAUTH_CLAIMS :: "string list" where
  "REQUIRED_OAUTH_CLAIMS = [''sub'', ''client_id'', ''scope'', ''iss'', ''aud'', ''exp'', ''iat'', ''jti'', ''token_type'']"

definition blank :: "string \<Rightarrow> bool" where
  "blank s \<longleftrightarrow> strip_chars py_space s = ''''"

definition get_claim :: "claims \<Rightarrow> string \<Rightarrow> json \<Rightarrow> json" where
  "get_claim cs k d = coalesce (map_of cs k) d"

definition authenticate_scoped_bearer ::
  "jwt \<Rightarrow> instant \<Rightarrow> http_request \<Rightarrow> oauth_verifier_config \<Rightarrow> string set \<Rightarrow> http_error + scoped_principal" where
  "authenticate_scoped_bearer jw now r cfg required =
     (let authorization = request_header ''Authorization'' r; token = after_space authorization in
      if to_lower (before_space authorization) \<noteq> ''bearer'' \<or> blank token \<or> blank (oc_public_key cfg)
      then Inl not_authenticated
      else case jw_alg jw token of
          None \<Rightarrow> Inl not_authenticated
        | Some alg \<Rightarrow>
            if alg \<noteq> Some (JStr (oc_algorithm cfg)) \<or> oc_algorithm cfg \<noteq> ''RS256'' then Inl not_authenticated
            else (case jw_decode jw (strip_chars py_space token) (oc_public_key cfg) (oc_algorithm cfg) (oc_issuer cfg)
                  (oc_audience cfg) now of
                None \<Rightarrow> Inl not_authenticated
              | Some cs \<Rightarrow>
                  if lacks REQUIRED_OAUTH_CLAIMS cs \<or> map_of cs ''token_type'' \<noteq> Some (JStr ''access'') \<or>
                    get_claim cs ''status'' (JStr ''active'') \<noteq> JStr ''active'' \<or>
                    blank (json_str (get_claim cs ''sub'' (JStr ''''))) \<or> blank (json_str (get_claim cs ''client_id'' (JStr '''')))
                  then Inl not_authenticated
                  else (case map_of cs ''scope'' of
                      Some (JStr raw) \<Rightarrow>
                        let scopes = set (scope_words raw) in
                        if \<not> required \<subseteq> scopes then Inl (HttpError 403 ''Insufficient scope'')
                        else (case claim_jurisdiction cs of
                            Inl e \<Rightarrow> Inl e
                          | Inr j \<Rightarrow> Inr \<lparr>sp_user = claim_str cs ''sub'', sp_client = claim_str cs ''client_id'',
                              sp_role = json_str (get_claim cs ''role'' (JStr ''service'')),
                              sp_status = json_str (get_claim cs ''status'' (JStr ''active'')),
                              sp_scopes = scopes, sp_token = claim_str cs ''jti'', sp_jurisdiction = j\<rparr>)
                    | _ \<Rightarrow> Inl not_authenticated)))"

section \<open>CSRF\<close>

text \<open>\<open>hmac.compare_digest\<close> raises a \<open>TypeError\<close> on a text that is not ASCII.\<close>

definition ascii :: "string \<Rightarrow> bool" where
  "ascii s \<longleftrightarrow> list_all (\<lambda>c. (of_char c :: nat) < 128) s"

definition require_csrf_request :: "http_request \<Rightarrow> verifier_config \<Rightarrow> http_error + unit" where
  "require_csrf_request r cfg =
     (if to_upper (hr_method r) \<notin> set STATE_CHANGING_METHODS then Inr ()
      else let cookie_token = request_cookie (vc_csrf_cookie cfg) r; header_token = request_header (vc_csrf_header cfg) r in
        if cookie_token = '''' \<or> header_token = '''' then Inl (forbidden ''CSRF token missing or invalid'')
        else if \<not> ascii cookie_token \<or> \<not> ascii header_token then Inl uncaught
        else if cookie_token \<noteq> header_token then Inl (forbidden ''CSRF token missing or invalid'')
        else Inr ())"

section \<open>The dependencies of the central API\<close>

definition current_principal :: "jwt \<Rightarrow> instant \<Rightarrow> verifier_config \<Rightarrow> http_request \<Rightarrow> http_error + principal" where
  "current_principal jw now cfg r = authenticate_request jw now r cfg False"

definition csrf_for_cookie :: "http_request \<Rightarrow> verifier_config \<Rightarrow> principal \<Rightarrow> http_error + principal" where
  "csrf_for_cookie r cfg p =
     (if ap_source p = CookieToken
      then (case require_csrf_request r cfg of Inl e \<Rightarrow> Inl e | Inr _ \<Rightarrow> Inr p) else Inr p)"

definition write_principal :: "jwt \<Rightarrow> instant \<Rightarrow> verifier_config \<Rightarrow> http_request \<Rightarrow> http_error + principal" where
  "write_principal jw now cfg r =
     (case current_principal jw now cfg r of Inl e \<Rightarrow> Inl e | Inr p \<Rightarrow> csrf_for_cookie r cfg p)"

datatype any_principal = Legacy principal | Scoped scoped_principal

text \<open>An exception that is not an \<open>HTTPException\<close> passes through.\<close>

definition operational_principal ::
  "jwt \<Rightarrow> instant \<Rightarrow> verifier_config \<Rightarrow> oauth_verifier_config \<Rightarrow> http_request \<Rightarrow> string \<Rightarrow> bool \<Rightarrow>
   http_error + any_principal" where
  "operational_principal jw now cfg ocfg r required_scope writes =
     (case authenticate_request jw now r cfg False of
        Inl e \<Rightarrow>
          if e = uncaught then Inl e
          else if request_cookie (vc_access_cookie cfg) r \<noteq> '''' then Inl e
          else (case authenticate_scoped_bearer jw now r ocfg {required_scope} of Inl e' \<Rightarrow> Inl e' | Inr p \<Rightarrow> Inr (Scoped p))
      | Inr p \<Rightarrow>
          if writes \<and> ap_source p = CookieToken
          then (case require_csrf_request r cfg of Inl e \<Rightarrow> Inl e | Inr _ \<Rightarrow> Inr (Legacy p)) else Inr (Legacy p))"

definition incidents_read_principal where
  "incidents_read_principal jw now cfg ocfg r = operational_principal jw now cfg ocfg r ''incidents:read'' False"

definition incidents_write_principal where
  "incidents_write_principal jw now cfg ocfg r = operational_principal jw now cfg ocfg r ''incidents:write'' True"

definition inventory_read_principal where
  "inventory_read_principal jw now cfg ocfg r = operational_principal jw now cfg ocfg r ''inventory:read'' False"


section \<open>What access rests on\<close>

lemma verified_claims:
  assumes "verify_access_token jw now token cfg = Inr cs"
  shows "jw_decode jw token (vc_public_key cfg) ''RS256'' (vc_issuer cfg) (vc_audience cfg) now = Some cs \<and>
    \<not> lacks REQUIRED_CLAIMS cs \<and> map_of cs ''token_type'' = Some (JStr ''access'')"
  using assms by (auto simp: verify_access_token_def split: if_splits option.splits)

lemma authenticated_claims:
  assumes "authenticate_request jw now r cfg allow = Inr p"
  shows "\<exists>token cs. extract_access_token r (vc_access_cookie cfg) = Inr (token, ap_source p) \<and>
    jw_decode jw token (vc_public_key cfg) ''RS256'' (vc_issuer cfg) (vc_audience cfg) now = Some cs \<and>
    \<not> lacks REQUIRED_CLAIMS cs \<and> map_of cs ''token_type'' = Some (JStr ''access'') \<and>
    map_of cs ''status'' = Some (JStr ''active'') \<and> ap_user p = claim_str cs ''sub'' \<and> ap_role p = claim_str cs ''role'' \<and>
    (\<not> allow \<longrightarrow> map_of cs ''must_change_password'' \<noteq> Some (JBool True))"
  using assms verified_claims
  by (auto simp: authenticate_request_def split: sum.splits if_splits prod.splits)

lemma scoped_claims:
  assumes "authenticate_scoped_bearer jw now r cfg required = Inr p"
  shows "\<exists>token cs raw. bearer_token r = Some token \<and>
    jw_decode jw token (oc_public_key cfg) ''RS256'' (oc_issuer cfg) (oc_audience cfg) now = Some cs \<and>
    \<not> lacks REQUIRED_OAUTH_CLAIMS cs \<and> map_of cs ''token_type'' = Some (JStr ''access'') \<and>
    map_of cs ''scope'' = Some (JStr raw) \<and> sp_scopes p = set (scope_words raw) \<and> required \<subseteq> sp_scopes p \<and>
    sp_user p = claim_str cs ''sub'' \<and> sp_status p = ''active''"
  using assms
  by (auto simp: authenticate_scoped_bearer_def bearer_token_def blank_def Let_def
      split: option.splits if_splits json.splits sum.splits)

lemma csrf_matches:
  assumes "require_csrf_request r cfg = Inr v" and "to_upper (hr_method r) \<in> set STATE_CHANGING_METHODS"
  shows "request_cookie (vc_csrf_cookie cfg) r \<noteq> '''' \<and>
    request_cookie (vc_csrf_cookie cfg) r = request_header (vc_csrf_header cfg) r"
  using assms by (auto simp: require_csrf_request_def Let_def split: if_splits)

lemma cookie_source: "extract_access_token r name = Inr (t, s) \<Longrightarrow> s = CookieToken \<longleftrightarrow> request_cookie name r \<noteq> ''''"
  by (auto simp: extract_access_token_def split: if_splits option.splits)


text \<open>A bearer token with the scope, and a write with a cookie and its CSRF token.\<close>

definition cfg1 :: verifier_config where
  "cfg1 = \<lparr>vc_public_key = ''key'', vc_issuer = ''id'', vc_audience = ''api'', vc_algorithm = ''RS256'',
     vc_access_cookie = ACCESS_COOKIE_NAME, vc_csrf_cookie = CSRF_COOKIE_NAME, vc_csrf_header = CSRF_HEADER_NAME\<rparr>"

definition ocfg1 :: oauth_verifier_config where
  "ocfg1 = \<lparr>oc_public_key = ''key'', oc_issuer = ''oauth'', oc_audience = ''api'', oc_algorithm = ''RS256''\<rparr>"

definition jwt1 :: jwt where
  "jwt1 = \<lparr>jw_alg = \<lambda>t. Some (Some (JStr ''RS256'')), jw_claims = \<lambda>t. None, jw_decode = \<lambda>t key alg iss aud now.
     if iss = ''oauth'' then Some [(''sub'', JStr ''agent''), (''client_id'', JStr ''bot''), (''scope'', JStr ''mcp:connect incidents:write''),
       (''iss'', JStr iss), (''aud'', JStr aud), (''exp'', JInt 9), (''iat'', JInt 0), (''jti'', JStr ''t''), (''token_type'', JStr ''access'')]
     else if t = ''ana'' then Some [(''sub'', JStr ''u1''), (''role'', JStr ''user''), (''status'', JStr ''active''),
       (''must_change_password'', JBool False), (''iss'', JStr iss), (''aud'', JStr aud), (''exp'', JInt 9), (''iat'', JInt 0),
       (''jti'', JStr ''t''), (''token_type'', JStr ''access'')] else None\<rparr>"


end
