(* ===== verification/IdentityService.thy ===== *)
theory IdentityService
  imports IdentityStore AuthVerifier
begin

text \<open>
  The identity service: \<open>UserService\<close> and \<open>AuthService\<close> (\<open>service.py\<close>), the claims of an access token
  (\<open>security.py\<close>), the authorization of a caller (\<open>dependencies.py\<close>) and the HTTP handlers
  (\<open>main.py\<close>). The handlers are coroutines that never wait, so the body of one is one step on the
  tables. Its dependencies (the current user, the administrator, CSRF) are resolved before, in a thread of
  their own, so other requests may come in between: they read the tables \<open>d0\<close> of that earlier moment, the
  handler the tables \<open>d\<close>. \<open>caller\<close> is the subject of the access token a request presents, once the shared verifier
  has accepted it, and None when it has not; \<open>csrf\<close> says whether the double-submitted token matches.
  Startup refuses a configuration that cannot sign, so signing does not fail. Logging is left out; an
  e-mail is part of the answer, and \<open>mail_ok\<close> says whether it can be sent.
\<close>

section \<open>Users\<close>

datatype identity_error = AuthenticationError | NotFoundError | DuplicateEmailError | PasswordResetError | ValueError

record public_user =
  pu_id :: uuid
  pu_name :: string
  pu_email :: string
  pu_role :: role
  pu_status :: account_status
  pu_jurisdiction :: "jurisdiction option"
  pu_must_change :: bool
  pu_created_at :: instant
  pu_last_login_at :: "instant option"

definition to_public_user :: "user \<Rightarrow> public_user" where
  "to_public_user u =
     \<lparr>pu_id = us_id u, pu_name = us_name u, pu_email = us_email u, pu_role = us_role u, pu_status = us_status u,
      pu_jurisdiction = us_jurisdiction u, pu_must_change = us_must_change u, pu_created_at = us_created_at u,
      pu_last_login_at = us_last_login_at u\<rparr>"

record user_create =
  uc_name :: string
  uc_email :: string
  uc_jurisdiction :: jurisdiction

text \<open>\<open>UserCreate(...)\<close>: both fields stripped and checked. None is pydantic's \<open>ValidationError\<close>.\<close>

definition valid_user_create :: "string \<Rightarrow> string \<Rightarrow> jurisdiction \<Rightarrow> user_create option" where
  "valid_user_create name email j =
     (case (validate_name name, validate_email email) of
        (Some n, Some e) \<Rightarrow> Some \<lparr>uc_name = n, uc_email = e, uc_jurisdiction = j\<rparr> | _ \<Rightarrow> None)"

definition new_user :: "fresh \<Rightarrow> instant \<Rightarrow> user_create \<Rightarrow> string \<Rightarrow> role \<Rightarrow> bool \<Rightarrow> user" where
  "new_user fr now p hashed r must_change =
     \<lparr>us_id = fr_id fr, us_name = uc_name p, us_email = uc_email p, us_hash = hashed, us_role = r,
      us_status = Active, us_jurisdiction = Some (uc_jurisdiction p), us_must_change = must_change,
      us_created_at = now, us_last_login_at = None\<rparr>"

definition user_result :: "user option \<times> identity_db \<Rightarrow> (identity_error + public_user) \<times> identity_db" where
  "user_result r = (case r of (None, d) \<Rightarrow> (Inl NotFoundError, d) | (Some u, d) \<Rightarrow> (Inr (to_public_user u), d))"

definition create_admin ::
  "crypto \<Rightarrow> fresh \<Rightarrow> instant \<Rightarrow> string \<Rightarrow> string \<Rightarrow> string \<Rightarrow> jurisdiction \<Rightarrow> identity_db \<Rightarrow>
   (identity_error + public_user) \<times> identity_db" where
  "create_admin cr fr now name email password j d =
     (case valid_user_create name email j of
        None \<Rightarrow> (Inl ValueError, d)
      | Some p \<Rightarrow> (case insert_user (new_user fr now p (cr_hash cr (fr_salt fr) password) Admin False) d of
          (None, d') \<Rightarrow> (Inl DuplicateEmailError, d') | (Some u, d') \<Rightarrow> (Inr (to_public_user u), d')))"

text \<open>The answer carries the temporary password.\<close>

definition create_user_with_temp_password ::
  "crypto \<Rightarrow> fresh \<Rightarrow> instant \<Rightarrow> user_create \<Rightarrow> identity_db \<Rightarrow> (identity_error + public_user \<times> string) \<times> identity_db" where
  "create_user_with_temp_password cr fr now p d =
     (case insert_user (new_user fr now p (cr_hash cr (fr_salt fr) (fr_password fr)) User True) d of
        (None, d') \<Rightarrow> (Inl DuplicateEmailError, d')
      | (Some u, d') \<Rightarrow> (Inr (to_public_user u, fr_password fr), d'))"

definition get_public_user :: "uuid \<Rightarrow> identity_db \<Rightarrow> identity_error + public_user" where
  "get_public_user i d = (case find_user i d of None \<Rightarrow> Inl NotFoundError | Some u \<Rightarrow> Inr (to_public_user u))"

definition active_admin :: "user \<Rightarrow> bool" where
  "active_admin u \<longleftrightarrow> us_role u = Admin \<and> us_status u = Active"

definition would_remove_last_active_admin :: "uuid \<Rightarrow> identity_db \<Rightarrow> identity_error + bool" where
  "would_remove_last_active_admin i d =
     (case find_user i d of
        None \<Rightarrow> Inl NotFoundError
      | Some u \<Rightarrow> Inr (active_admin u \<and> length (filter active_admin (list_users d)) \<le> 1))"

definition rename_user :: "uuid \<Rightarrow> string \<Rightarrow> identity_db \<Rightarrow> (identity_error + public_user) \<times> identity_db" where
  "rename_user i name d = user_result (update_user i (\<lambda>u. u\<lparr>us_name := name\<rparr>) d)"

definition set_jurisdiction :: "uuid \<Rightarrow> jurisdiction \<Rightarrow> identity_db \<Rightarrow> (identity_error + public_user) \<times> identity_db" where
  "set_jurisdiction i j d = user_result (update_user i (\<lambda>u. u\<lparr>us_jurisdiction := Some j\<rparr>) d)"

definition set_status :: "uuid \<Rightarrow> account_status \<Rightarrow> identity_db \<Rightarrow> (identity_error + public_user) \<times> identity_db" where
  "set_status i st d = user_result (update_user i (\<lambda>u. u\<lparr>us_status := st\<rparr>) d)"

definition soft_disable :: "uuid \<Rightarrow> identity_db \<Rightarrow> (identity_error + public_user) \<times> identity_db" where
  "soft_disable i = set_status i Disabled"

section \<open>Tokens\<close>

record auth_tokens =
  tk_access :: string
  tk_refresh :: string
  tk_csrf :: string
  tk_user :: public_user

definition build_access_claims :: "identity_settings \<Rightarrow> fresh \<Rightarrow> instant \<Rightarrow> user \<Rightarrow> access_claims" where
  "build_access_claims st fr now u =
     \<lparr>ac_sub = us_id u, ac_role = us_role u, ac_status = us_status u, ac_must_change = us_must_change u,
      ac_jurisdiction = us_jurisdiction u, ac_iat = now div seconds 1,
      ac_exp = (now + seconds (60 * is_access_minutes st)) div seconds 1, ac_jti = fr_jti fr\<rparr>"

definition issue_access_token :: "crypto \<Rightarrow> identity_settings \<Rightarrow> fresh \<Rightarrow> instant \<Rightarrow> user \<Rightarrow> string" where
  "issue_access_token cr st fr now u = cr_sign cr (build_access_claims st fr now u)"

definition issue_tokens ::
  "crypto \<Rightarrow> identity_settings \<Rightarrow> fresh \<Rightarrow> instant \<Rightarrow> user \<Rightarrow> uuid option \<Rightarrow> uuid option \<Rightarrow> identity_db \<Rightarrow>
   auth_tokens \<times> identity_db" where
  "issue_tokens cr st fr now u family rotated_from d =
     (\<lparr>tk_access = issue_access_token cr st fr now u, tk_refresh = fr_token fr, tk_csrf = fr_csrf fr,
       tk_user = to_public_user u\<rparr>,
      add_session \<lparr>ss_id = fr_id fr, ss_user = us_id u, ss_digest = cr_digest cr (fr_token fr),
        ss_family = (if coalesce family '''' = '''' then fr_family fr else coalesce family ''''),
        ss_expires_at = now + days (is_refresh_days st), ss_revoked = False, ss_rotated_from = rotated_from,
        ss_created_at = now\<rparr> d)"

definition login ::
  "crypto \<Rightarrow> identity_settings \<Rightarrow> fresh \<Rightarrow> instant \<Rightarrow> string \<Rightarrow> string \<Rightarrow> identity_db \<Rightarrow>
   (identity_error + auth_tokens) \<times> identity_db" where
  "login cr st fr now email password d =
     (case find_email email d of
        None \<Rightarrow> (Inl AuthenticationError, d)
      | Some u \<Rightarrow>
          if us_status u \<noteq> Active then (Inl AuthenticationError, d)
          else if \<not> cr_verify cr password (us_hash u) then (Inl AuthenticationError, d)
          else (case update_user (us_id u) (\<lambda>v. v\<lparr>us_last_login_at := Some now\<rparr>) d of
              (None, d1) \<Rightarrow> (Inl AuthenticationError, d1)
            | (Some v, d1) \<Rightarrow> (case issue_tokens cr st fr now v None None d1 of (t, d2) \<Rightarrow> (Inr t, d2))))"

definition refresh_session ::
  "crypto \<Rightarrow> identity_settings \<Rightarrow> fresh \<Rightarrow> instant \<Rightarrow> string \<Rightarrow> identity_db \<Rightarrow>
   (identity_error + auth_tokens) \<times> identity_db" where
  "refresh_session cr st fr now token d0 =
     (let d = cleanup_sessions now d0 in
      case session_by_digest (cr_digest cr token) d of
        None \<Rightarrow> (Inl AuthenticationError, d)
      | Some s \<Rightarrow>
          if ss_revoked s then (Inl AuthenticationError, revoke_family (ss_family s) d)
          else if ss_expires_at s \<le> now then (Inl AuthenticationError, revoke_session (ss_id s) d)
          else (case find_user (ss_user s) d of
              None \<Rightarrow> (Inl AuthenticationError, revoke_family (ss_family s) d)
            | Some u \<Rightarrow>
                if us_status u \<noteq> Active then (Inl AuthenticationError, revoke_family (ss_family s) d)
                else (case issue_tokens cr st fr now u (Some (ss_family s)) (Some (ss_id s)) (revoke_session (ss_id s) d) of
                    (t, d2) \<Rightarrow> (Inr t, d2))))"

definition logout :: "crypto \<Rightarrow> string option \<Rightarrow> identity_db \<Rightarrow> identity_db" where
  "logout cr token d =
     (if coalesce token '''' = '''' then d
      else case session_by_digest (cr_digest cr (coalesce token '''')) d of
          None \<Rightarrow> d | Some s \<Rightarrow> revoke_session (ss_id s) d)"

definition current_session_id :: "crypto \<Rightarrow> string option \<Rightarrow> identity_db \<Rightarrow> uuid option" where
  "current_session_id cr token d =
     (if coalesce token '''' = '''' then None
      else case session_by_digest (cr_digest cr (coalesce token '''')) d of
          None \<Rightarrow> None | Some s \<Rightarrow> if ss_revoked s then None else Some (ss_id s))"

definition change_password ::
  "crypto \<Rightarrow> fresh \<Rightarrow> uuid \<Rightarrow> string \<Rightarrow> string \<Rightarrow> string option \<Rightarrow> identity_db \<Rightarrow> (identity_error + user) \<times> identity_db" where
  "change_password cr fr i current_password new_password token d =
     (case find_user i d of
        None \<Rightarrow> (Inl AuthenticationError, d)
      | Some u \<Rightarrow>
          if us_status u \<noteq> Active then (Inl AuthenticationError, d)
          else if \<not> cr_verify cr current_password (us_hash u) then (Inl AuthenticationError, d)
          else let keep = current_session_id cr token d in
            (case update_user i (\<lambda>v. v\<lparr>us_hash := cr_hash cr (fr_salt fr) new_password, us_must_change := False\<rparr>) d of
               (None, d1) \<Rightarrow> (Inl AuthenticationError, d1)
             | (Some v, d1) \<Rightarrow> (Inr v, revoke_user_sessions i keep d1)))"

section \<open>Account recovery\<close>

definition VALID_RESET_PURPOSES :: "string set" where
  "VALID_RESET_PURPOSES = {''account_setup'', ''password_reset''}"

definition create_reset_token ::
  "crypto \<Rightarrow> identity_settings \<Rightarrow> fresh \<Rightarrow> instant \<Rightarrow> uuid \<Rightarrow> string \<Rightarrow> identity_db \<Rightarrow> string \<times> identity_db" where
  "create_reset_token cr st fr now i what d =
     (fr_token fr,
      add_reset \<lparr>rt_id = fr_id fr, rt_user = i, rt_digest = cr_digest cr (fr_token fr),
        rt_expires_at = now + seconds (60 * is_reset_minutes st), rt_used = False, rt_purpose = what, rt_created_at = now\<rparr>
        (invalidate_user_tokens i (cleanup_resets now d)))"

text \<open>The message that is sent: its address and the token in its link.\<close>

definition request_password_reset ::
  "crypto \<Rightarrow> identity_settings \<Rightarrow> fresh \<Rightarrow> instant \<Rightarrow> bool \<Rightarrow> string \<Rightarrow> identity_db \<Rightarrow>
   (string \<times> string) option \<times> identity_db" where
  "request_password_reset cr st fr now mail_ok email d =
     (case find_email (normalize_email email) d of
        None \<Rightarrow> (None, d)
      | Some u \<Rightarrow>
          if us_status u \<noteq> Active then (None, d)
          else (case create_reset_token cr st fr now (us_id u) ''password_reset'' d of (token, d') \<Rightarrow>
            (if mail_ok then Some (us_email u, token) else None, d')))"

definition send_account_setup_email ::
  "crypto \<Rightarrow> identity_settings \<Rightarrow> fresh \<Rightarrow> instant \<Rightarrow> bool \<Rightarrow> uuid \<Rightarrow> string \<Rightarrow> identity_db \<Rightarrow>
   (string \<times> string) option \<times> identity_db" where
  "send_account_setup_email cr st fr now mail_ok i to_email d =
     (case create_reset_token cr st fr now i ''account_setup'' d of (token, d') \<Rightarrow>
        (if mail_ok then Some (to_email, token) else None, d'))"

definition reset_password ::
  "crypto \<Rightarrow> fresh \<Rightarrow> instant \<Rightarrow> string \<Rightarrow> string \<Rightarrow> identity_db \<Rightarrow> (identity_error + unit) \<times> identity_db" where
  "reset_password cr fr now token new_password d0 =
     (let d = cleanup_resets now d0 in
      case reset_by_digest (cr_digest cr token) d of
        None \<Rightarrow> (Inl PasswordResetError, d)
      | Some r \<Rightarrow>
          if rt_used r then (Inl PasswordResetError, d)
          else if rt_purpose r \<notin> VALID_RESET_PURPOSES then (Inl PasswordResetError, d)
          else if rt_expires_at r \<le> now then (Inl PasswordResetError, snd (mark_used (rt_id r) d))
          else (case find_user (rt_user r) d of
              None \<Rightarrow> (Inl PasswordResetError, snd (mark_used (rt_id r) d))
            | Some u \<Rightarrow>
                if us_status u \<noteq> Active then (Inl PasswordResetError, snd (mark_used (rt_id r) d))
                else (case update_user (rt_user r)
                      (\<lambda>v. v\<lparr>us_hash := cr_hash cr (fr_salt fr) new_password, us_must_change := False\<rparr>) d of
                    (None, d1) \<Rightarrow> (Inl PasswordResetError, snd (mark_used (rt_id r) d1))
                  | (Some _, d1) \<Rightarrow>
                      (case mark_used (rt_id r) d1 of
                         (None, d2) \<Rightarrow> (Inl PasswordResetError, d2)
                       | (Some _, d2) \<Rightarrow>
                           (Inr (), revoke_user_sessions (rt_user r) None (invalidate_user_tokens (rt_user r) d2))))))"

definition revoke_all_for_user :: "uuid \<Rightarrow> identity_db \<Rightarrow> identity_db" where
  "revoke_all_for_user i = revoke_user_sessions i None"

section \<open>Authorization\<close>

definition get_current_user :: "uuid option \<Rightarrow> identity_db \<Rightarrow> http_error + user" where
  "get_current_user caller d =
     (case caller of
        None \<Rightarrow> Inl (HttpError 401 ''Not authenticated'')
      | Some i \<Rightarrow> (case find_user i d of
          None \<Rightarrow> Inl (HttpError 401 ''Not authenticated'')
        | Some u \<Rightarrow> if us_status u \<noteq> Active then Inl (HttpError 401 ''Not authenticated'') else Inr u))"

definition require_password_current :: "user \<Rightarrow> http_error + user" where
  "require_password_current u = (if us_must_change u then Inl (HttpError 403 ''Password change required'') else Inr u)"

definition require_admin_role :: "user \<Rightarrow> http_error + user" where
  "require_admin_role u = (if us_role u \<noteq> Admin then Inl (HttpError 403 ''Admin role required'') else Inr u)"

definition require_self_or_admin :: "user \<Rightarrow> uuid \<Rightarrow> http_error + unit" where
  "require_self_or_admin u i =
     (if us_role u = Admin then Inr () else if us_id u = i then Inr () else Inl (HttpError 403 ''Forbidden''))"

definition require_csrf :: "bool \<Rightarrow> http_error + unit" where
  "require_csrf csrf = (if csrf then Inr () else Inl (HttpError 403 ''CSRF token missing or invalid''))"

definition andAlso :: "'e + 'a \<Rightarrow> ('a \<Rightarrow> 'e + 'b) \<Rightarrow> 'e + 'b" where
  "andAlso r k = (case r of Inl e \<Rightarrow> Inl e | Inr v \<Rightarrow> k v)"

definition password_current_user :: "uuid option \<Rightarrow> identity_db \<Rightarrow> http_error + user" where
  "password_current_user caller d = andAlso (get_current_user caller d) require_password_current"

definition admin_user :: "uuid option \<Rightarrow> identity_db \<Rightarrow> http_error + user" where
  "admin_user caller d = andAlso (password_current_user caller d) require_admin_role"

text \<open>A dependency is resolved first: when it fails, the handler does not run.\<close>

definition with_guard :: "http_error + 'g \<Rightarrow> ('g \<Rightarrow> identity_db \<Rightarrow> (http_error + 'a) \<times> identity_db) \<Rightarrow> identity_db \<Rightarrow>
   (http_error + 'a) \<times> identity_db" where
  "with_guard g handler d = (case g of Inl e \<Rightarrow> (Inl e, d) | Inr v \<Rightarrow> handler v d)"

definition prevent_admin_lockout :: "uuid \<Rightarrow> user \<Rightarrow> identity_db \<Rightarrow> http_error + unit" where
  "prevent_admin_lockout i admin d =
     (if i = us_id admin then Inl (HttpError 400 ''Admins cannot suspend or disable their own account'')
      else case would_remove_last_active_admin i d of
          Inl _ \<Rightarrow> Inl (HttpError 404 ''User not found'')
        | Inr True \<Rightarrow> Inl (HttpError 400 ''At least one active admin is required'')
        | Inr False \<Rightarrow> Inr ())"

section \<open>The HTTP handlers\<close>

definition on_error :: "http_error \<Rightarrow> (identity_error + 'a) \<times> identity_db \<Rightarrow> (http_error + 'a) \<times> identity_db" where
  "on_error e r = (case r of (Inl _, d) \<Rightarrow> (Inl e, d) | (Inr v, d) \<Rightarrow> (Inr v, d))"

definition auth_error :: http_error where
  "auth_error = HttpError 401 ''Invalid email or password''"

definition not_found :: http_error where
  "not_found = HttpError 404 ''User not found''"

definition http_login where
  "http_login cr st fr now email password d = on_error auth_error (login cr st fr now email password d)"

definition http_refresh where
  "http_refresh cr st fr now csrf cookie d =
     with_guard (require_csrf csrf) (\<lambda>_ d.
       if coalesce cookie '''' = '''' then (Inl (HttpError 401 ''Not authenticated''), d)
       else on_error (HttpError 401 ''Not authenticated'') (refresh_session cr st fr now (coalesce cookie '''') d)) d"

definition http_logout where
  "http_logout cr caller csrf cookie d0 d =
     with_guard (andAlso (get_current_user caller d0) (\<lambda>_. require_csrf csrf)) (\<lambda>_ d. (Inr (), logout cr cookie d)) d"

definition http_me where
  "http_me caller d0 d = with_guard (get_current_user caller d0) (\<lambda>u d. (Inr (to_public_user u), d)) d"

text \<open>The answer carries the new access token.\<close>

definition http_change_password where
  "http_change_password cr st fr now caller csrf cookie current_password new_password d0 d =
     with_guard (andAlso (get_current_user caller d0) (\<lambda>u. andAlso (require_csrf csrf) (\<lambda>_. Inr u))) (\<lambda>u d.
       on_error auth_error
         (case change_password cr fr (us_id u) current_password new_password cookie d of
            (Inl e, d') \<Rightarrow> (Inl e, d')
          | (Inr v, d') \<Rightarrow> (Inr (issue_access_token cr st fr now v, to_public_user v), d'))) d"

definition http_forgot_password where
  "http_forgot_password cr st fr now mail_ok email d =
     (case request_password_reset cr st fr now mail_ok email d of (mail, d') \<Rightarrow> ((Inr () :: http_error + unit, mail), d'))"

definition http_reset_password where
  "http_reset_password cr fr now token new_password d =
     on_error (HttpError 400 ''Invalid or expired reset token'') (reset_password cr fr now token new_password d)"

text \<open>The answer carries the temporary password and whether the setup e-mail was sent.\<close>

definition http_create_user where
  "http_create_user cr st fr fr' now mail_ok caller csrf p d0 d =
     with_guard (andAlso (admin_user caller d0) (\<lambda>_. require_csrf csrf)) (\<lambda>_ d.
       (case create_user_with_temp_password cr fr now p d of
          (Inl _, d') \<Rightarrow> (Inl (HttpError 409 ''Email is already registered''), d')
        | (Inr (u, password), d') \<Rightarrow>
            (case send_account_setup_email cr st fr' now mail_ok (pu_id u) (pu_email u) d' of
               (mail, d'') \<Rightarrow> (Inr (u, password, mail), d'')))) d"

definition http_list_users where
  "http_list_users caller d0 d = with_guard (admin_user caller d0) (\<lambda>_ d. (Inr (map to_public_user (list_users d)), d)) d"

definition http_get_user where
  "http_get_user caller i d0 d =
     with_guard (andAlso (password_current_user caller d0) (\<lambda>u. require_self_or_admin u i)) (\<lambda>_ d.
       on_error not_found (get_public_user i d, d)) d"

definition http_update_user where
  "http_update_user caller csrf i name d0 d =
     with_guard (andAlso (password_current_user caller d0) (\<lambda>u. andAlso (require_csrf csrf) (\<lambda>_. require_self_or_admin u i)))
       (\<lambda>_ d. on_error not_found (rename_user i name d)) d"

text \<open>\<open>prevent_admin_lockout\<close>, the change of the status, and the revocation of the sessions.\<close>

definition change_status where
  "change_status admin i st d =
     (if st \<in> {Suspended, Disabled}
      then with_guard (prevent_admin_lockout i admin d) (\<lambda>_ d.
        (case on_error not_found (set_status i st d) of
           (Inl e, d') \<Rightarrow> (Inl e, d') | (Inr u, d') \<Rightarrow> (Inr u, revoke_all_for_user i d'))) d
      else on_error not_found (set_status i st d))"

definition http_update_status where
  "http_update_status caller csrf i st d0 d =
     with_guard (andAlso (admin_user caller d0) (\<lambda>u. andAlso (require_csrf csrf) (\<lambda>_. Inr u)))
       (\<lambda>admin d. change_status admin i st d) d"

definition http_update_jurisdiction where
  "http_update_jurisdiction caller csrf i j d0 d =
     with_guard (andAlso (admin_user caller d0) (\<lambda>_. require_csrf csrf)) (\<lambda>_ d.
       on_error not_found (set_jurisdiction i j d)) d"

definition http_revoke_sessions where
  "http_revoke_sessions caller csrf i d0 d =
     with_guard (andAlso (admin_user caller d0) (\<lambda>_. require_csrf csrf)) (\<lambda>_ d.
       (if find_user i d = None then (Inl not_found, d) else (Inr (), revoke_all_for_user i d))) d"

definition http_delete_user where
  "http_delete_user caller csrf i d0 d =
     with_guard (andAlso (admin_user caller d0) (\<lambda>u. andAlso (require_csrf csrf) (\<lambda>_. Inr u)))
       (\<lambda>admin d. change_status admin i Disabled d) d"

end
