(* ===== verification/IdentitySystem.thy ===== *)
theory IdentitySystem
  imports IdentityService
begin

text \<open>
  The identity service as a state machine: what its tables always satisfy, the requests as steps, and
  the properties of sessions, recovery tokens and administrators.
\<close>

section \<open>Invariant\<close>

definition users_ok :: "identity_db \<Rightarrow> bool" where
  "users_ok d \<longleftrightarrow> distinct (map us_id (users d)) \<and> distinct (map us_email (users d))"

definition live :: "login_session \<Rightarrow> identity_db \<Rightarrow> bool" where
  "live s d \<longleftrightarrow> s \<in> set (sessions d) \<and> \<not> ss_revoked s"

definition is_active :: "uuid \<Rightarrow> identity_db \<Rightarrow> bool" where
  "is_active i d \<longleftrightarrow> (\<exists>u\<in>set (users d). us_id u = i \<and> us_status u = Active)"

text \<open>
  A family has one live session at most and belongs to one user; a live session belongs to an active
  user; a user has one recovery token at most that can still be used.
\<close>

definition one_live :: "identity_db \<Rightarrow> bool" where
  "one_live d \<longleftrightarrow> (\<forall>s t. live s d \<longrightarrow> live t d \<longrightarrow> ss_family s = ss_family t \<longrightarrow> s = t)"

definition named_families :: "identity_db \<Rightarrow> bool" where
  "named_families d \<longleftrightarrow> (\<forall>s\<in>set (sessions d). ss_family s \<noteq> '''')"

definition families_ok :: "identity_db \<Rightarrow> bool" where
  "families_ok d \<longleftrightarrow> (\<forall>s\<in>set (sessions d). \<forall>t\<in>set (sessions d). ss_family s = ss_family t \<longrightarrow> ss_user s = ss_user t)"

definition live_active :: "identity_db \<Rightarrow> bool" where
  "live_active d \<longleftrightarrow> (\<forall>s. live s d \<longrightarrow> is_active (ss_user s) d)"

definition sessions_ok :: "identity_db \<Rightarrow> bool" where
  "sessions_ok d \<longleftrightarrow> distinct (map ss_id (sessions d)) \<and> distinct (map ss_digest (sessions d)) \<and>
     one_live d \<and> named_families d \<and> families_ok d \<and> live_active d"

definition open_reset :: "reset \<Rightarrow> identity_db \<Rightarrow> bool" where
  "open_reset r d \<longleftrightarrow> r \<in> set (resets d) \<and> \<not> rt_used r"

definition one_open :: "identity_db \<Rightarrow> bool" where
  "one_open d \<longleftrightarrow> (\<forall>r q. open_reset r d \<longrightarrow> open_reset q d \<longrightarrow> rt_user r = rt_user q \<longrightarrow> r = q)"

definition resets_ok :: "identity_db \<Rightarrow> bool" where
  "resets_ok d \<longleftrightarrow> distinct (map rt_id (resets d)) \<and> distinct (map rt_digest (resets d)) \<and> one_open d"

definition identity_ok :: "identity_db \<Rightarrow> bool" where
  "identity_ok d \<longleftrightarrow> users_ok d \<and> sessions_ok d \<and> resets_ok d"

section \<open>What a request draws\<close>

definition fresh_for :: "crypto \<Rightarrow> fresh \<Rightarrow> identity_db \<Rightarrow> bool" where
  "fresh_for cr fr d \<longleftrightarrow> fr_id fr \<notin> us_id ` set (users d) \<and> fr_id fr \<notin> ss_id ` set (sessions d) \<and>
     fr_id fr \<notin> rt_id ` set (resets d) \<and> fr_family fr \<notin> ss_family ` set (sessions d) \<and> fr_family fr \<noteq> '''' \<and>
     cr_digest cr (fr_token fr) \<notin> ss_digest ` set (sessions d) \<and>
     cr_digest cr (fr_token fr) \<notin> rt_digest ` set (resets d)"

section \<open>The tables an operation leaves alone\<close>

lemma tables_simps [simp]:
  "users (add_session s d) = users d" "resets (add_session s d) = resets d"
  "users (revoke P d) = users d" "resets (revoke P d) = resets d"
  "users (add_reset r d) = users d" "sessions (add_reset r d) = sessions d"
  "users (use_resets Q d) = users d" "sessions (use_resets Q d) = sessions d"
  by (simp_all add: add_session_def revoke_def add_reset_def use_resets_def)

lemma live_simps [simp]:
  "live s (add_reset r d) = live s d" "live s (use_resets Q d) = live s d"
  "live s (revoke P d) \<longleftrightarrow> live s d \<and> \<not> P s"
  "live s (add_session x d) \<longleftrightarrow> live s d \<or> s = x \<and> \<not> ss_revoked x"
  "live s (d\<lparr>users := us\<rparr>) = live s d"
  using sess.live_burn [of s P d] sess.live_add [of s x d] by (auto simp: live_def)

lemma open_reset_simps [simp]:
  "open_reset r (add_session s d) = open_reset r d" "open_reset r (revoke P d) = open_reset r d"
  "open_reset r (use_resets Q d) \<longleftrightarrow> open_reset r d \<and> \<not> Q r"
  "open_reset r (add_reset x d) \<longleftrightarrow> open_reset r d \<or> r = x \<and> \<not> rt_used x"
  "open_reset r (d\<lparr>users := us\<rparr>) = open_reset r d"
  using rst.live_burn [of r Q d] rst.live_add [of r x d] by (auto simp: open_reset_def)

lemma is_active_simps [simp]:
  "is_active i (add_session s d) = is_active i d" "is_active i (revoke P d) = is_active i d"
  "is_active i (add_reset r d) = is_active i d" "is_active i (use_resets Q d) = is_active i d"
  by (simp_all add: is_active_def)

section \<open>Every change of the tables keeps the invariant\<close>

named_theorems ok_rules

lemma sessions_ok_same:
  "sessions d' = sessions d \<Longrightarrow> users d' = users d \<Longrightarrow> sessions_ok d' = sessions_ok d"
  by (simp only: sessions_ok_def one_live_def named_families_def families_ok_def live_active_def live_def is_active_def)

lemma resets_ok_same: "resets d' = resets d \<Longrightarrow> resets_ok d' = resets_ok d"
  by (simp only: resets_ok_def one_open_def open_reset_def)

lemma revoke_row: "t \<in> set (sessions (revoke P d)) \<longleftrightarrow>
    (\<exists>s\<in>set (sessions d). t = (if P s then s\<lparr>ss_revoked := True\<rparr> else s))"
  by (auto simp: revoke_def)

lemma revoked_row: "t \<in> set (sessions (revoke P d)) \<Longrightarrow>
    \<exists>s\<in>set (sessions d). ss_family t = ss_family s \<and> ss_user t = ss_user s"
  by (auto simp: revoke_row)

lemma ok_revoke [ok_rules]:
  assumes "identity_ok d"
  shows "identity_ok (revoke P d)"
proof -
  have ok: "sessions_ok d" using assms by (simp add: identity_ok_def)
  have ids: "map ss_id (sessions (revoke P d)) = map ss_id (sessions d)" by (simp add: revoke_def)
  have "one_live (revoke P d)" using ok unfolding sessions_ok_def one_live_def live_simps by blast
  moreover have "live_active (revoke P d)" using ok by (simp add: sessions_ok_def live_active_def)
  moreover have "named_families (revoke P d)"
    using ok by (auto simp: sessions_ok_def named_families_def revoke_def)
  moreover have "families_ok (revoke P d)"
    unfolding families_ok_def
  proof (intro ballI impI)
    fix s t assume "s \<in> set (sessions (revoke P d))" "t \<in> set (sessions (revoke P d))" "ss_family s = ss_family t"
    then obtain s' t' where "s' \<in> set (sessions d)" "ss_family s = ss_family s'" "ss_user s = ss_user s'"
      and "t' \<in> set (sessions d)" "ss_family t = ss_family t'" "ss_user t = ss_user t'"
      using revoked_row by metis
    with ok \<open>ss_family s = ss_family t\<close> show "ss_user s = ss_user t"
      unfolding sessions_ok_def families_ok_def by metis
  qed
  ultimately have "sessions_ok (revoke P d)"
    using ok unfolding sessions_ok_def ids sess.keys_burn by blast
  with assms show ?thesis using resets_ok_same [of "revoke P d" d] by (simp add: identity_ok_def users_ok_def)
qed

lemma ok_use_resets [ok_rules]:
  assumes "identity_ok d"
  shows "identity_ok (use_resets Q d)"
proof -
  have ok: "resets_ok d" using assms by (simp add: identity_ok_def)
  have ids: "map rt_id (resets (use_resets Q d)) = map rt_id (resets d)" by (simp add: use_resets_def)
  have "one_open (use_resets Q d)" using ok unfolding resets_ok_def one_open_def open_reset_simps by blast
  then have "resets_ok (use_resets Q d)" using ok unfolding resets_ok_def ids rst.keys_burn by blast
  with assms show ?thesis using sessions_ok_same [of "use_resets Q d" d] by (simp add: identity_ok_def users_ok_def)
qed

lemma ok_add_session:
  assumes "identity_ok d" and "ss_id s \<notin> ss_id ` set (sessions d)" and "ss_digest s \<notin> ss_digest ` set (sessions d)"
    and "ss_family s \<noteq> ''''" and "is_active (ss_user s) d"
    and fam: "\<And>t. t \<in> set (sessions d) \<Longrightarrow> ss_family t = ss_family s \<Longrightarrow> ss_revoked t \<and> ss_user t = ss_user s"
  shows "identity_ok (add_session s d)"
proof -
  have ok: "sessions_ok d" using assms(1) by (simp add: identity_ok_def)
  have rows: "set (sessions (add_session s d)) = insert s (set (sessions d))" by (simp add: add_session_def)
  have "distinct (map ss_id (sessions (add_session s d)))" "distinct (map ss_digest (sessions (add_session s d)))"
    using ok assms(2,3) by (auto simp: sessions_ok_def add_session_def)
  moreover have "one_live (add_session s d)"
    unfolding one_live_def
  proof (intro allI impI)
    fix u v assume uv: "live u (add_session s d)" "live v (add_session s d)" "ss_family u = ss_family v"
    have no: "ss_family x \<noteq> ss_family s" if "live x d" for x using fam [of x] that by (auto simp: live_def)
    show "u = v"
    proof (cases "live u d")
      case True
      with no [OF True] uv(2,3) have "live v d" by auto
      with True uv(3) ok show ?thesis unfolding sessions_ok_def one_live_def by blast
    next
      case False
      with uv(1) have "u = s" by simp
      with no [of v] uv(2,3) show ?thesis by (cases "live v d") simp_all
    qed
  qed
  moreover have "named_families (add_session s d)"
    using ok assms(4) by (simp add: sessions_ok_def named_families_def rows)
  moreover have "families_ok (add_session s d)"
    unfolding families_ok_def
  proof (intro ballI impI)
    fix u v assume uv: "u \<in> set (sessions (add_session s d))" "v \<in> set (sessions (add_session s d))" "ss_family u = ss_family v"
    consider "u = s" | "v = s" | "u \<in> set (sessions d)" "v \<in> set (sessions d)" using uv(1,2) rows by blast
    then show "ss_user u = ss_user v"
    proof cases
      case 1 then show ?thesis using uv(2,3) fam [of v] rows by (cases "v = s") simp_all
    next
      case 2 then show ?thesis using uv(1,3) fam [of u] rows by (cases "u = s") simp_all
    next
      case 3 then show ?thesis using uv(3) ok unfolding sessions_ok_def families_ok_def by blast
    qed
  qed
  moreover have "live_active (add_session s d)"
    using ok assms(5) by (auto simp: sessions_ok_def live_active_def)
  ultimately have "sessions_ok (add_session s d)" unfolding sessions_ok_def by blast
  with assms(1) show ?thesis using resets_ok_same [of "add_session s d" d] by (simp add: identity_ok_def users_ok_def)
qed

lemma ok_add_reset:
  assumes "identity_ok d" and "rt_id r \<notin> rt_id ` set (resets d)" and "rt_digest r \<notin> rt_digest ` set (resets d)"
    and no: "\<And>q. open_reset q d \<Longrightarrow> rt_user q \<noteq> rt_user r"
  shows "identity_ok (add_reset r d)"
proof -
  have ok: "resets_ok d" using assms(1) by (simp add: identity_ok_def)
  have "distinct (map rt_id (resets (add_reset r d)))" "distinct (map rt_digest (resets (add_reset r d)))"
    using ok assms(2,3) by (auto simp: resets_ok_def add_reset_def)
  moreover have "one_open (add_reset r d)"
    unfolding one_open_def
  proof (intro allI impI)
    fix p q assume pq: "open_reset p (add_reset r d)" "open_reset q (add_reset r d)" "rt_user p = rt_user q"
    show "p = q"
    proof (cases "open_reset p d")
      case True
      with no [OF True] pq(2,3) have "open_reset q d" by auto
      with True pq(3) ok show ?thesis unfolding resets_ok_def one_open_def by blast
    next
      case False
      with pq(1) have "p = r" by simp
      with no [of q] pq(2,3) show ?thesis by (cases "open_reset q d") simp_all
    qed
  qed
  ultimately have "resets_ok (add_reset r d)" unfolding resets_ok_def by blast
  with assms(1) show ?thesis
    using sessions_ok_same [of "add_reset r d" d] by (simp add: identity_ok_def users_ok_def)
qed

section \<open>Users\<close>

lemma find_user_Some: "find_user i d = Some u \<Longrightarrow> u \<in> set (users d) \<and> us_id u = i"
  by (auto simp: find_user_def find_Some_iff)

lemma find_email_None: "find_email e d = None \<Longrightarrow> normalize_email e \<notin> us_email ` set (users d)"
  by (auto simp: find_email_def find_None_iff)

lemma find_active: "find_user i d = Some u \<Longrightarrow> us_status u = Active \<Longrightarrow> is_active i d"
  using find_user_Some [of i d u] by (auto simp: is_active_def)

lemma sessions_users: "sessions (d\<lparr>users := us\<rparr>) = sessions d"
  by simp

lemma users_simps [simp]:
  "one_live (d\<lparr>users := us\<rparr>) = one_live d" "named_families (d\<lparr>users := us\<rparr>) = named_families d"
  "families_ok (d\<lparr>users := us\<rparr>) = families_ok d"
  by (simp_all only: one_live_def named_families_def families_ok_def live_simps sessions_users)

lemma ok_users:
  assumes "identity_ok d" and "distinct (map us_id us)" and "distinct (map us_email us)"
    and "\<And>s. live s d \<Longrightarrow> is_active (ss_user s) (d\<lparr>users := us\<rparr>)"
  shows "identity_ok (d\<lparr>users := us\<rparr>)"
proof -
  have ok: "sessions_ok d" using assms(1) by (simp add: identity_ok_def)
  have "live_active (d\<lparr>users := us\<rparr>)" using assms(4) by (simp add: live_active_def)
  then have "sessions_ok (d\<lparr>users := us\<rparr>)" using ok by (simp add: sessions_ok_def)
  moreover have "resets_ok (d\<lparr>users := us\<rparr>)" using assms(1) resets_ok_same [of "d\<lparr>users := us\<rparr>" d]
    by (simp add: identity_ok_def)
  ultimately show ?thesis using assms(2,3) by (simp add: identity_ok_def users_ok_def)
qed

definition change_user :: "uuid \<Rightarrow> (user \<Rightarrow> user) \<Rightarrow> user list \<Rightarrow> user list" where
  "change_user i c us = map (\<lambda>u. if us_id u = i then c u else u) us"

lemma update_user_db: "update_user i c d = (r, d') \<Longrightarrow> d' = d\<lparr>users := change_user i c (users d)\<rparr>"
  by (auto simp: update_user_def change_user_def Let_def split: if_splits)

definition keeps_keys :: "(user \<Rightarrow> user) \<Rightarrow> bool" where
  "keeps_keys c \<longleftrightarrow> (\<forall>u. us_id (c u) = us_id u \<and> us_email (c u) = us_email u)"

definition keeps_status :: "(user \<Rightarrow> user) \<Rightarrow> bool" where
  "keeps_status c \<longleftrightarrow> (\<forall>u. us_status (c u) = us_status u \<and> us_role (c u) = us_role u)"

lemma change_keys:
  assumes "keeps_keys c"
  shows "map us_id (change_user i c us) = map us_id us" "map us_email (change_user i c us) = map us_email us"
  using assms by (simp_all add: change_user_def keeps_keys_def)

lemma change_member: "u \<in> set us \<Longrightarrow> (if us_id u = i then c u else u) \<in> set (change_user i c us)"
  by (simp add: change_user_def)

lemma change_active:
  assumes "keeps_keys c" and "is_active j d" and "keeps_status c \<or> j \<noteq> i"
  shows "is_active j (d\<lparr>users := change_user i c (users d)\<rparr>)"
proof -
  obtain u where u: "u \<in> set (users d)" "us_id u = j" "us_status u = Active"
    using assms(2) by (auto simp: is_active_def)
  let ?v = "if us_id u = i then c u else u"
  have "us_id ?v = j" "us_status ?v = Active"
    using u assms(1,3) by (auto simp: keeps_keys_def keeps_status_def)
  with change_member [OF u(1), of i c] show ?thesis unfolding is_active_def by force
qed

lemma live_is_active: "identity_ok d \<Longrightarrow> live s d \<Longrightarrow> is_active (ss_user s) d"
  by (simp add: identity_ok_def sessions_ok_def live_active_def)

lemma ok_change_user:
  assumes "identity_ok d" and "keeps_keys c" and "keeps_status c \<or> (\<forall>s. live s d \<longrightarrow> ss_user s \<noteq> i)"
    and "update_user i c d = (r, d')"
  shows "identity_ok d'"
proof -
  have "is_active (ss_user s) (d\<lparr>users := change_user i c (users d)\<rparr>)" if "live s d" for s
    using change_active [OF assms(2) live_is_active [OF assms(1) that], of i] assms(3) that by blast
  then show ?thesis
    using ok_users [OF assms(1), of "change_user i c (users d)"] assms(1) update_user_db [OF assms(4)]
    by (simp add: change_keys [OF assms(2)] identity_ok_def users_ok_def)
qed

lemma ok_insert_user:
  assumes "identity_ok d" and "us_id u \<notin> us_id ` set (users d)" and "insert_user u d = (r, d')"
  shows "identity_ok d'"
proof (cases "find_email (us_email u) d")
  case None
  then have d': "d' = d\<lparr>users := users d @ [u\<lparr>us_email := normalize_email (us_email u)\<rparr>]\<rparr>"
    using assms(3) by (simp add: insert_user_def Let_def)
  have "identity_ok (d\<lparr>users := users d @ [u\<lparr>us_email := normalize_email (us_email u)\<rparr>]\<rparr>)"
  proof (rule ok_users [OF assms(1)])
    fix s assume "live s d"
    from live_is_active [OF assms(1) this]
    show "is_active (ss_user s) (d\<lparr>users := users d @ [u\<lparr>us_email := normalize_email (us_email u)\<rparr>]\<rparr>)"
      by (auto simp: is_active_def)
  qed (use assms(1,2) find_email_None [OF None] in \<open>auto simp: identity_ok_def users_ok_def\<close>)
  with d' show ?thesis by simp
next
  case Some then show ?thesis using assms(1,3) by (simp add: insert_user_def)
qed

section \<open>Every operation keeps the invariant\<close>

lemma ok_cleanup [ok_rules]:
  "identity_ok d \<Longrightarrow> identity_ok (cleanup_sessions now d)" "identity_ok d \<Longrightarrow> identity_ok (cleanup_resets now d)"
  "identity_ok d \<Longrightarrow> identity_ok (revoke_session i d)" "identity_ok d \<Longrightarrow> identity_ok (revoke_family f d)"
  "identity_ok d \<Longrightarrow> identity_ok (revoke_user_sessions i keep d)" "identity_ok d \<Longrightarrow> identity_ok (invalidate_user_tokens i d)"
  "identity_ok d \<Longrightarrow> identity_ok (snd (mark_used i d))" "identity_ok d \<Longrightarrow> identity_ok (revoke_all_for_user i d)"
  by (simp_all add: cleanup_sessions_def cleanup_resets_def revoke_session_def revoke_family_def revoke_user_sessions_def
      invalidate_user_tokens_def mark_used_def Let_def revoke_all_for_user_def ok_revoke ok_use_resets)

lemma mark_used_db: "mark_used i d = (r, d') \<Longrightarrow> d' = use_resets (\<lambda>r. rt_id r = i) d"
  by (simp add: mark_used_def Let_def)

lemma harmless_changes [simp]:
  "keeps_keys (\<lambda>v. v\<lparr>us_last_login_at := t\<rparr>)" "keeps_status (\<lambda>v. v\<lparr>us_last_login_at := t\<rparr>)"
  "keeps_keys (\<lambda>v. v\<lparr>us_hash := h, us_must_change := b\<rparr>)" "keeps_status (\<lambda>v. v\<lparr>us_hash := h, us_must_change := b\<rparr>)"
  "keeps_keys (\<lambda>v. v\<lparr>us_name := n\<rparr>)" "keeps_status (\<lambda>v. v\<lparr>us_name := n\<rparr>)"
  "keeps_keys (\<lambda>v. v\<lparr>us_jurisdiction := j\<rparr>)" "keeps_status (\<lambda>v. v\<lparr>us_jurisdiction := j\<rparr>)"
  "keeps_keys (\<lambda>v. v\<lparr>us_status := st\<rparr>)"
  by (simp_all add: keeps_keys_def keeps_status_def)

lemma ok_update:
  "identity_ok d \<Longrightarrow> update_user i c d = (r, d') \<Longrightarrow> keeps_keys c \<Longrightarrow> keeps_status c \<Longrightarrow> identity_ok d'"
  using ok_change_user [of d c i r d'] by blast

lemma find_session: "session_by_digest h d = Some s \<Longrightarrow> s \<in> set (sessions d) \<and> ss_digest s = h"
  by (auto simp: session_by_digest_def find_Some_iff)

lemma find_reset: "reset_by_digest h d = Some r \<Longrightarrow> r \<in> set (resets d) \<and> rt_digest r = h"
  by (auto simp: reset_by_digest_def find_Some_iff)

lemma issue_tokens_db:
  "issue_tokens cr st fr now u f g d = (t, d') \<Longrightarrow>
   d' = add_session \<lparr>ss_id = fr_id fr, ss_user = us_id u, ss_digest = cr_digest cr (fr_token fr),
        ss_family = (if coalesce f '''' = '''' then fr_family fr else coalesce f ''''),
        ss_expires_at = now + days (is_refresh_days st), ss_revoked = False, ss_rotated_from = g, ss_created_at = now\<rparr> d"
  by (simp add: issue_tokens_def)

lemma keys_revoke:
  "map ss_id (sessions (revoke P d)) = map ss_id (sessions d)"
  "map ss_digest (sessions (revoke P d)) = map ss_digest (sessions d)"
  "map ss_family (sessions (revoke P d)) = map ss_family (sessions d)"
  by (simp_all add: revoke_def)

lemma keys_use_resets:
  "map rt_id (resets (use_resets Q d)) = map rt_id (resets d)"
  "map rt_digest (resets (use_resets Q d)) = map rt_digest (resets d)"
  by (simp_all add: use_resets_def)

lemma fresh_burnt [simp]:
  "fresh_for cr fr (revoke P d) = fresh_for cr fr d" "fresh_for cr fr (use_resets Q d) = fresh_for cr fr d"
proof -
  have s: "ss_id ` set (sessions (revoke P d)) = ss_id ` set (sessions d)"
    "ss_family ` set (sessions (revoke P d)) = ss_family ` set (sessions d)"
    "ss_digest ` set (sessions (revoke P d)) = ss_digest ` set (sessions d)"
    by (metis (no_types) set_map keys_revoke)+
  have r: "rt_id ` set (resets (use_resets Q d)) = rt_id ` set (resets d)"
    "rt_digest ` set (resets (use_resets Q d)) = rt_digest ` set (resets d)"
    by (metis (no_types) set_map keys_use_resets)+
  show "fresh_for cr fr (revoke P d) = fresh_for cr fr d" "fresh_for cr fr (use_resets Q d) = fresh_for cr fr d"
    by (simp_all add: fresh_for_def s r)
qed

lemma fresh_changed [simp]:
  "keeps_keys c \<Longrightarrow> fresh_for cr fr (d\<lparr>users := change_user i c (users d)\<rparr>) = fresh_for cr fr d"
  using arg_cong [OF change_keys(1) [of c i "users d"], of set] by (simp add: fresh_for_def)

lemma ok_login:
  assumes ok: "identity_ok d" and fr: "fresh_for cr fr d" and eq: "login cr st fr now e p d = (r, d')"
  shows "identity_ok d'"
proof -
  { fix u v d1 k
    assume u: "find_email e d = Some u" "us_status u = Active"
      and upd: "update_user (us_id u) (\<lambda>v. v\<lparr>us_last_login_at := Some now\<rparr>) d = (Some v, d1)"
      and t: "issue_tokens cr st fr now v None None d1 = (k, d')"
    have d1: "d1 = d\<lparr>users := change_user (us_id u) (\<lambda>v. v\<lparr>us_last_login_at := Some now\<rparr>) (users d)\<rparr>"
      by (rule update_user_db [OF upd])
    have "us_id v = us_id u"
      using upd find_user_Some [of "us_id u" d1 v] by (auto simp: update_user_def Let_def split: if_splits)
    moreover have "is_active (us_id u) d1"
      unfolding d1 using u by (intro change_active) (auto simp: is_active_def find_email_def find_Some_iff)
    moreover have "fresh_for cr fr d1" "identity_ok d1" using fr d1 ok_update [OF ok upd] by simp_all
    ultimately have "identity_ok d'"
      unfolding issue_tokens_db [OF t]
      by (intro ok_add_session) (auto simp: fresh_for_def image_iff) }
  with eq ok show ?thesis
    by (auto simp: login_def split: option.splits if_splits prod.splits dest: ok_update)
qed


lemma find_cleanup:
  "session_by_digest h (cleanup_sessions now d) = Some s \<Longrightarrow> \<not> ss_revoked s \<Longrightarrow> live s d \<and> \<not> ss_expires_at s \<le> now"
  using find_session [of h "cleanup_sessions now d" s] live_simps(3) [of s "\<lambda>s. \<not> ss_revoked s \<and> ss_expires_at s \<le> now" d]
  by (auto simp: cleanup_sessions_def live_def)

lemma family_of_live:
  assumes ok: "identity_ok d" and s: "live s d" and t: "t \<in> set (sessions (revoke_session (ss_id s) d))"
    and f: "ss_family t = ss_family s"
  shows "ss_revoked t \<and> ss_user t = ss_user s"
proof
  show "ss_user t = ss_user s"
  proof -
    obtain t' where t': "t' \<in> set (sessions d)" "ss_family t = ss_family t'" "ss_user t = ss_user t'"
      using revoked_row t unfolding revoke_session_def by blast
    moreover have "families_ok d" "s \<in> set (sessions d)" using ok s by (simp_all add: identity_ok_def sessions_ok_def live_def)
    ultimately show ?thesis using f unfolding families_ok_def by metis
  qed
  show "ss_revoked t"
  proof (rule ccontr)
    assume "\<not> ss_revoked t"
    with t have "live t (revoke_session (ss_id s) d)" by (simp add: live_def)
    then have "live t d" "ss_id t \<noteq> ss_id s" by (simp_all add: revoke_session_def)
    with ok s f show False unfolding identity_ok_def sessions_ok_def one_live_def by blast
  qed
qed

lemma ok_refresh:
  assumes ok: "identity_ok d" and fr: "fresh_for cr fr d" and eq: "refresh_session cr st fr now token d = (r, d')"
  shows "identity_ok d'"
proof -
  let ?d = "cleanup_sessions now d"
  have okd: "identity_ok ?d" by (rule ok_cleanup(1) [OF ok])
  { fix s u k
    assume s: "session_by_digest (cr_digest cr token) ?d = Some s" "\<not> ss_revoked s"
      and u: "find_user (ss_user s) ?d = Some u" "us_status u = Active"
      and t: "issue_tokens cr st fr now u (Some (ss_family s)) (Some (ss_id s)) (revoke_session (ss_id s) ?d) = (k, d')"
    have sl: "live s ?d" using find_session [OF s(1)] s(2) by (simp add: live_def)
    then have "ss_family s \<noteq> ''''" using okd by (auto simp: identity_ok_def sessions_ok_def named_families_def live_def)
    moreover have "fresh_for cr fr (revoke_session (ss_id s) ?d)"
      using fr by (simp add: revoke_session_def cleanup_sessions_def)
    moreover have "us_id u = ss_user s" "is_active (ss_user s) (revoke_session (ss_id s) ?d)"
      using find_user_Some [OF u(1)] find_active [OF u] by (simp_all add: revoke_session_def)
    ultimately have "identity_ok d'"
      unfolding issue_tokens_db [OF t] using ok_cleanup(3) [OF okd] family_of_live [OF okd sl]
      by (intro ok_add_session) (simp_all add: fresh_for_def) }
  with eq okd show ?thesis
    by (auto simp: refresh_session_def Let_def split: option.splits if_splits prod.splits dest: ok_rules)
qed

lemma ok_logout [ok_rules]: "identity_ok d \<Longrightarrow> identity_ok (logout cr token d)"
  by (simp add: logout_def ok_cleanup split: option.split)

lemma ok_change_password:
  "identity_ok d \<Longrightarrow> change_password cr fr i p q token d = (r, d') \<Longrightarrow> identity_ok d'"
  by (auto simp: change_password_def Let_def split: option.splits if_splits prod.splits
      dest: ok_update intro: ok_cleanup(5))

lemma ok_reset_password:
  assumes "identity_ok d" and "reset_password cr fr now token p d = (r, d')"
  shows "identity_ok d'"
proof -
  let ?d = "cleanup_resets now d"
  have okd: "identity_ok ?d" by (rule ok_cleanup(2) [OF assms(1)])
  have "identity_ok d1" if "update_user i (\<lambda>v. v\<lparr>us_hash := h, us_must_change := b\<rparr>) ?d = (x, d1)" for i h b x d1
    by (rule ok_update [OF okd that]) simp_all
  with assms(2) okd show ?thesis
    by (auto simp: reset_password_def Let_def ok_cleanup ok_use_resets split: option.splits if_splits prod.splits
        dest!: mark_used_db)
qed

section \<open>Requests\<close>

text \<open>
  Each request that can change the tables: the HTTP handlers and the two administrative commands
  (\<open>cli.py\<close>). A caller is given with the CSRF check's result.
\<close>

datatype identity_request =
    Login string string
  | Refresh bool "string option"
  | Logout "uuid option" bool "string option"
  | ChangePassword "uuid option" bool "string option" string string
  | ForgotPassword bool string
  | ResetPassword string string
  | CreateUser bool "uuid option" bool user_create
  | UpdateUser "uuid option" bool uuid string
  | UpdateStatus "uuid option" bool uuid account_status
  | UpdateJurisdiction "uuid option" bool uuid jurisdiction
  | RevokeSessions "uuid option" bool uuid
  | DeleteUser "uuid option" bool uuid
  | CreateAdmin string string string jurisdiction
  | ClearSessions

text \<open>\<open>cli.py\<close>, \<open>revoke_sessions\<close>: the counts and the tables emptied.\<close>

definition clear_sessions :: "identity_db \<Rightarrow> (nat \<times> nat) \<times> identity_db" where
  "clear_sessions d = ((length (sessions d), length (resets d)), d\<lparr>sessions := [], resets := []\<rparr>)"

text \<open>
  What comes with a request: what it draws (a second draw for the setup token of a new user), its
  time, and the tables its dependencies saw. Those are the tables of an earlier moment; nothing below
  assumes more of them.
\<close>

record arrival =
  ar_fresh :: fresh
  ar_fresh2 :: fresh
  ar_now :: instant
  ar_seen :: identity_db
  ar_request :: identity_request

definition serve :: "crypto \<Rightarrow> identity_settings \<Rightarrow> arrival \<Rightarrow> identity_db \<Rightarrow> identity_db" where
  "serve cr st a d =
     (let fr = ar_fresh a; fr' = ar_fresh2 a; now = ar_now a; d0 = ar_seen a in
      case ar_request a of
        Login e p \<Rightarrow> snd (http_login cr st fr now e p d)
      | Refresh csrf cookie \<Rightarrow> snd (http_refresh cr st fr now csrf cookie d)
      | Logout caller csrf cookie \<Rightarrow> snd (http_logout cr caller csrf cookie d0 d)
      | ChangePassword caller csrf cookie p q \<Rightarrow> snd (http_change_password cr st fr now caller csrf cookie p q d0 d)
      | ForgotPassword mail_ok e \<Rightarrow> snd (http_forgot_password cr st fr now mail_ok e d)
      | ResetPassword token p \<Rightarrow> snd (http_reset_password cr fr now token p d)
      | CreateUser mail_ok caller csrf p \<Rightarrow> snd (http_create_user cr st fr fr' now mail_ok caller csrf p d0 d)
      | UpdateUser caller csrf i name \<Rightarrow> snd (http_update_user caller csrf i name d0 d)
      | UpdateStatus caller csrf i s \<Rightarrow> snd (http_update_status caller csrf i s d0 d)
      | UpdateJurisdiction caller csrf i j \<Rightarrow> snd (http_update_jurisdiction caller csrf i j d0 d)
      | RevokeSessions caller csrf i \<Rightarrow> snd (http_revoke_sessions caller csrf i d0 d)
      | DeleteUser caller csrf i \<Rightarrow> snd (http_delete_user caller csrf i d0 d)
      | CreateAdmin name e p j \<Rightarrow> snd (create_admin cr fr now name e p j d)
      | ClearSessions \<Rightarrow> snd (clear_sessions d))"

fun serve_all :: "crypto \<Rightarrow> identity_settings \<Rightarrow> arrival list \<Rightarrow> identity_db \<Rightarrow> identity_db" where
  "serve_all cr st [] d = d"
| "serve_all cr st (a # as) d = serve_all cr st as (serve cr st a d)"

text \<open>What each request draws is new at the time.\<close>

definition draws_fresh :: "crypto \<Rightarrow> arrival \<Rightarrow> identity_db \<Rightarrow> bool" where
  "draws_fresh cr a d \<longleftrightarrow> fresh_for cr (ar_fresh a) d \<and> fresh_for cr (ar_fresh2 a) d"

fun all_fresh :: "crypto \<Rightarrow> identity_settings \<Rightarrow> arrival list \<Rightarrow> identity_db \<Rightarrow> bool" where
  "all_fresh cr st [] d \<longleftrightarrow> True"
| "all_fresh cr st (a # as) d \<longleftrightarrow> draws_fresh cr a d \<and> all_fresh cr st as (serve cr st a d)"

lemma serve_all_induct:
  assumes "I d" and "all_fresh cr st as d" and "list_all P as"
    and step: "\<And>a d. I d \<Longrightarrow> P a \<Longrightarrow> draws_fresh cr a d \<Longrightarrow> I (serve cr st a d)"
  shows "I (serve_all cr st as d)"
  using assms(1-3) by (induction as arbitrary: d) (simp_all add: step)

section \<open>The invariant\<close>

lemma ok_create_admin:
  assumes "identity_ok d" and "fresh_for cr fr d"
  shows "identity_ok (snd (create_admin cr fr now name e p j d))"
proof (cases "valid_user_create name e j")
  case None then show ?thesis using assms(1) by (simp add: create_admin_def)
next
  case (Some p')
  let ?u = "new_user fr now p' (cr_hash cr (fr_salt fr) p) Admin False"
  have "us_id ?u \<notin> us_id ` set (users d)" using assms(2) by (simp add: new_user_def fresh_for_def)
  from ok_insert_user [OF assms(1) this] Some show ?thesis
    by (auto simp: create_admin_def split: option.split prod.split)
qed

lemma user_result_db [simp]: "snd (user_result r) = snd r"
  by (auto simp: user_result_def split: prod.split option.split)

lemma on_error_db [simp]: "snd (on_error e r) = snd r"
  by (auto simp: on_error_def split: prod.split sum.split)

lemma with_guard_db: "snd (with_guard g h d) = (case g of Inl e \<Rightarrow> d | Inr v \<Rightarrow> snd (h v d))"
  by (simp add: with_guard_def split: sum.split)

lemma ok_update_snd: "identity_ok d \<Longrightarrow> keeps_keys c \<Longrightarrow> keeps_status c \<Longrightarrow> identity_ok (snd (update_user i c d))"
  using ok_update [of d i c "fst (update_user i c d)" "snd (update_user i c d)"] by simp

lemma create_user_fresh:
  "create_user_with_temp_password cr fr now p d = (Inr (u, pw), d') \<Longrightarrow>
   pu_id u = fr_id fr \<and> sessions d' = sessions d \<and> resets d' = resets d"
  by (auto simp: create_user_with_temp_password_def insert_user_def new_user_def Let_def to_public_user_def
      split: if_splits)


lemma update_user_snd: "snd (update_user i c d) = d\<lparr>users := change_user i c (users d)\<rparr>"
  by (simp add: update_user_def change_user_def Let_def)

lemma set_status_db: "snd (set_status i s d) = d\<lparr>users := change_user i (\<lambda>v. v\<lparr>us_status := s\<rparr>) (users d)\<rparr>"
  by (simp add: set_status_def update_user_snd)

lemma ok_activate:
  assumes "identity_ok d"
  shows "identity_ok (snd (set_status i Active d))"
proof -
  let ?c = "\<lambda>v. v\<lparr>us_status := Active\<rparr>"
  have "is_active j (d\<lparr>users := change_user i ?c (users d)\<rparr>)" if act: "is_active j d" for j
  proof -
    obtain u where u: "u \<in> set (users d)" "us_id u = j" "us_status u = Active"
      using act unfolding is_active_def by blast
    then have "us_id (if us_id u = i then ?c u else u) = j" "us_status (if us_id u = i then ?c u else u) = Active" by simp_all
    moreover have "(if us_id u = i then ?c u else u) \<in> set (users (d\<lparr>users := change_user i ?c (users d)\<rparr>))"
      using change_member [OF u(1), of i ?c] by simp
    ultimately show ?thesis unfolding is_active_def by blast
  qed
  with assms show ?thesis
    unfolding set_status_db
    by (intro ok_users) (auto simp: change_keys live_is_active identity_ok_def [of d] users_ok_def)
qed

lemma ok_block:
  assumes "identity_ok d"
  shows "identity_ok (revoke_all_for_user i (snd (set_status i s d)))"
proof -
  let ?d = "revoke_all_for_user i d" and ?c = "\<lambda>v. v\<lparr>us_status := s\<rparr>"
  have swap: "revoke_all_for_user i (snd (set_status i s d)) = ?d\<lparr>users := change_user i ?c (users ?d)\<rparr>"
    by (simp add: set_status_db revoke_all_for_user_def revoke_user_sessions_def revoke_def)
  have "update_user i ?c ?d = (fst (update_user i ?c ?d), ?d\<lparr>users := change_user i ?c (users ?d)\<rparr>)"
    by (simp add: prod_eq_iff update_user_snd)
  moreover have "\<forall>s. live s ?d \<longrightarrow> ss_user s \<noteq> i"
    by (simp add: revoke_all_for_user_def revoke_user_sessions_def)
  ultimately show ?thesis unfolding swap
    using ok_change_user [OF ok_cleanup(8) [OF assms] harmless_changes(9)] by blast
qed

lemma change_nobody: "find_user i d = None \<Longrightarrow> change_user i c (users d) = users d"
  unfolding change_user_def find_user_def find_None_iff by (rule map_idI) auto

lemma set_status_fails: "set_status i s d = (Inl e, d') \<Longrightarrow> d' = d"
  using set_status_db [of i s d] change_nobody [of i d]
  by (auto simp: set_status_def user_result_def update_user_def Let_def find_user_def find_None_iff
      split: prod.splits option.splits if_splits)


lemma change_status_db:
  "snd (change_status admin i s d) =
   (if s \<in> {Suspended, Disabled}
    then if \<exists>v. prevent_admin_lockout i admin d = Inr v
      then if find_user i d = None then d else revoke_all_for_user i (snd (set_status i s d)) else d
    else snd (set_status i s d))"
proof -
  have none: "find_user i d = None \<longleftrightarrow> \<not> (\<exists>u\<in>set (users d). us_id u = i)" by (auto simp: find_user_def find_None_iff)
  have err: "snd (case on_error not_found (set_status i s d) of (Inl e, d') \<Rightarrow> (Inl e, d') | (Inr u, d') \<Rightarrow> (Inr u, revoke_all_for_user i d')) =
      (if find_user i d = None then d else revoke_all_for_user i (snd (set_status i s d)))"
  proof (cases "set_status i s d")
    case (Pair r d')
    show ?thesis
    proof (cases r)
      case (Inl e)
      have "find_user i d = None"
        using Pair Inl by (auto simp: none set_status_def user_result_def update_user_def Let_def find_user_def find_None_iff
            split: option.splits if_splits)
      with Pair Inl set_status_fails [of i s d e d'] show ?thesis by (simp add: on_error_def)
    next
      case (Inr v)
      have "find_user i d \<noteq> None"
        using Pair Inr by (auto simp: none set_status_def user_result_def update_user_def Let_def split: option.splits if_splits)
      with Pair Inr show ?thesis by (auto simp: on_error_def)
    qed
  qed
  show ?thesis
    by (auto simp: change_status_def with_guard_db err split: sum.split)
qed

lemma ok_change_status:
  assumes "identity_ok d"
  shows "identity_ok (snd (change_status admin i s d))"
  using ok_activate [OF assms, of i] ok_block [OF assms, of i s] assms
  by (cases s) (simp_all add: change_status_db)

text \<open>A handler that is not reached changes nothing.\<close>

lemma ok_guarded:
  "identity_ok d \<Longrightarrow> (\<And>v. g = Inr v \<Longrightarrow> identity_ok (snd (h v d))) \<Longrightarrow> identity_ok (snd (with_guard g h d))"
  by (simp add: with_guard_db split: sum.split)

lemma ok_snd: "(\<And>r d'. f = (r, d') \<Longrightarrow> identity_ok d') \<Longrightarrow> identity_ok (snd f)"
  by (cases f) simp

lemma ok_create_reset_token:
  assumes ok: "identity_ok d"
    and fr: "fr_id fr \<notin> rt_id ` set (resets d)" "cr_digest cr (fr_token fr) \<notin> rt_digest ` set (resets d)"
  shows "identity_ok (snd (create_reset_token cr st fr now i what d))"
proof -
  let ?d = "invalidate_user_tokens i (cleanup_resets now d)"
  have "rt_id ` set (resets ?d) = rt_id ` set (resets d)" "rt_digest ` set (resets ?d) = rt_digest ` set (resets d)"
    unfolding invalidate_user_tokens_def cleanup_resets_def by (metis (no_types) set_map keys_use_resets)+
  moreover have "rt_user q \<noteq> i" if "open_reset q ?d" for q using that by (simp add: invalidate_user_tokens_def)
  ultimately show ?thesis
    unfolding create_reset_token_def snd_conv using fr ok by (intro ok_add_reset) (auto simp: ok_cleanup)
qed

lemma ok_create_user:
  assumes ok: "identity_ok d" and fr: "fresh_for cr fr d" "fresh_for cr fr' d"
  shows "identity_ok (snd (http_create_user cr st fr fr' now mail_ok caller csrf p d0 d))"
proof -
  have new: "identity_ok d'" if "create_user_with_temp_password cr fr now p d = (r, d')" for r d'
    using that ok_insert_user [OF ok, of "new_user fr now p (cr_hash cr (fr_salt fr) (fr_password fr)) User True"] fr(1)
    by (auto simp: create_user_with_temp_password_def new_user_def fresh_for_def split: option.splits prod.splits)
  show ?thesis
    unfolding http_create_user_def
  proof (rule ok_guarded [OF ok])
    show "identity_ok (snd (case create_user_with_temp_password cr fr now p d of
        (Inl _, d') \<Rightarrow> (Inl (HttpError 409 ''Email is already registered''), d')
      | (Inr (u, password), d') \<Rightarrow> (case send_account_setup_email cr st fr' now mail_ok (pu_id u) (pu_email u) d' of
          (mail, d'') \<Rightarrow> (Inr (u, password, mail), d''))))"
    proof (cases "create_user_with_temp_password cr fr now p d")
      case (Pair r d')
      show ?thesis
      proof (cases r)
        case (Inl e) then show ?thesis using Pair new [OF Pair] by simp
      next
        case (Inr up)
        obtain u pw where up: "up = (u, pw)" by (cases up)
        have "resets d' = resets d" using create_user_fresh [of cr fr now p d u pw d'] Pair Inr up by simp
        then have "identity_ok (snd (create_reset_token cr st fr' now i what d'))" for i what
          using fr(2) by (intro ok_create_reset_token [OF new [OF Pair]]) (simp_all add: fresh_for_def)
        then have "identity_ok (snd (send_account_setup_email cr st fr' now mail_ok i e d'))" for i e
          by (simp add: send_account_setup_email_def split: prod.split) (metis snd_conv)
        with Pair Inr up show ?thesis by (simp split: prod.split) (metis snd_conv)
      qed
    qed
  qed
qed

lemma ok_forgot:
  assumes "identity_ok d" and "fresh_for cr fr d"
  shows "identity_ok (snd (http_forgot_password cr st fr now mail_ok e d))"
proof -
  have "identity_ok d'" if "create_reset_token cr st fr now i what d = (t, d')" for i what t d'
    using ok_create_reset_token [OF assms(1), of fr cr st now i what] assms(2) that by (simp add: fresh_for_def)
  with assms(1) show ?thesis
    by (auto simp: http_forgot_password_def request_password_reset_def split: option.splits prod.splits)
qed

lemma ok_serve:
  assumes ok: "identity_ok d" and fr: "draws_fresh cr a d"
  shows "identity_ok (serve cr st a d)"
proof (cases "ar_request a")
  case (Login e p)
  have "identity_ok (snd (login cr st (ar_fresh a) (ar_now a) e p d))"
    using fr unfolding draws_fresh_def by (intro ok_snd) (rule ok_login [OF ok], rule conjunct1)
  with Login show ?thesis by (simp add: serve_def http_login_def)
next
  case (Refresh csrf cookie)
  have "identity_ok (snd (refresh_session cr st (ar_fresh a) (ar_now a) c d))" for c
    using fr unfolding draws_fresh_def by (intro ok_snd) (rule ok_refresh [OF ok], rule conjunct1)
  with Refresh ok show ?thesis by (simp add: serve_def http_refresh_def ok_guarded)
next
  case (Logout caller csrf cookie)
  with ok show ?thesis by (simp add: serve_def http_logout_def ok_guarded ok_logout)
next
  case (ChangePassword caller csrf cookie p q)
  have "identity_ok (snd (case change_password cr fr i p q cookie d of
      (Inl e, d') \<Rightarrow> (Inl e, d') | (Inr v, d') \<Rightarrow> (Inr (f v), d')))" for fr i f
    using ok_change_password [OF ok] by (cases "change_password cr fr i p q cookie d") (simp split: sum.split)
  with ChangePassword ok show ?thesis
    unfolding serve_def Let_def http_change_password_def by (simp del: split_paired_All) (rule ok_guarded, simp_all)
next
  case (ForgotPassword mail_ok e)
  with ok fr show ?thesis by (simp add: serve_def draws_fresh_def ok_forgot)
next
  case (ResetPassword token p)
  have "identity_ok (snd (reset_password cr (ar_fresh a) (ar_now a) token p d))"
    using ok_reset_password [OF ok] by (rule ok_snd)
  with ResetPassword show ?thesis by (simp add: serve_def http_reset_password_def)
next
  case (CreateUser mail_ok caller csrf p)
  with ok fr show ?thesis by (simp add: serve_def draws_fresh_def ok_create_user)
next
  case (UpdateUser caller csrf i name)
  with ok show ?thesis by (simp add: serve_def http_update_user_def rename_user_def ok_guarded ok_update_snd)
next
  case (UpdateStatus caller csrf i s)
  with ok show ?thesis by (simp add: serve_def http_update_status_def ok_guarded ok_change_status)
next
  case (UpdateJurisdiction caller csrf i j)
  with ok show ?thesis by (simp add: serve_def http_update_jurisdiction_def set_jurisdiction_def ok_guarded ok_update_snd)
next
  case (RevokeSessions caller csrf i)
  with ok show ?thesis by (simp add: serve_def http_revoke_sessions_def ok_guarded ok_cleanup)
next
  case (DeleteUser caller csrf i)
  with ok show ?thesis by (simp add: serve_def http_delete_user_def ok_guarded ok_change_status)
next
  case (CreateAdmin name e p j)
  with ok fr show ?thesis by (simp add: serve_def draws_fresh_def ok_create_admin)
next
  case ClearSessions
  have "identity_ok (d\<lparr>sessions := [], resets := []\<rparr>)"
    using ok by (simp add: identity_ok_def users_ok_def sessions_ok_def resets_ok_def one_live_def named_families_def
        families_ok_def live_active_def live_def one_open_def open_reset_def)
  with ClearSessions show ?thesis by (simp add: serve_def clear_sessions_def)
qed

text \<open>
  C6: the invariant of the identity service. Users have distinct ids and distinct e-mail addresses;
  session ids and digests are distinct; a family of sessions has one live session at most and one
  owner, and a live session belongs to an active user; a user has one usable recovery token at most.
  Every sequence of requests keeps it, also when a request's authorization was checked before others
  came in between, as long as what is drawn at random is new.
\<close>

theorem identity_invariant:
  assumes "identity_ok d" and "all_fresh cr st as d"
  shows "identity_ok (serve_all cr st as d)"
  by (rule serve_all_induct [where I = identity_ok and P = "\<lambda>_. True"]) (simp_all add: ok_serve list_all_iff assms)

section \<open>Nothing comes back to life\<close>

text \<open>
  What one request does to the rows of sessions and recovery tokens: a dead row stays as it is, no
  family disappears, and a new session is in a new family or in one with a live session.
\<close>

definition families :: "identity_db \<Rightarrow> uuid set" where
  "families d = ss_family ` set (sessions d)"

definition may_grow :: "uuid \<Rightarrow> identity_db \<Rightarrow> bool" where
  "may_grow f d \<longleftrightarrow> f \<notin> families d \<or> (\<exists>t. live t d \<and> ss_family t = f)"

definition evolves :: "identity_db \<Rightarrow> identity_db \<Rightarrow> bool" where
  "evolves d d' \<longleftrightarrow> (\<forall>s\<in>set (sessions d). ss_revoked s \<longrightarrow> s \<in> set (sessions d')) \<and>
     (\<forall>r\<in>set (resets d). rt_used r \<longrightarrow> r \<in> set (resets d')) \<and>
     families d \<subseteq> families d' \<and> (\<forall>s. live s d' \<longrightarrow> may_grow (ss_family s) d)"

lemma families_simps [simp]:
  "families (revoke P d) = families d" "families (add_session s d) = insert (ss_family s) (families d)"
  "families (use_resets Q d) = families d" "families (add_reset r d) = families d" "families (d\<lparr>users := us\<rparr>) = families d"
proof -
  show "families (revoke P d) = families d" unfolding families_def by (metis (no_types) set_map keys_revoke(3))
qed (simp_all add: families_def, simp add: add_session_def)

lemma evolves_refl [simp]: "evolves d d"
  by (auto simp: evolves_def may_grow_def)

lemma evolves_users: "evolves d d' \<Longrightarrow> evolves d (d'\<lparr>users := us\<rparr>)"
  by (simp add: evolves_def)

lemma stays_dead:
  "s \<in> set (sessions d) \<Longrightarrow> ss_revoked s \<Longrightarrow> s \<in> set (sessions (revoke P d))"
  "r \<in> set (resets d) \<Longrightarrow> rt_used r \<Longrightarrow> r \<in> set (resets (use_resets Q d))"
  using sess.dead_burn [of s d P] rst.dead_burn [of r d Q] by auto

lemma evolves_revoke: "evolves d d' \<Longrightarrow> evolves d (revoke P d')"
  using stays_dead(1) by (simp add: evolves_def)

lemma evolves_use_resets: "evolves d d' \<Longrightarrow> evolves d (use_resets Q d')"
  using stays_dead(2) by (simp add: evolves_def)

lemma evolves_add_reset: "evolves d d' \<Longrightarrow> evolves d (add_reset r d')"
  by (auto simp: evolves_def add_reset_def live_def families_def)

lemma evolves_add_session: "evolves d d' \<Longrightarrow> may_grow (ss_family s) d \<Longrightarrow> evolves d (add_session s d')"
  by (auto simp: evolves_def add_session_def live_def families_def)

lemmas evolves_rules = evolves_users evolves_revoke evolves_use_resets evolves_add_reset

lemma evolves_ops:
  "evolves d d' \<Longrightarrow> evolves d (cleanup_sessions now d')" "evolves d d' \<Longrightarrow> evolves d (cleanup_resets now d')"
  "evolves d d' \<Longrightarrow> evolves d (revoke_session i d')" "evolves d d' \<Longrightarrow> evolves d (revoke_family f d')"
  "evolves d d' \<Longrightarrow> evolves d (revoke_user_sessions i keep d')" "evolves d d' \<Longrightarrow> evolves d (invalidate_user_tokens i d')"
  "evolves d d' \<Longrightarrow> evolves d (revoke_all_for_user i d')" "evolves d d' \<Longrightarrow> evolves d (logout cr token d')"
  "evolves d d' \<Longrightarrow> evolves d (snd (set_status i s d'))" "evolves d d' \<Longrightarrow> evolves d (snd (insert_user u d'))"
  "evolves d d' \<Longrightarrow> evolves d (snd (mark_used i d'))" "evolves d d' \<Longrightarrow> evolves d (snd (update_user i c d'))"
  by (simp_all add: mark_used_def update_user_snd cleanup_sessions_def cleanup_resets_def revoke_session_def revoke_family_def revoke_user_sessions_def
      invalidate_user_tokens_def revoke_all_for_user_def logout_def set_status_db insert_user_def Let_def evolves_rules
      split: option.split)

lemma evolves_update: "update_user i c d' = (r, d'') \<Longrightarrow> evolves d d' \<Longrightarrow> evolves d d''"
  using evolves_users update_user_db [of i c d' r d''] by simp

lemma evolves_mark: "mark_used i d' = (r, d'') \<Longrightarrow> evolves d d' \<Longrightarrow> evolves d d''"
  using evolves_use_resets mark_used_db [of i d' r d''] by simp

lemma evolves_insert: "insert_user u d' = (r, d'') \<Longrightarrow> evolves d d' \<Longrightarrow> evolves d d''"
  using evolves_ops(10) [of d d' u] by simp

lemma evolves_reset_token: "evolves d d' \<Longrightarrow> evolves d (snd (create_reset_token cr st fr now i what d'))"
  by (simp add: create_reset_token_def evolves_add_reset evolves_ops)

lemma may_grow_new: "fresh_for cr fr d \<Longrightarrow> may_grow (fr_family fr) d"
  by (simp add: may_grow_def families_def fresh_for_def)


lemma evolves_login:
  assumes "fresh_for cr fr d" and "login cr st fr now e p d = (r, d')"
  shows "evolves d d'"
  using assms(2) may_grow_new [OF assms(1)]
  by (auto simp: login_def split: option.splits if_splits prod.splits dest!: issue_tokens_db
      intro!: evolves_add_session intro: evolves_update)

lemma evolves_refresh:
  assumes ok: "identity_ok d" and eq: "refresh_session cr st fr now token d = (r, d')"
  shows "evolves d d'"
proof -
  let ?d = "cleanup_sessions now d"
  have "ss_family s \<noteq> '''' \<and> may_grow (ss_family s) d"
    if "session_by_digest h ?d = Some s" "\<not> ss_revoked s" for h s
  proof -
    from find_cleanup [OF that] have s: "live s d" by simp
    with ok have "ss_family s \<noteq> ''''" by (auto simp: identity_ok_def sessions_ok_def named_families_def live_def)
    with s show ?thesis by (auto simp: may_grow_def)
  qed
  with eq show ?thesis
    by (auto simp: refresh_session_def Let_def split: option.splits if_splits prod.splits dest!: issue_tokens_db
        intro!: evolves_add_session evolves_ops)
qed

lemma evolves_change_password: "change_password cr fr i p q token d = (r, d') \<Longrightarrow> evolves d d'"
  by (auto simp: change_password_def Let_def split: option.splits if_splits prod.splits
      intro!: evolves_ops intro: evolves_update)

lemma evolves_reset_password: "reset_password cr fr now token p d = (r, d') \<Longrightarrow> evolves d d'"
  by (auto simp: reset_password_def Let_def split: option.splits if_splits prod.splits
      intro!: evolves_ops evolves_use_resets intro: evolves_update dest!: mark_used_db)

lemma evolves_snd: "(\<And>r d'. f = (r, d') \<Longrightarrow> evolves d d') \<Longrightarrow> evolves d (snd f)"
  by (cases f) simp

lemma evolves_guarded:
  "(\<And>v. g = Inr v \<Longrightarrow> evolves d (snd (h v d))) \<Longrightarrow> evolves d (snd (with_guard g h d))"
  by (simp add: with_guard_db split: sum.split)

lemma evolves_change_status: "evolves d (snd (change_status admin i s d))"
  by (simp add: change_status_db evolves_ops)

lemma create_user_snd:
  "snd (create_user_with_temp_password cr fr now p d) =
   snd (insert_user (new_user fr now p (cr_hash cr (fr_salt fr) (fr_password fr)) User True) d)"
  by (simp add: create_user_with_temp_password_def split: prod.split option.split)

lemma evolves_create_user: "evolves d (snd (http_create_user cr st fr fr' now mail_ok caller csrf p d0 d))"
proof -
  have "evolves d (snd (create_user_with_temp_password cr fr now p d))" unfolding create_user_snd by (simp add: evolves_ops)
  then have "evolves d d'" "evolves d (snd (send_account_setup_email cr st fr' now mail_ok i e d'))"
    if "create_user_with_temp_password cr fr now p d = (r, d')" for r d' i e
    using that by (simp_all add: send_account_setup_email_def create_reset_token_def evolves_add_reset evolves_ops)
  then show ?thesis
    unfolding http_create_user_def
    by (intro evolves_guarded) (auto split: prod.split sum.split, metis snd_conv)
qed

lemma answer_db [simp]: "snd (case r of Inl e \<Rightarrow> (Inl e, d) | Inr v \<Rightarrow> (Inr (g v), d)) = d"
  by (cases r) simp_all

lemma evolves_serve:
  assumes ok: "identity_ok d" and fr: "draws_fresh cr a d" and other: "ar_request a \<noteq> ClearSessions"
  shows "evolves d (serve cr st a d)"
proof -
  have "evolves d (snd (login cr st (ar_fresh a) (ar_now a) e p d))" for e p
    using fr unfolding draws_fresh_def by (intro evolves_snd) (rule evolves_login, rule conjunct1)
  moreover have "evolves d (snd (refresh_session cr st (ar_fresh a) (ar_now a) c d))" for c
    using evolves_refresh [OF ok] by (rule evolves_snd)
  moreover have "evolves d (snd (change_password cr (ar_fresh a) i p q c d))" for i p q c
    using evolves_change_password by (rule evolves_snd)
  moreover have "evolves d (snd (reset_password cr (ar_fresh a) (ar_now a) c p d))" for c p
    using evolves_reset_password by (rule evolves_snd)
  moreover have "evolves d (snd (request_password_reset cr st (ar_fresh a) (ar_now a) m e d))" for m e
    by (auto simp: request_password_reset_def create_reset_token_def evolves_add_reset evolves_ops split: option.split)
  moreover have "evolves d (snd (create_admin cr (ar_fresh a) (ar_now a) n e p j d))" for n e p j
    using evolves_insert [of _ d _ _ d]
    by (auto simp: create_admin_def split: option.split prod.split)
  ultimately show ?thesis
    using other evolves_create_user evolves_change_status unfolding serve_def Let_def
    by (cases "ar_request a")
      (simp_all add: http_login_def http_refresh_def http_logout_def http_change_password_def http_forgot_password_def
        http_reset_password_def http_update_user_def http_update_status_def http_update_jurisdiction_def
        http_revoke_sessions_def http_delete_user_def rename_user_def set_jurisdiction_def evolves_guarded evolves_ops
        case_prod_unfold)
qed

text \<open>Only the command that empties the tables forgets: every other request keeps what is dead dead.\<close>

definition keeps_sessions :: "arrival \<Rightarrow> bool" where
  "keeps_sessions a \<longleftrightarrow> ar_request a \<noteq> ClearSessions"

lemma serve_all_keeps:
  assumes "identity_ok d" and "J d" and "all_fresh cr st as d" and "list_all keeps_sessions as"
    and step: "\<And>d d'. J d \<Longrightarrow> evolves d d' \<Longrightarrow> J d'"
  shows "identity_ok (serve_all cr st as d) \<and> J (serve_all cr st as d)"
proof (rule serve_all_induct [where I = "\<lambda>d. identity_ok d \<and> J d" and P = keeps_sessions])
  fix a d assume "identity_ok d \<and> J d" "keeps_sessions a" "draws_fresh cr a d"
  then show "identity_ok (serve cr st a d) \<and> J (serve cr st a d)"
    using ok_serve evolves_serve step unfolding keeps_sessions_def by blast
qed (use assms in simp_all)


section \<open>Properties\<close>

definition family_live :: "uuid \<Rightarrow> identity_db \<Rightarrow> bool" where
  "family_live f d \<longleftrightarrow> (\<exists>t\<in>set (sessions d). \<not> ss_revoked t \<and> ss_family t = f)"

lemma family_live_iff: "family_live f d \<longleftrightarrow> (\<exists>t. live t d \<and> ss_family t = f)"
  by (auto simp: family_live_def live_def)

lemma evolves_dead: "f \<in> families d \<and> \<not> family_live f d \<Longrightarrow> evolves d d' \<Longrightarrow> f \<in> families d' \<and> \<not> family_live f d'"
  unfolding family_live_iff evolves_def may_grow_def by blast

lemma digest_unique:
  assumes "identity_ok d" and "s \<in> set (sessions d)" and "ss_digest s = h"
  shows "session_by_digest h d = Some s"
proof -
  obtain t where t: "session_by_digest h d = Some t"
    using assms(2,3) by (cases "session_by_digest h d") (auto simp: session_by_digest_def find_None_iff)
  have "inj_on ss_digest (set (sessions d))"
    using assms(1) by (simp add: identity_ok_def sessions_ok_def distinct_map)
  then have "t = s" using find_session [OF t] assms(2,3) by (auto dest: inj_onD)
  with t show ?thesis by simp
qed

lemma reset_unique:
  assumes "identity_ok d" and "r \<in> set (resets d)" and "rt_digest r = h"
  shows "reset_by_digest h d = Some r"
proof -
  obtain t where t: "reset_by_digest h d = Some t"
    using assms(2,3) by (cases "reset_by_digest h d") (auto simp: reset_by_digest_def find_None_iff)
  have "inj_on rt_digest (set (resets d))"
    using assms(1) by (simp add: identity_ok_def resets_ok_def distinct_map)
  then have "t = r" using find_reset [OF t] assms(2,3) by (auto dest: inj_onD)
  with t show ?thesis by simp
qed

lemma refresh_revoked:
  assumes ok: "identity_ok d" and s: "s \<in> set (sessions d)" "ss_revoked s" "ss_digest s = cr_digest cr token"
  shows "refresh_session cr st fr now token d = (Inl AuthenticationError, revoke_family (ss_family s) (cleanup_sessions now d))"
proof -
  have "s \<in> set (sessions (cleanup_sessions now d))" using stays_dead(1) [OF s(1,2)] by (simp add: cleanup_sessions_def)
  from digest_unique [OF ok_cleanup(1) [OF ok] this s(3)] s(2) show ?thesis
    by (simp add: refresh_session_def Let_def)
qed

text \<open>
  An expired token counts as reuse: the clean-up has already revoked its session, so the branch for an
  expired session is not reached and the family is revoked.
\<close>

lemma expired_token_is_reuse:
  assumes ok: "identity_ok d" and s: "s \<in> set (sessions d)" "ss_expires_at s \<le> now" "ss_digest s = cr_digest cr token"
  shows "refresh_session cr st fr now token d = (Inl AuthenticationError, revoke_family (ss_family s) (cleanup_sessions now d))"
proof -
  let ?t = "s\<lparr>ss_revoked := True\<rparr>"
  have "?t = (if \<not> ss_revoked s \<and> ss_expires_at s \<le> now then s\<lparr>ss_revoked := True\<rparr> else s)" using s(2) by simp
  then have "?t \<in> set (sessions (cleanup_sessions now d))"
    unfolding cleanup_sessions_def revoke_row using s(1) by blast
  from digest_unique [OF ok_cleanup(1) [OF ok] this, of "cr_digest cr token"] s(3) show ?thesis
    by (simp add: refresh_session_def Let_def)
qed

text \<open>
  C8: reuse detection. A refresh token that was rotated, or revoked in any other way, never yields
  tokens again, whatever requests come in between (unless the administrator empties the tables); and
  presenting it kills its whole family for good: no later request leaves a live session in it.
\<close>

theorem refresh_reuse_kills_family:
  assumes ok: "identity_ok d" and s: "s \<in> set (sessions d)" "ss_revoked s" "ss_digest s = cr_digest cr token"
    and before: "all_fresh cr st as d" "list_all keeps_sessions as"
    and reuse: "refresh_session cr st fr now token (serve_all cr st as d) = (r, d')"
    and after: "all_fresh cr st bs d'" "list_all keeps_sessions bs"
  shows "r = Inl AuthenticationError \<and> \<not> family_live (ss_family s) (serve_all cr st bs d')"
proof -
  let ?d = "serve_all cr st as d"
  have d: "identity_ok ?d \<and> s \<in> set (sessions ?d)"
    by (rule serve_all_keeps [where J = "\<lambda>d. s \<in> set (sessions d)"]) (use ok s before in \<open>auto simp: evolves_def\<close>)
  then have r: "r = Inl AuthenticationError" "d' = revoke_family (ss_family s) (cleanup_sessions now ?d)"
    using refresh_revoked [of ?d s cr token st fr now] s reuse by simp_all
  have "ss_family s \<in> families d' \<and> \<not> family_live (ss_family s) d'"
  proof
    have "ss_family s \<in> families ?d" using d by (simp add: families_def)
    then show "ss_family s \<in> families d'" by (simp add: r(2) revoke_family_def cleanup_sessions_def)
    show "\<not> family_live (ss_family s) d'" by (simp add: r(2) family_live_iff revoke_family_def)
  qed
  then have dead: "(\<lambda>d. ss_family s \<in> families d \<and> \<not> family_live (ss_family s) d) d'" .
  have "identity_ok d'" unfolding r(2) by (rule ok_cleanup(4), rule ok_cleanup(1), rule conjunct1 [OF d])
  from serve_all_keeps [where J = "\<lambda>d. ss_family s \<in> families d \<and> \<not> family_live (ss_family s) d", OF this dead after evolves_dead]
  have "\<not> family_live (ss_family s) (serve_all cr st bs d')" by simp
  with r show ?thesis by simp
qed


text \<open>
  C25: rotation. The token of a live session that has not expired, of an active user, is exchanged: the
  answer carries an access token with the user's claims of now and the drawn refresh token; the
  presented session is revoked, and the new one is the only live session of the family.
\<close>

theorem refresh_rotates:
  assumes ok: "identity_ok d" and s: "s \<in> set (sessions d)" "\<not> ss_revoked s" "ss_digest s = cr_digest cr token"
    and now: "now < ss_expires_at s" and u: "find_user (ss_user s) d = Some u"
  shows "\<exists>t n d'. refresh_session cr st fr now token d = (Inr t, d') \<and>
     tk_access t = cr_sign cr (build_access_claims st fr now u) \<and> tk_refresh t = fr_token fr \<and>
     ss_digest n = cr_digest cr (fr_token fr) \<and> ss_user n = ss_user s \<and> ss_rotated_from n = Some (ss_id s) \<and>
     ss_expires_at n = now + days (is_refresh_days st) \<and>
     s\<lparr>ss_revoked := True\<rparr> \<in> set (sessions d') \<and>
     filter (\<lambda>x. \<not> ss_revoked x \<and> ss_family x = ss_family s) (sessions d') = [n]"
proof -
  let ?d = "cleanup_sessions now d" and ?r = "revoke_session (ss_id s) (cleanup_sessions now d)"
  let ?n = "\<lparr>ss_id = fr_id fr, ss_user = us_id u, ss_digest = cr_digest cr (fr_token fr), ss_family = ss_family s,
      ss_expires_at = now + days (is_refresh_days st), ss_revoked = False, ss_rotated_from = Some (ss_id s), ss_created_at = now\<rparr>"
  have live: "live s d" using s by (simp add: live_def)
  then have sl: "live s ?d" using now by (simp add: cleanup_sessions_def)
  have okd: "identity_ok ?d" by (rule ok_cleanup(1) [OF ok])
  have us: "us_id u = ss_user s" "us_status u = Active"
  proof -
    have "u \<in> set (users d)" "us_id u = ss_user s" using find_user_Some [OF u] by simp_all
    moreover obtain v where "v \<in> set (users d)" "us_id v = ss_user s" "us_status v = Active"
      using live_is_active [OF ok live] unfolding is_active_def by blast
    moreover have "inj_on us_id (set (users d))" using ok by (simp add: identity_ok_def users_ok_def distinct_map)
    ultimately show "us_id u = ss_user s" "us_status u = Active" by (simp, metis inj_onD)
  qed
  have fam: "ss_family s \<noteq> ''''" using ok live by (auto simp: identity_ok_def sessions_ok_def named_families_def live_def)
  have found: "session_by_digest (cr_digest cr token) ?d = Some s"
    using digest_unique [OF okd _ s(3)] sl by (simp add: live_def)
  have "find_user (ss_user s) ?d = Some u" using u by (simp add: find_user_def cleanup_sessions_def)
  with found s(2) now us have eq: "refresh_session cr st fr now token d =
      (Inr \<lparr>tk_access = issue_access_token cr st fr now u, tk_refresh = fr_token fr, tk_csrf = fr_csrf fr,
        tk_user = to_public_user u\<rparr>, add_session ?n ?r)"
    using fam by (simp add: refresh_session_def Let_def issue_tokens_def)
  have "s \<in> set (sessions ?d)" using sl by (simp add: live_def)
  then have "s\<lparr>ss_revoked := True\<rparr> \<in> set (sessions ?r)"
    unfolding revoke_session_def revoke_row by force
  moreover have "filter (\<lambda>x. \<not> ss_revoked x \<and> ss_family x = ss_family s) (sessions ?r) = []"
    using family_of_live [OF okd sl] by (auto simp: filter_empty_conv)
  ultimately show ?thesis
    using eq us by (intro exI [of _ ?n] exI [of _ "add_session ?n ?r"] exI)
      (auto simp: add_session_def issue_access_token_def)
qed

text \<open>
  C19: a recovery token works once. When it is accepted, the password of its owner is replaced, every
  session of the owner is revoked, and the same token is refused from then on, whatever requests come
  in between (unless the administrator empties the tables).
\<close>

theorem reset_password_once:
  assumes ok: "identity_ok d" and first: "reset_password cr fr now token p d = (Inr (), d1)"
    and later: "all_fresh cr st as d1" "list_all keeps_sessions as"
  shows "\<exists>r u. r \<in> set (resets d) \<and> rt_digest r = cr_digest cr token \<and> \<not> rt_used r \<and> now < rt_expires_at r \<and>
     find_user (rt_user r) d1 = Some u \<and> us_hash u = cr_hash cr (fr_salt fr) p \<and> \<not> us_must_change u \<and>
     filter (\<lambda>s. \<not> ss_revoked s \<and> ss_user s = rt_user r) (sessions d1) = [] \<and>
     fst (reset_password cr fr' now' token q (serve_all cr st as d1)) = Inl PasswordResetError"
proof -
  let ?d = "cleanup_resets now d"
  obtain r u v d2 x d3 where r: "reset_by_digest (cr_digest cr token) ?d = Some r" "\<not> rt_used r" "\<not> rt_expires_at r \<le> now"
    and upd: "update_user (rt_user r) (\<lambda>v. v\<lparr>us_hash := cr_hash cr (fr_salt fr) p, us_must_change := False\<rparr>) ?d = (Some v, d2)"
    and mark: "mark_used (rt_id r) d2 = (x, d3)"
    and d1: "d1 = revoke_user_sessions (rt_user r) None (invalidate_user_tokens (rt_user r) d3)"
    using first by (auto simp: reset_password_def Let_def split: option.splits if_splits prod.splits)
  have rd: "r \<in> set (resets d)" "rt_digest r = cr_digest cr token"
    using find_reset [OF r(1)] r(2) rst.live_burn [of r "\<lambda>r. \<not> rt_used r \<and> rt_expires_at r \<le> now" d]
    by (auto simp: cleanup_resets_def)
  have v: "find_user (rt_user r) d1 = Some v"
    using upd mark_used_db [OF mark]
    by (auto simp: d1 revoke_user_sessions_def invalidate_user_tokens_def find_user_def update_user_def Let_def split: if_splits)
  moreover have "us_hash v = cr_hash cr (fr_salt fr) p \<and> \<not> us_must_change v"
  proof -
    have "find_user (rt_user r) d2 = Some v" "d2 = ?d\<lparr>users := change_user (rt_user r)
        (\<lambda>v. v\<lparr>us_hash := cr_hash cr (fr_salt fr) p, us_must_change := False\<rparr>) (users ?d)\<rparr>"
      using upd update_user_db [OF upd] by (auto simp: update_user_def Let_def split: if_splits)
    from find_user_Some [OF this(1)] this(2) show ?thesis by (auto simp: change_user_def)
  qed
  moreover have "filter (\<lambda>s. \<not> ss_revoked s \<and> ss_user s = rt_user r) (sessions d1) = []"
    by (auto simp: d1 revoke_user_sessions_def filter_empty_conv dest: iffD1 [OF sess.live_burn, OF conjI])
  moreover have used: "r\<lparr>rt_used := True\<rparr> \<in> set (resets d1)"
  proof -
    have "r \<in> set (resets d2)" using find_reset [OF r(1)] update_user_db [OF upd] by simp
    then have "r\<lparr>rt_used := True\<rparr> \<in> set (resets d3)"
      unfolding mark_used_db [OF mark] use_resets_def by force
    then show ?thesis using stays_dead(2) by (simp add: d1 revoke_user_sessions_def invalidate_user_tokens_def)
  qed
  have "identity_ok (serve_all cr st as d1) \<and> r\<lparr>rt_used := True\<rparr> \<in> set (resets (serve_all cr st as d1))"
    by (rule serve_all_keeps [where J = "\<lambda>d. r\<lparr>rt_used := True\<rparr> \<in> set (resets d)"])
      (use used later ok_reset_password [OF ok first] in \<open>simp_all add: evolves_def\<close>)
  then have "fst (reset_password cr fr' now' token q (serve_all cr st as d1)) = Inl PasswordResetError"
    using reset_unique [OF ok_cleanup(2), of _ "r\<lparr>rt_used := True\<rparr>"] stays_dead(2) [of "r\<lparr>rt_used := True\<rparr>"] rd(2)
    by (simp add: reset_password_def Let_def cleanup_resets_def)
  ultimately show ?thesis using rd r(2,3) by auto
qed


section \<open>Administrators\<close>

definition has_admin :: "identity_db \<Rightarrow> bool" where
  "has_admin d \<longleftrightarrow> (\<exists>u\<in>set (users d). active_admin u)"

lemma has_admin_simps [simp]:
  "has_admin (add_session s d) = has_admin d" "has_admin (revoke P d) = has_admin d"
  "has_admin (add_reset r d) = has_admin d" "has_admin (use_resets Q d) = has_admin d"
  "has_admin (d\<lparr>sessions := ss, resets := rs\<rparr>) = has_admin d"
  by (simp_all add: has_admin_def)

lemma admin_ops [simp]:
  "has_admin (cleanup_sessions now d) = has_admin d" "has_admin (cleanup_resets now d) = has_admin d"
  "has_admin (revoke_session i d) = has_admin d" "has_admin (revoke_family f d) = has_admin d"
  "has_admin (revoke_user_sessions i keep d) = has_admin d" "has_admin (invalidate_user_tokens i d) = has_admin d"
  "has_admin (revoke_all_for_user i d) = has_admin d" "has_admin (logout cr token d) = has_admin d"
  "has_admin (snd (mark_used i d)) = has_admin d" "has_admin (snd (create_reset_token cr st fr now i what d)) = has_admin d"
  by (simp_all add: cleanup_sessions_def cleanup_resets_def revoke_session_def revoke_family_def revoke_user_sessions_def
      invalidate_user_tokens_def revoke_all_for_user_def logout_def mark_used_def Let_def create_reset_token_def
      split: option.split)

lemma admin_update: "has_admin d \<Longrightarrow> keeps_status c \<Longrightarrow> has_admin (snd (update_user i c d))"
  unfolding update_user_snd has_admin_def
  using change_member [of _ "users d" i c] by (auto simp: keeps_status_def active_admin_def split: if_splits) metis+

lemma admin_update': "update_user i c d = (r, d') \<Longrightarrow> has_admin d \<Longrightarrow> keeps_status c \<Longrightarrow> has_admin d'"
  using admin_update [of d c i] by simp

lemma admin_insert: "has_admin d \<Longrightarrow> has_admin (snd (insert_user u d))"
  by (auto simp: insert_user_def has_admin_def Let_def)

lemma admin_mark: "mark_used i d = (r, d') \<Longrightarrow> has_admin d' = has_admin d"
  using admin_ops(9) [of i d] by simp

lemma admin_issue: "issue_tokens cr st fr now u f g d = (t, d') \<Longrightarrow> has_admin d' = has_admin d"
  by (auto dest!: issue_tokens_db)

text \<open>\<open>prevent_admin_lockout\<close> counts the active administrators: another one is left.\<close>

lemma lockout_leaves_one:
  assumes ids: "distinct (map us_id (users d))" and admin: "has_admin d" and ok: "prevent_admin_lockout i a d = Inr v"
  shows "\<exists>u\<in>set (users d). active_admin u \<and> us_id u \<noteq> i"
proof -
  have count: "would_remove_last_active_admin i d = Inr False"
    using ok by (auto simp: prevent_admin_lockout_def split: if_splits sum.splits bool.splits)
  then obtain t where t: "find_user i d = Some t" "\<not> (active_admin t \<and> length (filter active_admin (list_users d)) \<le> 1)"
    by (auto simp: would_remove_last_active_admin_def split: option.splits)
  have member: "t \<in> set (users d)" "us_id t = i" using find_user_Some [OF t(1)] by simp_all
  show ?thesis
  proof (cases "active_admin t")
    case False
    obtain u where u: "u \<in> set (users d)" "active_admin u" using admin by (auto simp: has_admin_def)
    with False member ids have "us_id u \<noteq> i" by (metis distinct_map inj_onD)
    with u show ?thesis by blast
  next
    case True
    let ?l = "filter active_admin (users d)"
    have "length (filter active_admin (list_users d)) = length ?l"
      by (simp add: list_users_def filter_sort)
    with t(2) True have two: "1 < length ?l" by simp
    have "\<exists>u\<in>set ?l. u \<noteq> t"
    proof (rule ccontr)
      assume "\<not> ?thesis"
      then have "set ?l \<subseteq> {t}" by blast
      moreover have "distinct ?l" using ids by (simp add: distinct_map)
      ultimately have "length ?l \<le> 1" by (metis card_mono card.insert_remove distinct_card finite.emptyI finite_insert
            is_singletonI is_singleton_altdef)
      with two show False by simp
    qed
    then obtain u where u: "u \<in> set (users d)" "active_admin u" "u \<noteq> t" by auto
    with member ids have "us_id u \<noteq> i" by (metis distinct_map inj_onD)
    with u show ?thesis by blast
  qed
qed

lemma admin_change_status:
  assumes ids: "distinct (map us_id (users d))" and admin: "has_admin d"
  shows "has_admin (snd (change_status a i s d))"
proof (cases "s \<in> {Suspended, Disabled} \<and> (\<exists>v. prevent_admin_lockout i a d = Inr v)")
  case True
  then obtain u where u: "u \<in> set (users d)" "active_admin u" "us_id u \<noteq> i"
    using lockout_leaves_one [OF ids admin] by blast
  have "u \<in> set (change_user i (\<lambda>v. v\<lparr>us_status := s\<rparr>) (users d))"
    using change_member [OF u(1), of i "\<lambda>v. v\<lparr>us_status := s\<rparr>"] u(3) by simp
  with u(2) have "has_admin (snd (set_status i s d))" by (auto simp: set_status_db has_admin_def)
  with True admin show ?thesis by (simp add: change_status_db)
next
  case False
  obtain u where u: "u \<in> set (users d)" "active_admin u" using admin by (auto simp: has_admin_def)
  have "has_admin (snd (set_status i Active d))"
    using change_member [OF u(1), of i "\<lambda>v. v\<lparr>us_status := Active\<rparr>"] u(2)
    unfolding set_status_db has_admin_def by (intro bexI) (auto simp: active_admin_def)
  with False admin show ?thesis by (cases s) (auto simp: change_status_db)
qed


lemma admin_guarded:
  "has_admin d \<Longrightarrow> (\<And>v. g = Inr v \<Longrightarrow> has_admin (snd (h v d))) \<Longrightarrow> has_admin (snd (with_guard g h d))"
  by (simp add: with_guard_db split: sum.split)

lemma admin_snd: "(\<And>r d'. f = (r, d') \<Longrightarrow> has_admin d') \<Longrightarrow> has_admin (snd f)"
  by (cases f) simp

lemma admin_serve:
  assumes ok: "identity_ok d" and admin: "has_admin d"
  shows "has_admin (serve cr st a d)"
proof -
  have "has_admin (snd (login cr st (ar_fresh a) (ar_now a) e p d))" for e p
    by (rule admin_snd) (auto simp: login_def admin admin_issue split: option.splits if_splits prod.splits
        intro: admin_update' [OF _ admin])
  moreover have "has_admin (snd (refresh_session cr st (ar_fresh a) (ar_now a) c d))" for c
    by (rule admin_snd) (auto simp: refresh_session_def Let_def admin admin_issue split: option.splits if_splits prod.splits)
  moreover have "has_admin (snd (change_password cr (ar_fresh a) i p q c d))" for i p q c
    by (rule admin_snd) (auto simp: change_password_def Let_def admin split: option.splits if_splits prod.splits
        intro: admin_update' [OF _ admin])
  moreover have "has_admin (snd (reset_password cr (ar_fresh a) (ar_now a) c p d))" for c p
    by (rule admin_snd) (auto simp: reset_password_def Let_def admin admin_mark split: option.splits if_splits prod.splits
        intro: admin_update' [of _ _ "cleanup_resets (ar_now a) d"])
  moreover have "has_admin (snd (request_password_reset cr st (ar_fresh a) (ar_now a) m e d))" for m e
    using admin by (simp add: request_password_reset_def case_prod_unfold split: option.split)
  moreover have "has_admin (snd (create_admin cr (ar_fresh a) (ar_now a) n e p j d))" for n e p j
    using admin admin_insert [OF admin] by (auto simp: create_admin_def case_prod_unfold split: option.split)
  moreover have "has_admin (snd (http_create_user cr st fr fr' now m caller csrf p d0 d))" for fr fr' now m caller csrf p d0
  proof -
    have "has_admin (snd (create_user_with_temp_password cr fr now p d))"
      unfolding create_user_snd by (rule admin_insert [OF admin])
    then show ?thesis
      unfolding http_create_user_def
      by (intro admin_guarded [OF admin]) (simp add: case_prod_unfold send_account_setup_email_def split: sum.split)
  qed
  moreover have "has_admin (snd (change_status admin i s d))" for admin i s
    using ok assms(2) by (intro admin_change_status) (simp_all add: identity_ok_def users_ok_def)
  ultimately show ?thesis
    using admin unfolding serve_def Let_def
    by (cases "ar_request a")
      (simp_all add: http_login_def http_refresh_def http_logout_def http_change_password_def http_forgot_password_def
        http_reset_password_def http_update_user_def http_update_status_def http_update_jurisdiction_def
        http_revoke_sessions_def http_delete_user_def rename_user_def set_jurisdiction_def admin_guarded admin_update
        clear_sessions_def case_prod_unfold)
qed

text \<open>
  C18: the administrators cannot lock everyone out. While there is an active administrator, every
  request leaves one, also when two administrators suspend each other at the same time: the
  authorization of a request may be older than the tables its handler changes.
\<close>

theorem admins_never_locked_out:
  assumes "identity_ok d" and "has_admin d" and "all_fresh cr st as d"
  shows "has_admin (serve_all cr st as d)"
proof -
  have "identity_ok (serve_all cr st as d) \<and> has_admin (serve_all cr st as d)"
    by (rule serve_all_induct [where I = "\<lambda>d. identity_ok d \<and> has_admin d" and P = "\<lambda>_. True"])
      (use assms in \<open>simp_all add: ok_serve admin_serve list_all_iff\<close>)
  then show ?thesis by simp
qed


section \<open>Witnesses\<close>

text \<open>
  A history: the first administrator is created, signs in, rotates the session and creates a user,
  who resets the password with the token of the setup message.
\<close>

definition plain_crypto :: crypto where
  "plain_crypto = \<lparr>cr_digest = \<lambda>t. t, cr_hash = \<lambda>salt p. p, cr_verify = \<lambda>p h. p = h, cr_sign = \<lambda>c. ac_sub c\<rparr>"

definition settings1 :: identity_settings where
  "settings1 = \<lparr>is_public_key = ''public'', is_algorithm = ''RS256'', is_issuer = ''https://id.example'',
     is_audience = ''services'', is_access_minutes = 15, is_refresh_days = 7, is_reset_minutes = 30\<rparr>"

definition draw :: "string \<Rightarrow> fresh" where
  "draw x = \<lparr>fr_id = ''id'' @ x, fr_family = ''family'' @ x, fr_token = ''token'' @ x, fr_csrf = ''csrf'' @ x,
     fr_salt = ''salt'' @ x, fr_jti = ''jti'' @ x, fr_password = ''temporary'' @ x\<rparr>"

definition no_identity :: identity_db where
  "no_identity = \<lparr>users = [], sessions = [], resets = []\<rparr>"

definition arrival1 :: "string \<Rightarrow> string \<Rightarrow> instant \<Rightarrow> identity_request \<Rightarrow> arrival" where
  "arrival1 x y t rq = \<lparr>ar_fresh = draw x, ar_fresh2 = draw y, ar_now = t, ar_seen = no_identity, ar_request = rq\<rparr>"

definition history :: "arrival list" where
  "history = [arrival1 ''a'' ''b'' 0 (CreateAdmin ''Ana'' ''Ana@example.com'' ''pw'' ES),
     arrival1 ''c'' ''d'' 1 (Login ''ana@EXAMPLE.com'' ''pw''),
     arrival1 ''e'' ''f'' 2 (Refresh True (Some ''tokenc'')),
     (arrival1 ''g'' ''h'' 3 (CreateUser True (Some ''ida'') True
        \<lparr>uc_name = ''Bo'', uc_email = ''bo@example.com'', uc_jurisdiction = US\<rparr>))
      \<lparr>ar_seen := serve_all plain_crypto settings1
        [arrival1 ''a'' ''b'' 0 (CreateAdmin ''Ana'' ''ana@example.com'' ''pw'' ES)] no_identity\<rparr>]"

definition served1 :: identity_db where
  "served1 = serve_all plain_crypto settings1 history no_identity"

lemma no_identity_ok: "identity_ok no_identity"
  by (simp add: no_identity_def identity_ok_def users_ok_def sessions_ok_def resets_ok_def one_live_def named_families_def
      families_ok_def live_active_def live_def one_open_def open_reset_def)

lemma history_fresh: "all_fresh plain_crypto settings1 history no_identity"
  by code_simp

lemma served1_ok: "identity_ok served1"
proof -
  have "list_all keeps_sessions history" by (simp add: history_def arrival1_def keeps_sessions_def)
  from serve_all_keeps [where J = "\<lambda>_. True", OF no_identity_ok TrueI history_fresh this] show ?thesis
    by (simp add: served1_def)
qed

lemma identity_invariant_witness: "identity_ok served1 \<and> length (users served1) = 2 \<and>
    map ss_revoked (sessions served1) = [True, False] \<and> length (resets served1) = 1"
proof -
  have "identity_ok served1" unfolding served1_def by (rule identity_invariant [OF no_identity_ok history_fresh])
  moreover have "length (users served1) = 2 \<and> map ss_revoked (sessions served1) = [True, False] \<and> length (resets served1) = 1"
    by code_simp
  ultimately show ?thesis by simp
qed

text \<open>The rotated token is presented again, and its owner signs in afterwards.\<close>

lemma refresh_reuse_kills_family_witness:
  "\<not> family_live ''familyc'' (serve_all plain_crypto settings1 [arrival1 ''k'' ''l'' 5 (Login ''ana@example.com'' ''pw'')]
     (snd (refresh_session plain_crypto settings1 (draw ''i'') 4 ''tokenc'' served1)))"
proof -
  let ?s = "hd (sessions served1)"
  let ?x = "refresh_session plain_crypto settings1 (draw ''i'') 4 ''tokenc'' (serve_all plain_crypto settings1 [] served1)"
  have s: "?s \<in> set (sessions served1)" "ss_revoked ?s" "ss_digest ?s = cr_digest plain_crypto ''tokenc''"
    "ss_family ?s = ''familyc''" by code_simp+
  have "all_fresh plain_crypto settings1 [arrival1 ''k'' ''l'' 5 (Login ''ana@example.com'' ''pw'')] (snd ?x)" by code_simp
  from refresh_reuse_kills_family [OF served1_ok s(1-3), of settings1 "[]", OF _ _ _ this, of "draw ''i''" 4 "fst ?x"]
  show ?thesis using s(4) by (simp add: keeps_sessions_def arrival1_def)
qed

lemma refresh_rotates_witness:
  "\<exists>t d'. refresh_session plain_crypto settings1 (draw ''i'') 4 ''tokene'' served1 = (Inr t, d') \<and>
     tk_access t = ''ida'' \<and> tk_refresh t = ''tokeni''"
proof -
  let ?s = "last (sessions served1)" and ?u = "hd (users served1)"
  have "?s \<in> set (sessions served1)" "\<not> ss_revoked ?s" "ss_digest ?s = cr_digest plain_crypto ''tokene''"
    "4 < ss_expires_at ?s" "find_user (ss_user ?s) served1 = Some ?u" by code_simp+
  from refresh_rotates [OF served1_ok this, of settings1 "draw ''i''"]
  obtain t d' where "refresh_session plain_crypto settings1 (draw ''i'') 4 ''tokene'' served1 = (Inr t, d')"
    "tk_access t = cr_sign plain_crypto (build_access_claims settings1 (draw ''i'') 4 ?u)"
    "tk_refresh t = fr_token (draw ''i'')" by blast
  moreover have "us_id ?u = ''ida''" by code_simp
  ultimately show ?thesis by (auto simp: plain_crypto_def build_access_claims_def draw_def)
qed

lemma reset_password_once_witness:
  "fst (reset_password plain_crypto (draw ''n'') 6 ''tokenh'' ''third''
     (serve_all plain_crypto settings1 [arrival1 ''k'' ''l'' 5 (Login ''bo@example.com'' ''second'')]
       (snd (reset_password plain_crypto (draw ''i'') 4 ''tokenh'' ''second'' served1)))) = Inl PasswordResetError"
proof -
  let ?x = "reset_password plain_crypto (draw ''i'') 4 ''tokenh'' ''second'' served1"
  have first: "?x = (Inr (), snd ?x)" by (rule prod_eqI) (simp_all, code_simp)
  have later: "all_fresh plain_crypto settings1 [arrival1 ''k'' ''l'' 5 (Login ''bo@example.com'' ''second'')] (snd ?x)"
    by code_simp
  from reset_password_once [OF served1_ok first later, of "draw ''n''" 6 "''third''"]
  show ?thesis by (auto simp: keeps_sessions_def arrival1_def)
qed

lemma admins_never_locked_out_witness:
  "has_admin (serve_all plain_crypto settings1
     [(arrival1 ''i'' ''j'' 5 (UpdateStatus (Some ''ida'') True ''ida'' Suspended))\<lparr>ar_seen := served1\<rparr>,
      (arrival1 ''k'' ''l'' 6 (DeleteUser (Some ''ida'') True ''idg''))\<lparr>ar_seen := served1\<rparr>] served1)"
proof -
  have "has_admin served1" by code_simp
  then show ?thesis by (rule admins_never_locked_out [OF served1_ok]) code_simp
qed

end
