(* ===== verification/AccessTokens.thy ===== *)
theory AccessTokens
  imports IdentitySystem
begin

text \<open>
  From the identity service to the services that verify: the claims \<open>build_access_claims\<close>
  (\<open>security.py\<close>) puts into an access token, and what \<open>authenticate_request\<close> makes of them.
\<close>

section \<open>The claims as JSON\<close>

fun role_text :: "role \<Rightarrow> string" where
  "role_text Admin = ''admin''"
| "role_text User = ''user''"

fun status_text :: "account_status \<Rightarrow> string" where
  "status_text Active = ''active''"
| "status_text Suspended = ''suspended''"
| "status_text Disabled = ''disabled''"

fun jurisdiction_text :: "jurisdiction \<Rightarrow> string" where
  "jurisdiction_text US = ''US''"
| "jurisdiction_text ES = ''ES''"

definition claims_of :: "identity_settings \<Rightarrow> access_claims \<Rightarrow> claims" where
  "claims_of st c =
     [(''sub'', JStr (ac_sub c)), (''role'', JStr (role_text (ac_role c))), (''status'', JStr (status_text (ac_status c))),
      (''must_change_password'', JBool (ac_must_change c)), (''iss'', JStr (is_issuer st)), (''aud'', JStr (is_audience st)),
      (''iat'', JInt (ac_iat c)), (''exp'', JInt (ac_exp c)), (''jti'', JStr (ac_jti c)), (''token_type'', JStr ''access'')]
     @ (case ac_jurisdiction c of None \<Rightarrow> [] | Some j \<Rightarrow> [(''jurisdiction'', JStr (jurisdiction_text j))])"

text \<open>\<open>dependencies.py\<close>, \<open>verifier_config\<close>.\<close>

definition identity_verifier :: "identity_settings \<Rightarrow> verifier_config" where
  "identity_verifier st =
     \<lparr>vc_public_key = is_public_key st, vc_issuer = is_issuer st, vc_audience = is_audience st,
      vc_algorithm = is_algorithm st, vc_access_cookie = ACCESS_COOKIE_NAME, vc_csrf_cookie = CSRF_COOKIE_NAME,
      vc_csrf_header = CSRF_HEADER_NAME\<rparr>"

text \<open>The caller of a request to the identity service: the user of an access token that is accepted.\<close>

definition caller_of :: "jwt \<Rightarrow> instant \<Rightarrow> identity_settings \<Rightarrow> http_request \<Rightarrow> uuid option" where
  "caller_of jw now st r =
     (case authenticate_request jw now r (identity_verifier st) True of Inl _ \<Rightarrow> None | Inr p \<Rightarrow> Some (ap_user p))"

text \<open>
  What the library documents: a signed token names its algorithm, and it decodes to its claims under
  the matching key, issuer and audience until the second of its expiry.
\<close>

definition jwt_signs :: "jwt \<Rightarrow> crypto \<Rightarrow> identity_settings \<Rightarrow> bool" where
  "jwt_signs jw cr st \<longleftrightarrow> (\<forall>c. cr_sign cr c \<noteq> '''' \<and> jw_alg jw (cr_sign cr c) = Some (Some (JStr (is_algorithm st))) \<and>
     (\<forall>now. now div seconds 1 \<le> ac_exp c \<longrightarrow>
        jw_decode jw (cr_sign cr c) (is_public_key st) (is_algorithm st) (is_issuer st) (is_audience st) now =
          Some (claims_of st c)))"

section \<open>Round trip\<close>

lemma claims_complete: "\<not> lacks REQUIRED_CLAIMS (claims_of st c)"
  by (simp add: lacks_def REQUIRED_CLAIMS_def claims_of_def)

lemma claims_jurisdiction: "claim_jurisdiction (claims_of st c) = Inr (map_option jurisdiction_text (ac_jurisdiction c))"
proof (cases "ac_jurisdiction c")
  case (Some j) then show ?thesis by (cases j) (simp_all add: claim_jurisdiction_def claims_of_def)
qed (simp add: claim_jurisdiction_def claims_of_def)

definition principal_of :: "token_source \<Rightarrow> access_claims \<Rightarrow> principal" where
  "principal_of source c =
     \<lparr>ap_user = ac_sub c, ap_role = role_text (ac_role c), ap_status = status_text (ac_status c),
      ap_must_change = ac_must_change c, ap_token = ac_jti c, ap_source = source,
      ap_jurisdiction = map_option jurisdiction_text (ac_jurisdiction c)\<rparr>"

lemma authenticate_signed:
  assumes jw: "jwt_signs jw cr st" and st: "is_algorithm st = ''RS256''" "\<not> blank (is_public_key st)"
    and token: "extract_access_token r ACCESS_COOKIE_NAME = Inr (cr_sign cr c, source)" and time: "now div seconds 1 \<le> ac_exp c"
  shows "authenticate_request jw now r (identity_verifier st) allow =
    (if ac_status c \<noteq> Active then Inl not_authenticated
     else if ac_must_change c \<and> \<not> allow then Inl (forbidden ''Password change required'')
     else Inr (principal_of source c))"
proof -
  have "map_of (claims_of st c) ''token_type'' = Some (JStr ''access'')" by (simp add: claims_of_def)
  then have v: "verify_access_token jw now (cr_sign cr c) (identity_verifier st) = Inr (claims_of st c)"
    using jw st time claims_complete [of st c]
    by (simp add: verify_access_token_def identity_verifier_def jwt_signs_def blank_def)
  have get: "map_of (claims_of st c) ''status'' = Some (JStr (status_text (ac_status c)))"
    "map_of (claims_of st c) ''must_change_password'' = Some (JBool (ac_must_change c))"
    "map_of (claims_of st c) ''sub'' = Some (JStr (ac_sub c))" "map_of (claims_of st c) ''role'' = Some (JStr (role_text (ac_role c)))"
    "map_of (claims_of st c) ''jti'' = Some (JStr (ac_jti c))"
    by (simp_all add: claims_of_def)
  have active: "status_text s = ''active'' \<longleftrightarrow> s = Active" for s by (cases s) simp_all
  have cfg: "vc_access_cookie (identity_verifier st) = ACCESS_COOKIE_NAME" by (simp add: identity_verifier_def)
  show ?thesis
    unfolding authenticate_request_def cfg token
    by (simp add: v get active claims_jurisdiction claim_str_def principal_of_def)
qed

text \<open>
  C13: signing in and being recognized agree. The access token that a login returns, presented in its
  cookie before its expiry, makes the identity service answer \<open>/auth/me\<close> with the user who signed in,
  and every other service authenticate the principal with the id, role, status and jurisdiction of
  that user (or demand the change of a temporary password).
\<close>

theorem login_round_trip:
  assumes ok: "identity_ok d" and jw: "jwt_signs jw cr st" and st: "is_algorithm st = ''RS256''" "\<not> blank (is_public_key st)"
    and login: "login cr st fr now email password d = (Inr t, d')"
    and r: "request_cookie ACCESS_COOKIE_NAME r = tk_access t"
    and time: "now \<le> later" "later \<le> now + seconds (60 * is_access_minutes st)"
  shows "http_me (caller_of jw later st r) d' d' = (Inr (tk_user t), d') \<and>
    current_principal jw later (identity_verifier st) r =
      (if pu_must_change (tk_user t) then Inl (forbidden ''Password change required'')
       else Inr \<lparr>ap_user = pu_id (tk_user t), ap_role = role_text (pu_role (tk_user t)), ap_status = ''active'',
         ap_must_change = False, ap_token = fr_jti fr, ap_source = CookieToken,
         ap_jurisdiction = map_option jurisdiction_text (pu_jurisdiction (tk_user t))\<rparr>)"
proof -
  obtain u v d1 where u: "find_email email d = Some u" "us_status u = Active"
    and upd: "update_user (us_id u) (\<lambda>v. v\<lparr>us_last_login_at := Some now\<rparr>) d = (Some v, d1)"
    and issue: "issue_tokens cr st fr now v None None d1 = (t, d')"
    using login by (auto simp: login_def split: option.splits if_splits prod.splits)
  let ?c = "build_access_claims st fr now v"
  have t: "tk_access t = cr_sign cr ?c" "tk_user t = to_public_user v" and users: "users d' = users d1"
    using issue by (auto simp: issue_tokens_def issue_access_token_def)
  have v: "find_user (us_id u) d1 = Some v" "us_id v = us_id u"
    using upd find_user_Some [of "us_id u" d1 v] by (auto simp: update_user_def Let_def split: if_splits)
  have active: "us_status v = Active"
  proof -
    have uu: "u \<in> set (users d)" using u(1) by (auto simp: find_email_def find_Some_iff)
    have "v \<in> set (change_user (us_id u) (\<lambda>v. v\<lparr>us_last_login_at := Some now\<rparr>) (users d))"
      using find_user_Some [OF v(1)] update_user_db [OF upd] by simp
    then obtain w where w: "w \<in> set (users d)" "us_id w = us_id v" "us_status v = us_status w"
      by (auto simp: change_user_def split: if_splits)
    have "inj_on us_id (set (users d))" using ok by (simp add: identity_ok_def users_ok_def distinct_map)
    then have "w = u" using w(1,2) uu v(2) by (auto dest: inj_onD)
    with w(3) u(2) show ?thesis by simp
  qed
  have "extract_access_token r ACCESS_COOKIE_NAME = Inr (cr_sign cr ?c, CookieToken)"
    using jw r t by (simp add: extract_access_token_def jwt_signs_def)
  note auth = authenticate_signed [OF jw st this]
  have "later div seconds 1 \<le> ac_exp ?c"
    using time(2) by (simp add: build_access_claims_def zdiv_mono1)
  note auth = auth [OF this]
  have found: "find_user (us_id v) d' = Some v" using v users by (simp add: find_user_def)
  have me: "caller_of jw later st r = Some (us_id v)"
    using auth [of True] active by (simp add: caller_of_def build_access_claims_def principal_of_def)
  show ?thesis
    using auth [of False] active t found
    by (simp add: me http_me_def with_guard_def get_current_user_def current_principal_def build_access_claims_def
        principal_of_def to_public_user_def)
qed

section \<open>Witness\<close>

text \<open>A library and a signature that fit: a token spells its claims out, a letter before each character.\<close>

fun spell :: "string \<Rightarrow> string" where
  "spell [] = ''.''"
| "spell (c # s) = CHR ''x'' # c # spell s"

fun unspell :: "string \<Rightarrow> string \<times> string" where
  "unspell (m # c # s) = (if m = CHR ''x'' then (c # fst (unspell s), snd (unspell s)) else ([], c # s))"
| "unspell s = ([], [])"

lemma unspell_spell: "unspell (spell s @ r) = (s, r)"
proof (induction s)
  case Nil then show ?case by (cases r) simp_all
qed simp

definition tally :: "int \<Rightarrow> string" where
  "tally i = (if i < 0 then CHR ''-'' else CHR ''+'') # replicate (nat (abs i)) (CHR ''x'')"

definition untally :: "string \<Rightarrow> int" where
  "untally s = (if hd s = CHR ''-'' then - int (length s - 1) else int (length s - 1))"

lemma untally_tally: "untally (tally i) = i"
  by (simp add: tally_def untally_def)

definition flag :: "bool \<Rightarrow> string" where
  "flag b = (if b then ''1'' else ''0'')"

fun unspell_all :: "nat \<Rightarrow> string \<Rightarrow> string list" where
  "unspell_all 0 s = []"
| "unspell_all (Suc n) s = fst (unspell s) # unspell_all n (snd (unspell s))"

definition spelt_token :: "access_claims \<Rightarrow> string" where
  "spelt_token c = concat (map spell [ac_sub c, role_text (ac_role c), status_text (ac_status c), flag (ac_must_change c),
     tally (ac_iat c), tally (ac_exp c), ac_jti c, (case ac_jurisdiction c of None \<Rightarrow> [] | Some j \<Rightarrow> jurisdiction_text j)])"

definition spelt_claims :: "string \<Rightarrow> string \<Rightarrow> string list \<Rightarrow> claims" where
  "spelt_claims iss aud fs =
     [(''sub'', JStr (fs ! 0)), (''role'', JStr (fs ! 1)), (''status'', JStr (fs ! 2)),
      (''must_change_password'', JBool (fs ! 3 = ''1'')), (''iss'', JStr iss), (''aud'', JStr aud),
      (''iat'', JInt (untally (fs ! 4))), (''exp'', JInt (untally (fs ! 5))), (''jti'', JStr (fs ! 6)),
      (''token_type'', JStr ''access'')]
     @ (if fs ! 7 = '''' then [] else [(''jurisdiction'', JStr (fs ! 7))])"

definition spelling_jwt :: jwt where
  "spelling_jwt = \<lparr>jw_alg = \<lambda>token. Some (Some (JStr ''RS256'')),
     jw_claims = \<lambda>token. Some (spelt_claims '''' '''' (unspell_all 8 token)),
     jw_decode = \<lambda>token key alg iss aud now.
       (let fs = unspell_all 8 token in if now div seconds 1 \<le> untally (fs ! 5) then Some (spelt_claims iss aud fs) else None)\<rparr>"

definition spelling_crypto :: crypto where
  "spelling_crypto = plain_crypto\<lparr>cr_sign := spelt_token\<rparr>"

lemma spelling_signs: "is_algorithm st = ''RS256'' \<Longrightarrow> jwt_signs spelling_jwt spelling_crypto st"
proof -
  assume st: "is_algorithm st = ''RS256''"
  have fields: "unspell_all 8 (spelt_token c) = [ac_sub c, role_text (ac_role c), status_text (ac_status c), flag (ac_must_change c),
     tally (ac_iat c), tally (ac_exp c), ac_jti c, (case ac_jurisdiction c of None \<Rightarrow> [] | Some j \<Rightarrow> jurisdiction_text j)]" for c
    using unspell_spell [of _ "[]"] by (simp add: spelt_token_def unspell_spell numeral_eq_Suc del: unspell.simps)
  have "spelt_claims (is_issuer st) (is_audience st) (unspell_all 8 (spelt_token c)) = claims_of st c" for c
  proof (cases "ac_jurisdiction c")
    case None then show ?thesis by (simp add: fields spelt_claims_def claims_of_def untally_tally flag_def)
  next
    case (Some j) then show ?thesis
      by (cases j) (simp_all add: fields spelt_claims_def claims_of_def untally_tally flag_def)
  qed
  moreover have "spelt_token c \<noteq> ''''" for c by (cases "ac_sub c") (simp_all add: spelt_token_def)
  ultimately show ?thesis using st
    by (simp add: jwt_signs_def spelling_jwt_def spelling_crypto_def fields untally_tally)
qed

lemma login_round_trip_witness:
  "\<exists>t d'. login spelling_crypto settings1 (draw ''q'') 7 ''ana@example.com'' ''pw'' served1 = (Inr t, d') \<and>
     http_me (caller_of spelling_jwt (seconds 60) settings1 \<lparr>hr_method = ''GET'', hr_cookies = [(ACCESS_COOKIE_NAME, tk_access t)],
       hr_headers = []\<rparr>) d' d' = (Inr (tk_user t), d') \<and> pu_name (tk_user t) = ''Ana''"
proof -
  let ?l = "login spelling_crypto settings1 (draw ''q'') 7 ''ana@example.com'' ''pw'' served1"
  have "(case fst ?l of Inr t \<Rightarrow> pu_name (tk_user t) = ''Ana'' | Inl e \<Rightarrow> False)" by code_simp
  then obtain t where t: "?l = (Inr t, snd ?l)" "pu_name (tk_user t) = ''Ana''"
    by (cases "fst ?l") (auto simp: prod_eq_iff)
  have "jwt_signs spelling_jwt spelling_crypto settings1" by (rule spelling_signs) (simp add: settings1_def)
  moreover have "\<not> blank (is_public_key settings1)" "is_algorithm settings1 = ''RS256''" by code_simp+
  moreover have "(7::int) \<le> seconds 60" "seconds 60 \<le> 7 + seconds (60 * is_access_minutes settings1)"
    by (simp_all add: seconds_def settings1_def)
  ultimately have "http_me (caller_of spelling_jwt (seconds 60) settings1 \<lparr>hr_method = ''GET'',
      hr_cookies = [(ACCESS_COOKIE_NAME, tk_access t)], hr_headers = []\<rparr>) (snd ?l) (snd ?l) = (Inr (tk_user t), snd ?l)"
    using login_round_trip [OF served1_ok _ _ _ t(1)] by (simp add: request_cookie_def)
  with t show ?thesis by blast
qed

end
