(* ===== verification/OAuth.thy ===== *)
theory OAuth
  imports AccessTokens
begin

text \<open>
  The OAuth authorization server of the identity service (\<open>services/identity/identity/oauth.py\<close>, its
  tables in \<open>repository.py\<close>, its tokens in \<open>security.py\<close>, its endpoints in \<open>oauth_routes.py\<close>):
  registered clients, authorization codes with PKCE, client credentials and token exchange. The
  consent page, the JWKS document and the audit log are left out. PKCE's digest and the signature of
  the tokens join the cryptographic parameters.
\<close>

section \<open>Records\<close>

record oauth_client =
  oa_id :: uuid
  oa_name :: string
  oa_secret :: "string option"
  oa_redirects :: "string list"
  oa_grants :: "string list"
  oa_scopes :: "string list"
  oa_resources :: "string list"
  oa_sources :: "string list"
  oa_method :: string
  oa_active :: bool
  oa_created :: instant

record auth_code =
  cd_id :: uuid
  cd_digest :: string
  cd_client :: uuid
  cd_user :: uuid
  cd_role :: role
  cd_jurisdiction :: "jurisdiction option"
  cd_redirect :: string
  cd_scope :: string
  cd_resource :: string
  cd_challenge :: string
  cd_expires :: instant
  cd_used :: bool
  cd_created :: instant

record oauth_db =
  clients :: "oauth_client list"
  codes :: "auth_code list"

record oauth_claims =
  kc_sub :: string
  kc_client :: string
  kc_role :: string
  kc_scope :: string
  kc_iss :: string
  kc_aud :: string
  kc_iat :: int
  kc_exp :: int
  kc_jti :: string
  kc_actor :: "string option"
  kc_jurisdiction :: "string option"

record oauth_crypto = crypto +
  kr_pkce :: "string \<Rightarrow> string"
  kr_sign :: "oauth_claims \<Rightarrow> string"

record oauth_settings = identity_settings +
  os_issuer :: string
  os_token_minutes :: int
  os_code_minutes :: int
  os_registration :: bool
  os_production :: bool

record oauth_token =
  ot_access :: string
  ot_expires_in :: int
  ot_scope :: string

text \<open>An \<open>OAuthError\<close> with its status, or an exception the routes do not catch.\<close>

datatype oauth_error = OAuthError string string int | OAuthCrash

section \<open>Tables\<close>

definition add_code :: "auth_code \<Rightarrow> oauth_db \<Rightarrow> oauth_db" where
  "add_code c d = d\<lparr>codes := codes d @ [c]\<rparr>"

definition burn_codes :: "(auth_code \<Rightarrow> bool) \<Rightarrow> oauth_db \<Rightarrow> oauth_db" where
  "burn_codes P d = d\<lparr>codes := map (\<lambda>c. if P c then c\<lparr>cd_used := True\<rparr> else c) (codes d)\<rparr>"

interpretation cds: burnable codes cd_used "\<lambda>c. c\<lparr>cd_used := True\<rparr>" cd_digest add_code burn_codes
  by unfold_locales (simp_all add: add_code_def burn_codes_def)

text \<open>\<open>consume\<close>: the first unused code with the digest; it is marked before it is looked at.\<close>

definition consume :: "string \<Rightarrow> oauth_db \<Rightarrow> auth_code option \<times> oauth_db" where
  "consume h d =
     (case List.find (\<lambda>c. cd_digest c = h \<and> \<not> cd_used c) (codes d) of
        None \<Rightarrow> (None, d) | Some c \<Rightarrow> (Some c, burn_codes (\<lambda>x. cd_id x = cd_id c) d))"

definition cleanup_codes :: "instant \<Rightarrow> oauth_db \<Rightarrow> oauth_db" where
  "cleanup_codes now = burn_codes (\<lambda>c. \<not> cd_used c \<and> cd_expires c \<le> now)"

definition find_client :: "uuid \<Rightarrow> oauth_db \<Rightarrow> oauth_client option" where
  "find_client i d = List.find (\<lambda>c. oa_id c = i) (clients d)"

text \<open>None is the \<open>ValueError\<close> for an id that exists.\<close>

definition insert_oauth_client :: "oauth_client \<Rightarrow> oauth_db \<Rightarrow> oauth_client option \<times> oauth_db" where
  "insert_oauth_client c d =
     (if find_client (oa_id c) d \<noteq> None then (None, d) else (Some c, d\<lparr>clients := clients d @ [c]\<rparr>))"

section \<open>Scopes, PKCE and URIs\<close>

definition SUPPORTED_SCOPES :: "string list" where
  "SUPPORTED_SCOPES = [''mcp:connect'', ''incidents:read'', ''incidents:write'', ''inventory:read'']"

definition TOKEN_EXCHANGE_GRANT :: string where
  "TOKEN_EXCHANGE_GRANT = ''urn:ietf:params:oauth:grant-type:token-exchange''"

definition ACCESS_TOKEN_TYPE :: string where
  "ACCESS_TOKEN_TYPE = ''urn:ietf:params:oauth:token-type:access_token''"

definition alphanumeric :: "char \<Rightarrow> bool" where
  "alphanumeric c \<longleftrightarrow> CHR ''A'' \<le> c \<and> c \<le> CHR ''Z'' \<or> CHR ''a'' \<le> c \<and> c \<le> CHR ''z'' \<or> CHR ''0'' \<le> c \<and> c \<le> CHR ''9''"

definition PKCE_VALUE :: "string \<Rightarrow> bool" where
  "PKCE_VALUE s \<longleftrightarrow> 43 \<le> length s \<and> length s \<le> 128 \<and> list_all (\<lambda>c. alphanumeric c \<or> c \<in> set ''._~-'') s"

definition PKCE_CHALLENGE :: "string \<Rightarrow> bool" where
  "PKCE_CHALLENGE s \<longleftrightarrow> 43 \<le> length s \<and> length s \<le> 128 \<and> list_all (\<lambda>c. alphanumeric c \<or> c \<in> set ''_-'') s"

definition scopes_of :: "string \<Rightarrow> string set" where
  "scopes_of s = set (scope_words s)"

fun join_words :: "string list \<Rightarrow> string" where
  "join_words [] = ''''"
| "join_words [w] = w"
| "join_words (w # ws) = w @ '' '' @ join_words ws"

text \<open>
  \<open>urllib.parse.urlparse\<close>, for the parts that are read. Leading control characters and spaces, and
  tabs and line ends anywhere, are dropped; a scheme starts with a letter; None is the \<open>ValueError\<close>
  for a bracket without its partner.
\<close>

record url =
  ur_scheme :: string
  ur_netloc :: string
  ur_fragment :: string

definition url_clean :: "string \<Rightarrow> string" where
  "url_clean s = filter (\<lambda>c. c \<notin> {CHR 0x09, CHR 0x0A, CHR 0x0D}) (dropWhile (\<lambda>c. (of_char c :: nat) \<le> 32) s)"

definition scheme_char :: "char \<Rightarrow> bool" where
  "scheme_char c \<longleftrightarrow> alphanumeric c \<or> c \<in> set ''+-.''"

definition letter :: "char \<Rightarrow> bool" where
  "letter c \<longleftrightarrow> alphanumeric c \<and> \<not> (CHR ''0'' \<le> c \<and> c \<le> CHR ''9'')"

definition split_scheme :: "string \<Rightarrow> string \<times> string" where
  "split_scheme s =
     (let p = takeWhile (\<lambda>c. c \<noteq> CHR '':'') s in
      if length p < length s \<and> p \<noteq> '''' \<and> letter (hd p) \<and> list_all scheme_char p
      then (to_lower p, drop (Suc (length p)) s) else ('''', s))"

definition urlparse :: "string \<Rightarrow> url option" where
  "urlparse s =
     (case split_scheme (url_clean s) of (scheme, rest) \<Rightarrow>
        let authority = (if take 2 rest = ''//'' then takeWhile (\<lambda>c. c \<notin> set ''/?#'') (drop 2 rest) else '''') in
        if (CHR ''['' \<in> set authority) \<noteq> (CHR '']'' \<in> set authority) then None
        else Some \<lparr>ur_scheme = scheme, ur_netloc = authority,
          ur_fragment = drop 1 (dropWhile (\<lambda>c. c \<noteq> CHR ''#'') rest)\<rparr>)"

text \<open>\<open>hostname\<close>: without the user part, the brackets and the port, in lower case.\<close>

definition after_last_at :: "string \<Rightarrow> string" where
  "after_last_at s = rev (takeWhile (\<lambda>c. c \<noteq> CHR ''@'') (rev s))"

definition hostname :: "url \<Rightarrow> string" where
  "hostname u =
     (let h = after_last_at (ur_netloc u) in
      to_lower (if CHR ''['' \<in> set h then takeWhile (\<lambda>c. c \<noteq> CHR '']'') (drop 1 (dropWhile (\<lambda>c. c \<noteq> CHR ''['') h))
                else takeWhile (\<lambda>c. c \<noteq> CHR '':'') h))"

definition local_http :: "bool \<Rightarrow> url \<Rightarrow> bool" where
  "local_http production u \<longleftrightarrow> ur_scheme u = ''http'' \<and> hostname u \<in> {''localhost'', ''127.0.0.1''} \<and> \<not> production"


section \<open>Validation\<close>

definition require :: "bool \<Rightarrow> 'e \<Rightarrow> 'e + unit" where
  "require b e = (if b then Inr () else Inl e)"

definition validate_scopes :: "string set \<Rightarrow> oauth_error + unit" where
  "validate_scopes scopes =
     require (scopes \<noteq> {} \<and> scopes \<subseteq> set SUPPORTED_SCOPES)
       (OAuthError ''invalid_scope'' ''One or more requested scopes are not supported.'' 400)"

fun validate_redirects :: "bool \<Rightarrow> string list \<Rightarrow> oauth_error + unit" where
  "validate_redirects production [] = Inr ()"
| "validate_redirects production (uri # uris) =
     (case urlparse uri of
        None \<Rightarrow> Inl OAuthCrash
      | Some u \<Rightarrow>
          if ur_netloc u = '''' \<or> ur_fragment u \<noteq> '''' \<or> ur_scheme u \<noteq> ''https'' \<and> \<not> local_http production u
          then Inl (OAuthError ''invalid_redirect_uri'' ''Redirect URIs must use HTTPS or local HTTP.'' 400)
          else validate_redirects production uris)"

definition validate_redirect_uris :: "bool \<Rightarrow> string list \<Rightarrow> oauth_error + unit" where
  "validate_redirect_uris production uris =
     (if uris = [] then Inl (OAuthError ''invalid_redirect_uri'' ''At least one redirect URI is required.'' 400)
      else validate_redirects production uris)"

fun validate_each_resource :: "bool \<Rightarrow> string list \<Rightarrow> oauth_error + unit" where
  "validate_each_resource production [] = Inr ()"
| "validate_each_resource production (r # rs) =
     (case urlparse r of
        None \<Rightarrow> Inl OAuthCrash
      | Some u \<Rightarrow>
          if ur_netloc u = '''' \<or> ur_scheme u \<noteq> ''https'' \<and> \<not> local_http production u
          then Inl (OAuthError ''invalid_client_metadata'' ''Resource URIs must use HTTPS or local HTTP.'' 400)
          else validate_each_resource production rs)"

definition validate_resources :: "bool \<Rightarrow> string list \<Rightarrow> oauth_error + unit" where
  "validate_resources production rs =
     (if rs = [] then Inl (OAuthError ''invalid_client_metadata'' ''At least one resource URI is required.'' 400)
      else validate_each_resource production rs)"

definition require_client_scopes :: "oauth_client \<Rightarrow> string set \<Rightarrow> oauth_error + unit" where
  "require_client_scopes c requested =
     andAlso (validate_scopes requested) (\<lambda>_.
       require (requested \<subseteq> set (oa_scopes c)) (OAuthError ''invalid_scope'' ''One or more requested scopes are not allowed.'' 400))"

definition require_client_resource :: "oauth_client \<Rightarrow> string \<Rightarrow> oauth_error + unit" where
  "require_client_resource c resource =
     require (resource \<in> set (oa_resources c)) (OAuthError ''invalid_target'' ''The requested resource is not allowed.'' 400)"

definition invalid_client :: oauth_error where
  "invalid_client = OAuthError ''invalid_client'' ''Client authentication failed.'' 401"

definition active_client :: "uuid \<Rightarrow> oauth_db \<Rightarrow> oauth_error + oauth_client" where
  "active_client i d =
     (case find_client i d of None \<Rightarrow> Inl invalid_client | Some c \<Rightarrow> if oa_active c then Inr c else Inl invalid_client)"

definition authenticate_client ::
  "oauth_crypto \<Rightarrow> uuid \<Rightarrow> string option \<Rightarrow> string \<Rightarrow> oauth_db \<Rightarrow> oauth_error + oauth_client" where
  "authenticate_client cr i secret grant d =
     andAlso (active_client i d) (\<lambda>c.
       if grant \<notin> set (oa_grants c)
       then Inl (OAuthError ''unauthorized_client'' ''The client may not use this grant type.'' 403)
       else case oa_secret c of
           Some h \<Rightarrow> if coalesce secret '''' = '''' \<or> \<not> cr_verify cr (coalesce secret '''') h then Inl invalid_client else Inr c
         | None \<Rightarrow> if coalesce secret '''' \<noteq> '''' then Inl invalid_client else Inr c)"

definition validate_redirect_uri :: "uuid \<Rightarrow> string \<Rightarrow> oauth_db \<Rightarrow> oauth_error + oauth_client" where
  "validate_redirect_uri i uri d =
     andAlso (active_client i d) (\<lambda>c.
       if uri \<notin> set (oa_redirects c) then Inl (OAuthError ''invalid_request'' ''The redirect URI is not registered.'' 400)
       else Inr c)"

record authorization_request =
  ar_client :: uuid
  ar_redirect :: string
  ar_response_type :: string
  ar_scope :: string
  ar_resource :: string
  ar_challenge :: string
  ar_method :: string

definition validate_authorization_request :: "authorization_request \<Rightarrow> oauth_db \<Rightarrow> oauth_error + oauth_client" where
  "validate_authorization_request q d =
     andAlso (validate_redirect_uri (ar_client q) (ar_redirect q) d) (\<lambda>c.
       if ar_response_type q \<noteq> ''code'' \<or> ''authorization_code'' \<notin> set (oa_grants c)
       then Inl (OAuthError ''unsupported_response_type'' ''Only the authorization code flow is supported.'' 400)
       else andAlso (require_client_scopes c (scopes_of (ar_scope q))) (\<lambda>_.
         andAlso (require_client_resource c (ar_resource q)) (\<lambda>_.
           if ar_method q \<noteq> ''S256'' \<or> \<not> PKCE_CHALLENGE (ar_challenge q)
           then Inl (OAuthError ''invalid_request'' ''S256 PKCE is required.'' 400) else Inr c)))"

section \<open>Clients\<close>

definition client_result :: "oauth_client option \<times> oauth_db \<Rightarrow> (oauth_error + oauth_client) \<times> oauth_db" where
  "client_result r = (case r of (None, d) \<Rightarrow> (Inl OAuthCrash, d) | (Some c, d) \<Rightarrow> (Inr c, d))"

definition register_public_client ::
  "oauth_settings \<Rightarrow> fresh \<Rightarrow> instant \<Rightarrow> string \<Rightarrow> string list \<Rightarrow> string set \<Rightarrow> string list \<Rightarrow> oauth_db \<Rightarrow>
   (oauth_error + oauth_client) \<times> oauth_db" where
  "register_public_client st fr now name redirects scopes resources d =
     (if \<not> os_registration st
      then (Inl (OAuthError ''registration_not_supported'' ''Dynamic client registration is disabled.'' 403), d)
      else if blank name \<or> 160 < length name
      then (Inl (OAuthError ''invalid_client_metadata'' ''A valid client name is required.'' 400), d)
      else case andAlso (validate_redirect_uris (os_production st) redirects)
          (\<lambda>_. andAlso (validate_scopes scopes) (\<lambda>_. validate_resources (os_production st) resources)) of
        Inl e \<Rightarrow> (Inl e, d)
      | Inr _ \<Rightarrow> client_result (insert_oauth_client
          \<lparr>oa_id = fr_id fr, oa_name = name, oa_secret = None, oa_redirects = redirects, oa_grants = [''authorization_code''],
           oa_scopes = sorted_list_of_set scopes, oa_resources = resources, oa_sources = [], oa_method = ''none'',
           oa_active = True, oa_created = now\<rparr> d))"

definition register_confidential_client ::
  "oauth_crypto \<Rightarrow> oauth_settings \<Rightarrow> fresh \<Rightarrow> instant \<Rightarrow> string \<Rightarrow> string set \<Rightarrow> string set \<Rightarrow> string list \<Rightarrow> string list \<Rightarrow>
   oauth_db \<Rightarrow> (oauth_error + uuid \<times> string) \<times> oauth_db" where
  "register_confidential_client cr st fr now name grants scopes resources sources d =
     (case andAlso (validate_scopes scopes) (\<lambda>_. validate_resources (os_production st) resources) of
        Inl e \<Rightarrow> (Inl e, d)
      | Inr _ \<Rightarrow>
          if grants = {} \<or> \<not> grants \<subseteq> {''client_credentials'', TOKEN_EXCHANGE_GRANT}
          then (Inl (OAuthError ''invalid_client_metadata'' ''Unsupported confidential-client grant type.'' 400), d)
          else (case client_result (insert_oauth_client
              \<lparr>oa_id = fr_id fr, oa_name = name, oa_secret = Some (cr_hash cr (fr_salt fr) (fr_token fr)), oa_redirects = [],
               oa_grants = sorted_list_of_set grants, oa_scopes = sorted_list_of_set scopes, oa_resources = resources,
               oa_sources = sources, oa_method = ''client_secret_basic'', oa_active = True, oa_created = now\<rparr> d) of
            (Inl e, d') \<Rightarrow> (Inl e, d') | (Inr c, d') \<Rightarrow> (Inr (oa_id c, fr_token fr), d')))"

section \<open>Tokens\<close>

definition build_oauth_claims ::
  "oauth_settings \<Rightarrow> fresh \<Rightarrow> instant \<Rightarrow> string \<Rightarrow> uuid \<Rightarrow> string set \<Rightarrow> string \<Rightarrow> string \<Rightarrow> string option \<Rightarrow> string option \<Rightarrow>
   oauth_claims" where
  "build_oauth_claims st fr now subject client scopes audience r actor j =
     \<lparr>kc_sub = subject, kc_client = client, kc_role = r, kc_scope = join_words (sorted_list_of_set scopes),
      kc_iss = os_issuer st, kc_aud = audience, kc_iat = now div seconds 1,
      kc_exp = now div seconds 1 + os_token_minutes st * 60, kc_jti = fr_jti fr,
      kc_actor = (if coalesce actor '''' = '''' then None else actor),
      kc_jurisdiction = (if coalesce j '''' \<in> {''US'', ''ES''} then j else None)\<rparr>"

definition issue ::
  "oauth_crypto \<Rightarrow> oauth_settings \<Rightarrow> fresh \<Rightarrow> instant \<Rightarrow> string \<Rightarrow> uuid \<Rightarrow> string set \<Rightarrow> string \<Rightarrow> string \<Rightarrow> string option \<Rightarrow>
   string option \<Rightarrow> oauth_token" where
  "issue cr st fr now subject client scopes audience r actor j =
     \<lparr>ot_access = kr_sign cr (build_oauth_claims st fr now subject client scopes audience r actor j),
      ot_expires_in = os_token_minutes st * 60, ot_scope = join_words (sorted_list_of_set scopes)\<rparr>"

definition authorize ::
  "oauth_crypto \<Rightarrow> oauth_settings \<Rightarrow> fresh \<Rightarrow> instant \<Rightarrow> string \<Rightarrow> string \<Rightarrow> authorization_request \<Rightarrow> identity_db \<Rightarrow> oauth_db \<Rightarrow>
   (oauth_error + string) \<times> oauth_db" where
  "authorize cr st fr now email password q idb d =
     (case validate_authorization_request (q\<lparr>ar_response_type := ''code'', ar_method := ''S256''\<rparr>) d of
        Inl e \<Rightarrow> (Inl e, d)
      | Inr _ \<Rightarrow>
          (let denied = (Inl (OAuthError ''access_denied'' ''Authorization was denied.'' 401), d) in
           case find_email email idb of
             None \<Rightarrow> denied
           | Some u \<Rightarrow>
               if us_status u \<noteq> Active \<or> us_must_change u \<or> \<not> cr_verify cr password (us_hash u) then denied
               else (Inr (fr_token fr), add_code
                 \<lparr>cd_id = fr_id fr, cd_digest = cr_digest cr (fr_token fr), cd_client = ar_client q, cd_user = us_id u,
                  cd_role = us_role u, cd_jurisdiction = us_jurisdiction u, cd_redirect = ar_redirect q,
                  cd_scope = ar_scope q, cd_resource = ar_resource q, cd_challenge = ar_challenge q,
                  cd_expires = now + seconds (60 * os_code_minutes st), cd_used = False, cd_created = now\<rparr>
                 (cleanup_codes now d))))"

definition invalid_code :: oauth_error where
  "invalid_code = OAuthError ''invalid_grant'' ''The authorization code is invalid or expired.'' 400"

definition redeem ::
  "oauth_crypto \<Rightarrow> oauth_settings \<Rightarrow> fresh \<Rightarrow> instant \<Rightarrow> oauth_client \<Rightarrow> auth_code \<Rightarrow> string \<Rightarrow> string \<Rightarrow> oauth_error + oauth_token" where
  "redeem cr st fr now c code redirect_uri verifier =
     (if cd_expires code \<le> now then Inl invalid_code
      else if cd_client code \<noteq> oa_id c \<or> cd_redirect code \<noteq> redirect_uri then Inl invalid_code
      else if \<not> PKCE_VALUE verifier \<or> kr_pkce cr verifier \<noteq> cd_challenge code
      then Inl (OAuthError ''invalid_grant'' ''PKCE verification failed.'' 400)
      else andAlso (require_client_scopes c (scopes_of (cd_scope code))) (\<lambda>_.
        Inr (issue cr st fr now (cd_user code) (oa_id c) (scopes_of (cd_scope code)) (cd_resource code)
          (role_text (cd_role code)) None (map_option jurisdiction_text (cd_jurisdiction code)))))"

definition exchange_authorization_code ::
  "oauth_crypto \<Rightarrow> oauth_settings \<Rightarrow> fresh \<Rightarrow> instant \<Rightarrow> uuid \<Rightarrow> string option \<Rightarrow> string \<Rightarrow> string \<Rightarrow> string \<Rightarrow> oauth_db \<Rightarrow>
   (oauth_error + oauth_token) \<times> oauth_db" where
  "exchange_authorization_code cr st fr now i secret code redirect_uri verifier d =
     (case authenticate_client cr i secret ''authorization_code'' d of
        Inl e \<Rightarrow> (Inl e, d)
      | Inr c \<Rightarrow> (case consume (cr_digest cr code) d of
          (None, d') \<Rightarrow> (Inl invalid_code, d')
        | (Some row, d') \<Rightarrow> (redeem cr st fr now c row redirect_uri verifier, d')))"

definition client_credentials ::
  "oauth_crypto \<Rightarrow> oauth_settings \<Rightarrow> fresh \<Rightarrow> instant \<Rightarrow> uuid \<Rightarrow> string option \<Rightarrow> string \<Rightarrow> string \<Rightarrow> oauth_db \<Rightarrow>
   oauth_error + oauth_token" where
  "client_credentials cr st fr now i secret scope resource d =
     andAlso (authenticate_client cr i secret ''client_credentials'' d) (\<lambda>c.
       andAlso (require_client_scopes c (scopes_of scope)) (\<lambda>_.
         andAlso (require_client_resource c resource) (\<lambda>_.
           Inr (issue cr st fr now (''client:'' @ i) i (scopes_of scope) resource ''service'' None None))))"

record token_subject =
  ts_sub :: string
  ts_role :: string
  ts_client :: "json option"
  ts_jurisdiction :: "json option"
  ts_scopes :: "string set option"

definition invalid_subject :: oauth_error where
  "invalid_subject = OAuthError ''invalid_grant'' ''The subject token is invalid or expired.'' 400"

text \<open>\<open>claims["sub"]\<close> raises a \<open>KeyError\<close> when the claim is missing.\<close>

definition verify_subject_token ::
  "jwt \<Rightarrow> oauth_settings \<Rightarrow> instant \<Rightarrow> string \<Rightarrow> oauth_client \<Rightarrow> oauth_error + token_subject" where
  "verify_subject_token jw st now token c =
     (case jw_claims jw token of
        None \<Rightarrow> Inl invalid_subject
      | Some us \<Rightarrow> (case map_of us ''aud'' of
          Some (JStr audience) \<Rightarrow>
            (let issuer = json_str (get_claim us ''iss'' (JStr '''')) in
             if audience \<notin> set (oa_sources c)
             then Inl (OAuthError ''invalid_grant'' ''The subject token audience is not allowed.'' 400)
             else if issuer \<notin> {is_issuer st, os_issuer st}
             then Inl (OAuthError ''invalid_grant'' ''The subject token issuer is not allowed.'' 400)
             else case jw_decode jw token (is_public_key st) (is_algorithm st) issuer audience now of
                 None \<Rightarrow> Inl invalid_subject
               | Some cs \<Rightarrow>
                   if map_of cs ''token_type'' \<noteq> Some (JStr ''access'') \<or> get_claim cs ''status'' (JStr ''active'') \<noteq> JStr ''active'' \<or>
                     map_of cs ''must_change_password'' = Some (JBool True)
                   then Inl invalid_subject
                   else if map_of cs ''sub'' = None then Inl OAuthCrash
                   else Inr \<lparr>ts_sub = claim_str cs ''sub'', ts_role = json_str (get_claim cs ''role'' (JStr ''service'')),
                     ts_client = map_of cs ''client_id'', ts_jurisdiction = map_of cs ''jurisdiction'',
                     ts_scopes = (case map_of cs ''scope'' of Some (JStr s) \<Rightarrow> Some (scopes_of s) | _ \<Rightarrow> None)\<rparr>)
        | _ \<Rightarrow> Inl (OAuthError ''invalid_grant'' ''The subject token audience is not allowed.'' 400)))"

definition subject_actor :: "token_subject \<Rightarrow> string" where
  "subject_actor s =
     (case ts_client s of Some v \<Rightarrow> if truthy v then json_str v else ''trackflow-backoffice'' | None \<Rightarrow> ''trackflow-backoffice'')"

definition token_exchange ::
  "oauth_crypto \<Rightarrow> jwt \<Rightarrow> oauth_settings \<Rightarrow> fresh \<Rightarrow> instant \<Rightarrow> uuid \<Rightarrow> string option \<Rightarrow> string \<Rightarrow> string \<Rightarrow> string \<Rightarrow> oauth_db \<Rightarrow>
   oauth_error + oauth_token" where
  "token_exchange cr jw st fr now i secret subject_token scope resource d =
     andAlso (authenticate_client cr i secret TOKEN_EXCHANGE_GRANT d) (\<lambda>c.
       andAlso (require_client_scopes c (scopes_of scope)) (\<lambda>_.
         andAlso (require_client_resource c resource) (\<lambda>_.
           andAlso (verify_subject_token jw st now subject_token c) (\<lambda>s.
             if (case ts_scopes s of Some source \<Rightarrow> \<not> scopes_of scope \<subseteq> source | None \<Rightarrow> False)
             then Inl (OAuthError ''invalid_scope'' ''Token exchange may not increase scopes.'' 400)
             else case ts_jurisdiction s of
                 Some (JOther b t) \<Rightarrow> Inl OAuthCrash
               | j \<Rightarrow> Inr (issue cr st fr now (ts_sub s) i (scopes_of scope) resource (ts_role s) (Some (subject_actor s))
                   (case j of Some (JStr t) \<Rightarrow> Some t | _ \<Rightarrow> None))))))"


section \<open>Endpoints\<close>

text \<open>
  The answers: a JSON error, a redirect to a registered URI with its parameters (the state last, when
  there is one), the consent page with an alert, a token, or a registered client. \<open>OAuthCrash\<close>
  as an error is the framework's 500, but \<open>register\<close> catches it.
\<close>

datatype oauth_answer =
    Failure oauth_error
  | Redirect string "(string \<times> string) list"
  | ConsentPage "string option" int
  | Issued oauth_token
  | Registered oauth_client

definition redirect :: "string \<Rightarrow> string \<Rightarrow> (string \<times> string) list \<Rightarrow> oauth_answer" where
  "redirect uri state ps = Redirect uri (ps @ (if state = '''' then [] else [(''state'', state)]))"

definition authorization_error :: "authorization_request \<Rightarrow> string \<Rightarrow> oauth_error \<Rightarrow> oauth_db \<Rightarrow> oauth_answer" where
  "authorization_error q state e d =
     (case e of
        OAuthCrash \<Rightarrow> Failure OAuthCrash
      | OAuthError code description status \<Rightarrow> (case validate_redirect_uri (ar_client q) (ar_redirect q) d of
          Inl _ \<Rightarrow> Failure e
        | Inr _ \<Rightarrow> redirect (ar_redirect q) state [(''error'', code), (''error_description'', description)]))"

definition authorize_form :: "authorization_request \<Rightarrow> string \<Rightarrow> oauth_db \<Rightarrow> oauth_answer" where
  "authorize_form q state d =
     (case validate_authorization_request q d of Inl e \<Rightarrow> authorization_error q state e d | Inr _ \<Rightarrow> ConsentPage None 200)"

definition authorize_submit ::
  "oauth_crypto \<Rightarrow> oauth_settings \<Rightarrow> fresh \<Rightarrow> instant \<Rightarrow> string \<Rightarrow> string \<Rightarrow> string \<Rightarrow> authorization_request \<Rightarrow> string \<Rightarrow>
   identity_db \<Rightarrow> oauth_db \<Rightarrow> oauth_answer \<times> oauth_db" where
  "authorize_submit cr st fr now decision email password q state idb d =
     (case validate_authorization_request q d of
        Inl e \<Rightarrow> (authorization_error q state e d, d)
      | Inr _ \<Rightarrow>
          if decision \<noteq> ''approve''
          then (redirect (ar_redirect q) state
                  [(''error'', ''access_denied''), (''error_description'', ''The resource owner denied the request.'')], d)
          else (case authorize cr st fr now email password q idb d of
              (Inl (OAuthError code description status), d') \<Rightarrow>
                (if code = ''access_denied'' then ConsentPage (Some description) status
                 else Failure (OAuthError code description status), d')
            | (Inl OAuthCrash, d') \<Rightarrow> (Failure OAuthCrash, d')
            | (Inr code, d') \<Rightarrow> (redirect (ar_redirect q) state [(''code'', code)], d')))"

record token_form =
  tf_grant :: string
  tf_client :: string
  tf_secret :: "string option"
  tf_code :: string
  tf_redirect :: string
  tf_verifier :: string
  tf_subject :: string
  tf_subject_type :: string
  tf_scope :: string
  tf_resource :: string

text \<open>HTTP Basic credentials, already decoded, come before those of the form.\<close>

definition presented_client :: "(string \<times> string) option \<Rightarrow> token_form \<Rightarrow> string \<times> string option" where
  "presented_client basic f =
     (case basic of
        Some (i, secret) \<Rightarrow> if i \<noteq> '''' then (i, Some secret) else (tf_client f, tf_secret f)
      | None \<Rightarrow> (tf_client f, tf_secret f))"

definition token_endpoint ::
  "oauth_crypto \<Rightarrow> jwt \<Rightarrow> oauth_settings \<Rightarrow> fresh \<Rightarrow> instant \<Rightarrow> (string \<times> string) option \<Rightarrow> token_form \<Rightarrow> oauth_db \<Rightarrow>
   (oauth_error + oauth_token) \<times> oauth_db" where
  "token_endpoint cr jw st fr now basic f d =
     (case presented_client basic f of (i, secret) \<Rightarrow>
        if tf_grant f = ''authorization_code''
        then exchange_authorization_code cr st fr now i secret (tf_code f) (tf_redirect f) (tf_verifier f) d
        else if tf_grant f = ''client_credentials''
        then (client_credentials cr st fr now i secret (tf_scope f) (tf_resource f) d, d)
        else if tf_grant f = TOKEN_EXCHANGE_GRANT
        then if tf_subject_type f \<noteq> ACCESS_TOKEN_TYPE
          then (Inl (OAuthError ''invalid_request'' ''Only access-token subject tokens are supported.'' 400), d)
          else (token_exchange cr jw st fr now i secret (tf_subject f) (tf_scope f) (tf_resource f) d, d)
        else (Inl (OAuthError ''unsupported_grant_type'' ''The requested grant type is not supported.'' 400), d))"

definition token_route ::
  "oauth_crypto \<Rightarrow> jwt \<Rightarrow> oauth_settings \<Rightarrow> fresh \<Rightarrow> instant \<Rightarrow> (string \<times> string) option \<Rightarrow> token_form \<Rightarrow> oauth_db \<Rightarrow>
   oauth_answer \<times> oauth_db" where
  "token_route cr jw st fr now basic f d =
     (case token_endpoint cr jw st fr now basic f d of (Inl e, d') \<Rightarrow> (Failure e, d') | (Inr t, d') \<Rightarrow> (Issued t, d'))"

text \<open>\<open>str(...).split()\<close> splits at any white space.\<close>

definition split_white :: "string \<Rightarrow> string list" where
  "split_white s = scope_words (map (\<lambda>c. if c \<in> set py_space then CHR '' '' else c) s)"

definition register_route ::
  "oauth_settings \<Rightarrow> fresh \<Rightarrow> instant \<Rightarrow> string \<Rightarrow> string list \<Rightarrow> string \<Rightarrow> string list \<Rightarrow> oauth_db \<Rightarrow> oauth_answer \<times> oauth_db" where
  "register_route st fr now name redirects scope resources d =
     (case register_public_client st fr now name redirects (set (split_white scope)) resources d of
        (Inl OAuthCrash, d') \<Rightarrow>
          (Failure (OAuthError ''invalid_client_metadata'' ''The registration request is invalid.'' 400), d')
      | (Inl e, d') \<Rightarrow> (Failure e, d')
      | (Inr c, d') \<Rightarrow> (Registered c, d'))"

section \<open>Invariant\<close>

text \<open>
  Client ids and the ids and digests of codes are distinct, and a code was granted to a client for
  what that client has registered.
\<close>

definition clients_ok :: "oauth_db \<Rightarrow> bool" where
  "clients_ok d \<longleftrightarrow> distinct (map oa_id (clients d)) \<and>
     (\<forall>c\<in>set (clients d). oa_active c \<and> oa_scopes c \<noteq> [] \<and> set (oa_scopes c) \<subseteq> set SUPPORTED_SCOPES)"

definition granted :: "auth_code \<Rightarrow> oauth_client \<Rightarrow> bool" where
  "granted k c \<longleftrightarrow> oa_id c = cd_client k \<and> ''authorization_code'' \<in> set (oa_grants c) \<and> cd_redirect k \<in> set (oa_redirects c) \<and>
     cd_resource k \<in> set (oa_resources c) \<and> scopes_of (cd_scope k) \<subseteq> set (oa_scopes c)"

definition codes_ok :: "oauth_db \<Rightarrow> bool" where
  "codes_ok d \<longleftrightarrow> distinct (map cd_id (codes d)) \<and> distinct (map cd_digest (codes d)) \<and>
     (\<forall>k\<in>set (codes d). \<exists>c\<in>set (clients d). granted k c)"

definition oauth_ok :: "oauth_db \<Rightarrow> bool" where
  "oauth_ok d \<longleftrightarrow> clients_ok d \<and> codes_ok d"

definition fresh_oauth :: "oauth_crypto \<Rightarrow> fresh \<Rightarrow> oauth_db \<Rightarrow> bool" where
  "fresh_oauth cr fr d \<longleftrightarrow> fr_id fr \<notin> oa_id ` set (clients d) \<and> fr_id fr \<notin> cd_id ` set (codes d) \<and>
     cr_digest cr (fr_token fr) \<notin> cd_digest ` set (codes d)"

lemma andAlso_Inr [simp]: "andAlso r k = Inr v \<longleftrightarrow> (\<exists>x. r = Inr x \<and> k x = Inr v)"
  by (auto simp: andAlso_def split: sum.split)

lemma require_Inr [simp]: "require b e = Inr v \<longleftrightarrow> b"
  by (simp add: require_def)

lemma active_client_Inr: "active_client i d = Inr c \<Longrightarrow> c \<in> set (clients d) \<and> oa_id c = i \<and> oa_active c"
  by (auto simp: active_client_def find_client_def find_Some_iff split: option.splits if_splits)

lemma authenticate_client_Inr:
  "authenticate_client cr i secret grant d = Inr c \<Longrightarrow>
   c \<in> set (clients d) \<and> oa_id c = i \<and> oa_active c \<and> grant \<in> set (oa_grants c) \<and>
   (\<forall>h. oa_secret c = Some h \<longrightarrow> (\<exists>s. secret = Some s \<and> cr_verify cr s h))"
  by (cases secret) (auto simp: authenticate_client_def dest!: active_client_Inr split: if_splits option.splits)

lemma validated_Inr:
  "validate_authorization_request q d = Inr c \<Longrightarrow>
   c \<in> set (clients d) \<and> oa_id c = ar_client q \<and> ''authorization_code'' \<in> set (oa_grants c) \<and>
   ar_redirect q \<in> set (oa_redirects c) \<and> ar_resource q \<in> set (oa_resources c) \<and> scopes_of (ar_scope q) \<subseteq> set (oa_scopes c) \<and>
   PKCE_CHALLENGE (ar_challenge q)"
  by (auto simp: validate_authorization_request_def validate_redirect_uri_def require_client_scopes_def
      require_client_resource_def dest!: active_client_Inr split: if_splits)

lemma burn_codes_simps [simp]:
  "clients (burn_codes P d) = clients d" "clients (add_code c d) = clients d"
  "map cd_id (codes (burn_codes P d)) = map cd_id (codes d)"
  by (simp_all add: burn_codes_def add_code_def)

lemma granted_used [simp]: "granted (k\<lparr>cd_used := b\<rparr>) c = granted k c"
  by (simp add: granted_def)

lemma ok_burn: "oauth_ok d \<Longrightarrow> oauth_ok (burn_codes P d)"
proof -
  assume ok: "oauth_ok d"
  have "\<exists>c\<in>set (clients d). granted k c" if "k \<in> set (codes (burn_codes P d))" for k
    using that ok by (auto simp: oauth_ok_def codes_ok_def burn_codes_def split: if_splits)
  then show ?thesis
    using ok cds.keys_burn [of P d] burn_codes_simps(3) [of P d]
    unfolding oauth_ok_def clients_ok_def codes_ok_def burn_codes_simps by metis
qed


section \<open>Scopes as text\<close>

lemma split_spaces_word: "CHR '' '' \<notin> set w \<Longrightarrow> split_spaces p (w @ s) = split_spaces (rev w @ p) s"
  by (induction w arbitrary: p) auto

lemma split_words: "CHR '' '' \<notin> set p \<Longrightarrow> w \<in> set (split_spaces p s) \<Longrightarrow> CHR '' '' \<notin> set w"
  by (induction p s rule: split_spaces.induct) (auto split: if_splits)

lemma scope_words_join:
  "list_all (\<lambda>w. w \<noteq> '''' \<and> CHR '' '' \<notin> set w) ws \<Longrightarrow> scope_words (join_words ws) = ws"
proof (induction ws rule: join_words.induct)
  case (3 w v ws)
  then have "split_spaces [] (join_words (w # v # ws)) = w # split_spaces [] (join_words (v # ws))"
    using split_spaces_word [of w "[]" "'' '' @ join_words (v # ws)"] by simp
  with 3 show ?case by (simp add: scope_words_def)
qed (use split_spaces_word [of _ "[]" "[]"] in \<open>simp_all add: scope_words_def\<close>)

lemma scopes_join: "scopes_of (join_words (sorted_list_of_set (scopes_of s))) = scopes_of s"
proof -
  have "list_all (\<lambda>w. w \<noteq> '''' \<and> CHR '' '' \<notin> set w) (sorted_list_of_set (scopes_of s))"
    using split_words [of "[]" _ s] by (auto simp: list_all_iff scopes_of_def scope_words_def)
  then show ?thesis by (simp add: scopes_of_def [of "join_words _"] scope_words_join) (simp add: scopes_of_def)
qed

section \<open>Every request keeps the invariant\<close>

lemma ok_add_code:
  assumes "oauth_ok d" and "cd_id k \<notin> cd_id ` set (codes d)" and "cd_digest k \<notin> cd_digest ` set (codes d)"
    and "\<exists>c\<in>set (clients d). granted k c"
  shows "oauth_ok (add_code k d)"
  using assms by (auto simp: oauth_ok_def clients_ok_def codes_ok_def add_code_def)

lemma burnt_keys:
  "cd_id ` set (codes (burn_codes P d)) = cd_id ` set (codes d)"
  "cd_digest ` set (codes (burn_codes P d)) = cd_digest ` set (codes d)"
  by (metis (no_types) set_map burn_codes_simps(3)) (metis (no_types) set_map cds.keys_burn)

lemma ok_authorize:
  assumes ok: "oauth_ok d" and fr: "fresh_oauth cr fr d"
  shows "oauth_ok (snd (authorize cr st fr now email password q idb d))"
proof (cases "validate_authorization_request (q\<lparr>ar_response_type := ''code'', ar_method := ''S256''\<rparr>) d")
  case (Inl e) then show ?thesis using ok by (simp add: authorize_def)
next
  case (Inr c)
  from validated_Inr [OF this] have c: "c \<in> set (clients d)" "oa_id c = ar_client q" "''authorization_code'' \<in> set (oa_grants c)"
    "ar_redirect q \<in> set (oa_redirects c)" "ar_resource q \<in> set (oa_resources c)" "scopes_of (ar_scope q) \<subseteq> set (oa_scopes c)"
    by simp_all
  have "oauth_ok (add_code k (cleanup_codes now d))"
    if "cd_id k = fr_id fr" "cd_digest k = cr_digest cr (fr_token fr)" "granted k c" for k
    using that fr c(1) ok_burn [OF ok] unfolding cleanup_codes_def
    by (intro ok_add_code) (auto simp: burnt_keys fresh_oauth_def)
  with Inr c ok show ?thesis by (auto simp: authorize_def Let_def granted_def split: option.split)
qed

lemma ok_consume: "oauth_ok d \<Longrightarrow> oauth_ok (snd (consume h d))"
  by (simp add: consume_def ok_burn split: option.split)

lemma ok_exchange: "oauth_ok d \<Longrightarrow> oauth_ok (snd (exchange_authorization_code cr st fr now i secret code uri v d))"
  using ok_consume [of d "cr_digest cr code"]
  by (auto simp: exchange_authorization_code_def split: sum.split option.split prod.split)

lemma token_endpoint_db:
  "snd (token_endpoint cr jw st fr now basic f d) = d \<or>
   (\<exists>i secret. presented_client basic f = (i, secret) \<and> tf_grant f = ''authorization_code'' \<and>
      snd (token_endpoint cr jw st fr now basic f d) =
        snd (exchange_authorization_code cr st fr now i secret (tf_code f) (tf_redirect f) (tf_verifier f) d))"
  by (simp add: token_endpoint_def split: prod.split)

lemma token_route_db [simp]: "snd (token_route cr jw st fr now basic f d) = snd (token_endpoint cr jw st fr now basic f d)"
  by (simp add: token_route_def split: prod.split sum.split)

lemma insert_oauth_client_snd:
  "snd (insert_oauth_client c d) = (if oa_id c \<in> oa_id ` set (clients d) then d else d\<lparr>clients := clients d @ [c]\<rparr>)"
  by (auto simp: insert_oauth_client_def find_client_def find_None_iff image_iff split: option.split)

lemma ok_insert_oauth_client:
  assumes "oauth_ok d" and "oa_active c" "oa_scopes c \<noteq> []" "set (oa_scopes c) \<subseteq> set SUPPORTED_SCOPES"
  shows "oauth_ok (snd (insert_oauth_client c d))"
  using assms by (auto simp: insert_oauth_client_snd oauth_ok_def clients_ok_def codes_ok_def)

lemma valid_scopes_list:
  "validate_scopes s = Inr v \<Longrightarrow> sorted_list_of_set s \<noteq> [] \<and> set (sorted_list_of_set s) \<subseteq> set SUPPORTED_SCOPES"
proof -
  assume "validate_scopes s = Inr v"
  then have s: "s \<noteq> {}" "s \<subseteq> set SUPPORTED_SCOPES" by (simp_all add: validate_scopes_def)
  then have "finite s" by (metis finite_set finite_subset)
  with s show ?thesis by simp
qed

lemma client_result_db [simp]: "snd (client_result r) = snd r"
  by (auto simp: client_result_def split: prod.split option.split)

lemma ok_register_public:
  "oauth_ok d \<Longrightarrow> oauth_ok (snd (register_public_client st fr now name redirects scopes resources d))"
  by (auto simp: register_public_client_def split: sum.split intro!: ok_insert_oauth_client dest!: valid_scopes_list)

lemma register_confidential_db:
  "snd (case r of (Inl e, d') \<Rightarrow> (Inl e, d') | (Inr c, d') \<Rightarrow> (Inr (f c), d')) = snd r"
  by (simp split: prod.split sum.split)

lemma ok_register_confidential:
  "oauth_ok d \<Longrightarrow> oauth_ok (snd (register_confidential_client cr st fr now name grants scopes resources sources d))"
  by (auto simp: register_confidential_client_def register_confidential_db split: sum.split
      intro!: ok_insert_oauth_client dest!: valid_scopes_list)


section \<open>Requests\<close>

text \<open>
  The requests that can change the tables, with what they draw, their time and, for the consent form,
  the tables of users at that moment.
\<close>

datatype oauth_request =
    Consent string string string authorization_request string identity_db
  | TokenRequest "(string \<times> string) option" token_form
  | RegisterPublic string "string list" string "string list"
  | RegisterConfidential string "string set" "string set" "string list" "string list"

record oauth_arrival =
  oar_fresh :: fresh
  oar_now :: instant
  oar_request :: oauth_request

definition oauth_serve :: "oauth_crypto \<Rightarrow> jwt \<Rightarrow> oauth_settings \<Rightarrow> oauth_arrival \<Rightarrow> oauth_db \<Rightarrow> oauth_db" where
  "oauth_serve cr jw st a d =
     (let fr = oar_fresh a; now = oar_now a in
      case oar_request a of
        Consent decision email password q state idb \<Rightarrow> snd (authorize_submit cr st fr now decision email password q state idb d)
      | TokenRequest basic f \<Rightarrow> snd (token_route cr jw st fr now basic f d)
      | RegisterPublic name redirects scope resources \<Rightarrow> snd (register_route st fr now name redirects scope resources d)
      | RegisterConfidential name grants scopes resources sources \<Rightarrow>
          snd (register_confidential_client cr st fr now name grants scopes resources sources d))"

fun oauth_serve_all :: "oauth_crypto \<Rightarrow> jwt \<Rightarrow> oauth_settings \<Rightarrow> oauth_arrival list \<Rightarrow> oauth_db \<Rightarrow> oauth_db" where
  "oauth_serve_all cr jw st [] d = d"
| "oauth_serve_all cr jw st (a # as) d = oauth_serve_all cr jw st as (oauth_serve cr jw st a d)"

fun oauth_all_fresh :: "oauth_crypto \<Rightarrow> jwt \<Rightarrow> oauth_settings \<Rightarrow> oauth_arrival list \<Rightarrow> oauth_db \<Rightarrow> bool" where
  "oauth_all_fresh cr jw st [] d \<longleftrightarrow> True"
| "oauth_all_fresh cr jw st (a # as) d \<longleftrightarrow>
     fresh_oauth cr (oar_fresh a) d \<and> oauth_all_fresh cr jw st as (oauth_serve cr jw st a d)"

lemma authorize_submit_db:
  "snd (authorize_submit cr st fr now decision email password q state idb d) = d \<or>
   snd (authorize_submit cr st fr now decision email password q state idb d) = snd (authorize cr st fr now email password q idb d)"
  by (auto simp: authorize_submit_def split: sum.split prod.split oauth_error.split)

lemma register_route_db [simp]:
  "snd (register_route st fr now name redirects scope resources d) =
   snd (register_public_client st fr now name redirects (set (split_white scope)) resources d)"
  by (auto simp: register_route_def split: sum.split prod.split oauth_error.split)

lemma ok_oauth_serve:
  assumes ok: "oauth_ok d" and fr: "fresh_oauth cr (oar_fresh a) d"
  shows "oauth_ok (oauth_serve cr jw st a d)"
proof (cases "oar_request a")
  case (Consent decision email password q state idb)
  then show ?thesis
    using ok_authorize [OF ok fr] ok authorize_submit_db [of cr st "oar_fresh a" "oar_now a" decision email password q state idb d]
    by (auto simp: oauth_serve_def)
next
  case (TokenRequest basic f)
  then show ?thesis
    using token_endpoint_db [of cr jw st "oar_fresh a" "oar_now a" basic f d] ok ok_exchange [OF ok]
    by (auto simp: oauth_serve_def)
qed (simp_all add: oauth_serve_def ok_register_public [OF ok] ok_register_confidential [OF ok])

text \<open>A used code stays, and stays used.\<close>

definition keeps_used :: "oauth_db \<Rightarrow> oauth_db \<Rightarrow> bool" where
  "keeps_used d d' \<longleftrightarrow> (\<forall>k\<in>set (codes d). cd_used k \<longrightarrow> k \<in> set (codes d'))"

lemma keeps_used_refl [simp]: "keeps_used d d"
  by (simp add: keeps_used_def)

lemma keeps_used_burn: "keeps_used d (burn_codes P d)"
  using cds.dead_burn [of _ d P] by (force simp: keeps_used_def)

lemma keeps_used_consume: "keeps_used d (snd (consume h d))"
  by (simp add: consume_def keeps_used_burn split: option.split)

lemma keeps_used_serve: "keeps_used d (oauth_serve cr jw st a d)"
proof (cases "oar_request a")
  case (Consent decision email password q state idb)
  have "keeps_used d (snd (authorize cr st fr now email password q idb d))" for fr now
    using keeps_used_burn [of d "\<lambda>c. \<not> cd_used c \<and> cd_expires c \<le> now"]
    by (auto simp: authorize_def Let_def keeps_used_def add_code_def cleanup_codes_def split: sum.split option.split)
  then show ?thesis
    using Consent authorize_submit_db [of cr st "oar_fresh a" "oar_now a" decision email password q state idb d]
    by (auto simp: oauth_serve_def)
next
  case (TokenRequest basic f)
  have "keeps_used d (snd (exchange_authorization_code cr st fr now i secret code uri v d))" for fr now i secret code uri v
    using keeps_used_consume [of d "cr_digest cr code"]
    by (auto simp: exchange_authorization_code_def split: sum.split option.split prod.split)
  then show ?thesis
    using TokenRequest token_endpoint_db [of cr jw st "oar_fresh a" "oar_now a" basic f d]
    by (auto simp: oauth_serve_def)
next
  case (RegisterPublic name redirects scope resources)
  then show ?thesis
    by (auto simp: oauth_serve_def Let_def register_public_client_def insert_oauth_client_snd keeps_used_def split: sum.split)
next
  case (RegisterConfidential name grants scopes resources sources)
  then show ?thesis
    by (auto simp: oauth_serve_def Let_def register_confidential_client_def register_confidential_db insert_oauth_client_snd keeps_used_def
        split: sum.split)
qed

lemma used_for_good:
  assumes "oauth_ok d" and "k \<in> set (codes d)" "cd_used k" and "oauth_all_fresh cr jw st as d"
  shows "oauth_ok (oauth_serve_all cr jw st as d) \<and> k \<in> set (codes (oauth_serve_all cr jw st as d))"
  using assms
proof (induction as arbitrary: d)
  case (Cons a as)
  then have "oauth_ok (oauth_serve cr jw st a d)" "k \<in> set (codes (oauth_serve cr jw st a d))"
    using ok_oauth_serve keeps_used_serve [of d cr jw st a] by (auto simp: keeps_used_def)
  with Cons show ?case by simp
qed simp

lemma consume_used:
  assumes "oauth_ok d" and "k \<in> set (codes d)" "cd_used k" "cd_digest k = h"
  shows "consume h d = (None, d)"
proof -
  have "inj_on cd_digest (set (codes d))" using assms(1) by (simp add: oauth_ok_def codes_ok_def distinct_map)
  then have "List.find (\<lambda>c. cd_digest c = h \<and> \<not> cd_used c) (codes d) = None"
    using assms(2-4) by (auto simp: find_None_iff dest: inj_onD)
  then show ?thesis by (simp add: consume_def)
qed


section \<open>Properties\<close>

lemma consume_Some:
  assumes "consume h d = (Some k, d')"
  shows "k \<in> set (codes d) \<and> cd_digest k = h \<and> \<not> cd_used k \<and> k\<lparr>cd_used := True\<rparr> \<in> set (codes d') \<and>
    d' = burn_codes (\<lambda>x. cd_id x = cd_id k) d"
proof -
  from assms have k: "k \<in> set (codes d)" "cd_digest k = h" "\<not> cd_used k" "d' = burn_codes (\<lambda>x. cd_id x = cd_id k) d"
    by (auto simp: consume_def find_Some_iff split: option.splits)
  moreover have "k\<lparr>cd_used := True\<rparr> \<in> set (codes d')" using k by (force simp: burn_codes_def)
  ultimately show ?thesis by simp
qed

lemma redeem_Inr:
  assumes "redeem cr st fr now c k uri v = Inr t"
  shows "now < cd_expires k \<and> cd_client k = oa_id c \<and> cd_redirect k = uri \<and> PKCE_VALUE v \<and> kr_pkce cr v = cd_challenge k \<and>
    scopes_of (cd_scope k) \<subseteq> set (oa_scopes c) \<and> scopes_of (cd_scope k) \<noteq> {} \<and>
    t = issue cr st fr now (cd_user k) (oa_id c) (scopes_of (cd_scope k)) (cd_resource k) (role_text (cd_role k)) None
      (map_option jurisdiction_text (cd_jurisdiction k))"
  using assms by (auto simp: redeem_def require_client_scopes_def validate_scopes_def split: if_splits)

text \<open>
  C12: an authorization code is worth one attempt. When a client that authenticates presents a code, the
  code is burnt: no later request, of any client and with any verifier, is given a token for it. A
  token is given only for an unexpired code of that client, with the redirect URI it was granted for
  and a verifier whose S256 digest is the challenge of the authorization.
\<close>

theorem authorization_code_once:
  assumes ok: "oauth_ok d" and known: "cr_digest cr code \<in> cd_digest ` set (codes d)"
    and client: "authenticate_client cr i secret ''authorization_code'' d = Inr c"
    and first: "exchange_authorization_code cr st fr now i secret code uri v d = (r, d1)"
    and later: "oauth_all_fresh cr jw st as d1"
  shows "(\<not> isl r \<longrightarrow> (\<exists>k\<in>set (codes d). cd_digest k = cr_digest cr code \<and> \<not> cd_used k \<and> now < cd_expires k \<and>
      cd_client k = i \<and> cd_redirect k = uri \<and> PKCE_VALUE v \<and> kr_pkce cr v = cd_challenge k)) \<and>
    isl (fst (exchange_authorization_code cr st fr' now' i' secret' code uri' v' (oauth_serve_all cr jw st as d1)))"
proof -
  obtain k d' where con: "consume (cr_digest cr code) d = (k, d')" by fastforce
  have d1: "d1 = d'" using first client con by (simp add: exchange_authorization_code_def split: option.splits)
  have ok1: "oauth_ok d1" using ok_exchange [OF ok, of cr st fr now i secret code uri v] first by simp
  have "\<exists>x\<in>set (codes d1). cd_used x \<and> cd_digest x = cr_digest cr code"
  proof (cases k)
    case (Some x)
    from consume_Some [OF con [unfolded Some]]
    have "x\<lparr>cd_used := True\<rparr> \<in> set (codes d')" "cd_digest x = cr_digest cr code" by blast+
    then show ?thesis unfolding d1 by (intro bexI [of _ "x\<lparr>cd_used := True\<rparr>"]) simp_all
  next
    case None
    then have "d1 = d" "\<forall>x\<in>set (codes d). cd_digest x = cr_digest cr code \<longrightarrow> cd_used x"
      using con d1 by (auto simp: consume_def find_None_iff split: option.splits)
    with known show ?thesis by force
  qed
  then obtain x where x: "x \<in> set (codes d1)" "cd_used x" "cd_digest x = cr_digest cr code" by blast
  from used_for_good [OF ok1 x(1,2) later] consume_used [OF _ _ x(2,3)]
  have "consume (cr_digest cr code) (oauth_serve_all cr jw st as d1) = (None, oauth_serve_all cr jw st as d1)" by blast
  then have last: "isl (fst (exchange_authorization_code cr st fr' now' i' secret' code uri' v' (oauth_serve_all cr jw st as d1)))"
    by (simp add: exchange_authorization_code_def split: sum.split)
  have "\<exists>k\<in>set (codes d). cd_digest k = cr_digest cr code \<and> \<not> cd_used k \<and> now < cd_expires k \<and>
      cd_client k = i \<and> cd_redirect k = uri \<and> PKCE_VALUE v \<and> kr_pkce cr v = cd_challenge k" if "\<not> isl r"
  proof -
    obtain x t where x: "k = Some x" "redeem cr st fr now c x uri v = Inr t"
      using \<open>\<not> isl r\<close> first client con
      by (cases r; cases k) (auto simp: exchange_authorization_code_def)
    show ?thesis
      using consume_Some [OF con [unfolded x(1)]] redeem_Inr [OF x(2)] authenticate_client_Inr [OF client]
      by (intro bexI [of _ x]) simp_all
  qed
  with last show ?thesis by blast
qed

lemma scopes_granted:
  assumes "require_client_scopes c s = Inr v"
  shows "s \<noteq> {} \<and> s \<subseteq> set SUPPORTED_SCOPES \<and> s \<subseteq> set (oa_scopes c)"
  using assms by (simp add: require_client_scopes_def validate_scopes_def)

lemma exchanged:
  assumes "token_exchange cr jw st fr now i secret subject_token scope resource d = Inr t"
  shows "\<exists>c v s j. authenticate_client cr i secret TOKEN_EXCHANGE_GRANT d = Inr c \<and>
    require_client_scopes c (scopes_of scope) = Inr v \<and> resource \<in> set (oa_resources c) \<and>
    verify_subject_token jw st now subject_token c = Inr s \<and>
    (\<forall>source. ts_scopes s = Some source \<longrightarrow> scopes_of scope \<subseteq> source) \<and>
    t = issue cr st fr now (ts_sub s) i (scopes_of scope) resource (ts_role s) (Some (subject_actor s)) j"
proof -
  obtain c s where c: "authenticate_client cr i secret TOKEN_EXCHANGE_GRANT d = Inr c"
    "require_client_scopes c (scopes_of scope) = Inr ()" "resource \<in> set (oa_resources c)"
    "verify_subject_token jw st now subject_token c = Inr s"
    and rest: "(if (case ts_scopes s of Some source \<Rightarrow> \<not> scopes_of scope \<subseteq> source | None \<Rightarrow> False)
       then Inl (OAuthError ''invalid_scope'' ''Token exchange may not increase scopes.'' 400)
       else case ts_jurisdiction s of
           Some (JOther b t) \<Rightarrow> Inl OAuthCrash
         | j \<Rightarrow> Inr (issue cr st fr now (ts_sub s) i (scopes_of scope) resource (ts_role s) (Some (subject_actor s))
             (case j of Some (JStr t) \<Rightarrow> Some t | _ \<Rightarrow> None))) = Inr t"
    using assms by (auto simp: token_exchange_def require_client_resource_def)
  have "\<exists>j. t = issue cr st fr now (ts_sub s) i (scopes_of scope) resource (ts_role s) (Some (subject_actor s)) j"
    using rest by (auto split: if_splits option.splits json.splits)
  moreover have "\<forall>source. ts_scopes s = Some source \<longrightarrow> scopes_of scope \<subseteq> source"
    using rest by (auto split: if_splits)
  ultimately show ?thesis using c by blast
qed

lemma issued_claims:
  "\<exists>cl. ot_access (issue cr st fr now sub i (scopes_of s) aud r actor j) = kr_sign cr cl \<and> kc_client cl = i \<and> kc_sub cl = sub \<and>
     kc_aud cl = aud \<and> scopes_of (kc_scope cl) = scopes_of s \<and> kc_exp cl = kc_iat cl + 60 * os_token_minutes st"
  by (rule exI [of _ "build_oauth_claims st fr now sub i (scopes_of s) aud r actor j"])
    (simp add: issue_def build_oauth_claims_def scopes_join)



section \<open>Witnesses\<close>

text \<open>A client registers, Ana approves, and the code is exchanged; then for a service account.\<close>

definition plain_oauth :: oauth_crypto where
  "plain_oauth = \<lparr>cr_digest = \<lambda>t. t, cr_hash = \<lambda>salt p. p, cr_verify = \<lambda>p h. p = h, cr_sign = \<lambda>c. ac_sub c,
     kr_pkce = \<lambda>v. v, kr_sign = \<lambda>c. kc_sub c @ ''|'' @ kc_aud c @ ''|'' @ kc_scope c\<rparr>"

definition oauth_settings1 :: oauth_settings where
  "oauth_settings1 = \<lparr>is_public_key = ''public'', is_algorithm = ''RS256'', is_issuer = ''https://id.example'',
     is_audience = ''services'', is_access_minutes = 15, is_refresh_days = 7, is_reset_minutes = 30,
     os_issuer = ''https://id.example/oauth'', os_token_minutes = 5, os_code_minutes = 1, os_registration = True,
     os_production = True\<rparr>"

definition challenge1 :: string where
  "challenge1 = replicate 43 CHR ''v''"

definition consent1 :: authorization_request where
  "consent1 = \<lparr>ar_client = ''idA'', ar_redirect = ''https://app.example/cb'', ar_response_type = ''code'',
     ar_scope = ''incidents:read mcp:connect'', ar_resource = ''https://api.example'', ar_challenge = challenge1, ar_method = ''S256''\<rparr>"

definition oauth1 :: oauth_db where
  "oauth1 = oauth_serve_all plain_oauth jwt1 oauth_settings1
     [\<lparr>oar_fresh = draw ''A'', oar_now = 0, oar_request = RegisterPublic ''App'' [''https://app.example/cb'']
         ''mcp:connect incidents:read'' [''https://api.example'']\<rparr>,
      \<lparr>oar_fresh = draw ''B'', oar_now = 1, oar_request = Consent ''approve'' ''ana@example.com'' ''pw'' consent1 ''st'' served1\<rparr>]
     \<lparr>clients = [], codes = []\<rparr>"

definition form1 :: token_form where
  "form1 = \<lparr>tf_grant = ''authorization_code'', tf_client = ''idA'', tf_secret = None, tf_code = ''tokenB'',
     tf_redirect = ''https://app.example/cb'', tf_verifier = challenge1, tf_subject = '''', tf_subject_type = '''', tf_scope = '''',
     tf_resource = ''''\<rparr>"

lemma oauth1_ok: "oauth_ok oauth1"
  unfolding oauth1_def oauth_serve_all.simps
  by (rule ok_oauth_serve, rule ok_oauth_serve) (simp add: oauth_ok_def clients_ok_def codes_ok_def, code_simp+)


lemma authorization_code_once_witness:
  "isl (fst (exchange_authorization_code plain_oauth oauth_settings1 (draw ''D'') 3 ''idA'' None ''tokenB'' ''https://app.example/cb''
     challenge1 (oauth_serve_all plain_oauth jwt1 oauth_settings1
        [\<lparr>oar_fresh = draw ''E'', oar_now = 2, oar_request = Consent ''approve'' ''ana@example.com'' ''pw'' consent1 ''st'' served1\<rparr>]
        (snd (exchange_authorization_code plain_oauth oauth_settings1 (draw ''C'') 2 ''idA'' None ''tokenB''
           ''https://app.example/cb'' ''wrong verifier'' oauth1)))))"
proof -
  let ?x = "exchange_authorization_code plain_oauth oauth_settings1 (draw ''C'') 2 ''idA'' None ''tokenB''
           ''https://app.example/cb'' ''wrong verifier'' oauth1"
  let ?as = "[\<lparr>oar_fresh = draw ''E'', oar_now = 2, oar_request = Consent ''approve'' ''ana@example.com'' ''pw'' consent1 ''st'' served1\<rparr>]"
  have known: "cr_digest plain_oauth ''tokenB'' \<in> cd_digest ` set (codes oauth1)" by code_simp
  have client: "authenticate_client plain_oauth ''idA'' None ''authorization_code'' oauth1 = Inr (hd (clients oauth1))" by code_simp
  have fresh: "oauth_all_fresh plain_oauth jwt1 oauth_settings1 ?as (snd ?x)" by code_simp
  have first: "?x = (fst ?x, snd ?x)" by simp
  from authorization_code_once [OF oauth1_ok known client first fresh] show ?thesis by blast
qed

end
