(* ===== verification/RfpEvaluators.thy ===== *)
theory RfpEvaluators
  imports Prelude "HOL-Library.Log_Nat" "HOL-Library.Sublist"
begin

text \<open>
  The deterministic evaluators of a drafted section (\<open>domains/rfp/readability.py\<close>,
  \<open>domains/rfp/evaluators.py\<close>). A text is read in the code page Windows-1252, which has the letters
  and the euro sign (0x80) that the patterns name; \<open>word_letter\<close>, \<open>space\<close> and \<open>word_char\<close> are the classes of
  Python's \<open>re\<close> on it. The classes on both sides of each \<open>*\<close> and \<open>?\<close> of the patterns are disjoint, so a
  greedy match is the only one and needs no backtracking.
\<close>

section \<open>Characters and patterns\<close>

definition code_of :: "char \<Rightarrow> nat" where
  "code_of c = of_char c"

definition accented :: "nat list" where
  "accented = [0xC1, 0xC9, 0xCD, 0xD3, 0xDA, 0xDC, 0xD1, 0xE1, 0xE9, 0xED, 0xF3, 0xFA, 0xFC, 0xF1]"

definition ascii_letter :: "char \<Rightarrow> bool" where
  "ascii_letter c = (let n = code_of c in 65 \<le> n \<and> n \<le> 90 \<or> 97 \<le> n \<and> n \<le> 122)"

definition word_letter :: "char \<Rightarrow> bool" where
  "word_letter c = (ascii_letter c \<or> code_of c \<in> set accented)"

definition is_digit :: "char \<Rightarrow> bool" where
  "is_digit c = (48 \<le> code_of c \<and> code_of c \<le> 57)"

definition space :: "char \<Rightarrow> bool" where
  "space c = (c \<in> set py_space \<or> code_of c = 0xA0)"

definition word_char :: "char \<Rightarrow> bool" where
  "word_char c = (ascii_letter c \<or> is_digit c \<or> c = CHR ''_'' \<or>
     code_of c \<in> set [0x83, 0x88, 0x8A, 0x8C, 0x8E, 0x9A, 0x9C, 0x9E, 0x9F, 0xAA, 0xB2, 0xB3, 0xB5, 0xB9, 0xBA, 0xBC, 0xBD, 0xBE] \<or>
     0xC0 \<le> code_of c \<and> code_of c \<noteq> 0xD7 \<and> code_of c \<noteq> 0xF7)"

definition lower_char :: "char \<Rightarrow> char" where
  "lower_char c =
     (let n = code_of c in
      if 65 \<le> n \<and> n \<le> 90 \<or> 0xC0 \<le> n \<and> n \<le> 0xDE \<and> n \<noteq> 0xD7 then char_of (n + 32)
      else if n \<in> set [0x8A, 0x8C, 0x8E] then char_of (n + 16) else if n = 0x9F then char_of (0xFF :: nat) else c)"

definition lower :: "string \<Rightarrow> string" where
  "lower s = map lower_char s"

text \<open>\<open>re.findall("[...]+", s)\<close> and, with the class of what is not a separator, \<open>split\<close> without the empty pieces.\<close>

function runs :: "(char \<Rightarrow> bool) \<Rightarrow> string \<Rightarrow> string list" where
  "runs P [] = []"
| "runs P (c # s) = (if P c then (c # takeWhile P s) # runs P (dropWhile P s) else runs P s)"
  by pat_completeness auto
termination by (relation "measure (\<lambda>(P, s). length s)") (auto simp: less_Suc_eq_le length_dropWhile_le)

definition words_of :: "string \<Rightarrow> string list" where
  "words_of s = runs (\<lambda>c. \<not> space c) s"

fun occurs :: "string \<Rightarrow> string \<Rightarrow> bool" where
  "occurs p [] = (p = [])"
| "occurs p (c # s) = (prefix p (c # s) \<or> occurs p s)"

lemma occurs_sublist: "occurs p s = sublist p s"
  by (induction s) (simp_all add: sublist_Cons_right)

section \<open>Readability\<close>

text \<open>A float is the rational number it stands for, \<open>double\<close> is the rounding of each operation to 53 bits, ties to even.\<close>

definition half_even :: "rat \<Rightarrow> int" where
  "half_even x = (let n = \<lfloor>x\<rfloor>; r = x - of_int n in if r < 1 / 2 \<or> r = 1 / 2 \<and> even n then n else n + 1)"

definition scaled :: "int \<Rightarrow> rat" where
  "scaled e = (if 0 \<le> e then 2 ^ nat e else 1 / 2 ^ nat (- e))"

definition double :: "rat \<Rightarrow> rat" where
  "double x =
     (if x = 0 then 0
      else let (p, q) = quotient_of \<bar>x\<bar>;
               e = 53 - (bitlen p - bitlen q);
               e' = (if 2 ^ 53 \<le> \<bar>x\<bar> * scaled e then e - 1 else e) in
           sgn x * of_int (half_even (\<bar>x\<bar> * scaled e')) / scaled e')"

definition round2 :: "rat \<Rightarrow> rat" where
  "round2 x = double (of_int (half_even (x * 100)) / 100)"

record readability_metrics =
  word_count :: nat
  sentence_count :: nat
  syllable_count :: nat
  flesch_kincaid_grade :: rat
  gunning_fog :: rat

definition vowel :: "char \<Rightarrow> bool" where
  "vowel c = (code_of (lower_char c) \<in> set (map code_of ''aeiouy'' @ [0xE1, 0xE9, 0xED, 0xF3, 0xFA, 0xFC]))"

definition count_syllables :: "string \<Rightarrow> nat" where
  "count_syllables word = max 1 (length (runs vowel word))"

definition sentences :: "string \<Rightarrow> nat" where
  "sentences text = max 1 (length (filter (list_ex (\<lambda>c. \<not> space c)) (runs (\<lambda>c. c \<notin> set ''.!?'') text)))"

definition compute_readability :: "string \<Rightarrow> readability_metrics" where
  "compute_readability text =
     (let words = runs word_letter text;
          sentence_count = sentences text;
          syllables = map count_syllables words;
          wps = double (of_nat (length words) / of_nat sentence_count);
          spw = double (of_nat (sum_list syllables) / of_nat (length words));
          complex = length (filter (\<lambda>n. 3 \<le> n) syllables);
          fk_grade = double (double (double (double (39 / 100) * wps) + double (double (118 / 10) * spw)) - double (1559 / 100));
          fog = double (double (4 / 10) * double (wps + double (100 * double (of_nat complex / of_nat (length words))))) in
      if words = []
      then \<lparr>word_count = 0, sentence_count = sentence_count, syllable_count = 0, flesch_kincaid_grade = 0, gunning_fog = 0\<rparr>
      else \<lparr>word_count = length words, sentence_count = sentence_count, syllable_count = sum_list syllables,
             flesch_kincaid_grade = round2 fk_grade, gunning_fog = round2 fog\<rparr>)"

definition READABILITY_MAX_GRADE :: rat where "READABILITY_MAX_GRADE = 16"
definition MIN_WORDS :: nat where "MIN_WORDS = 20"

definition evaluate_readability :: "string \<Rightarrow> bool" where
  "evaluate_readability text =
     (let metrics = compute_readability text in
      MIN_WORDS \<le> word_count metrics \<and> flesch_kincaid_grade metrics \<le> READABILITY_MAX_GRADE)"

section \<open>Relevance\<close>

definition distinct_words :: "string list \<Rightarrow> string list" where
  "distinct_words ws = rev (remdups (rev ws))"

definition matched_terms :: "string \<Rightarrow> string \<Rightarrow> string list \<Rightarrow> string list" where
  "matched_terms text department_id key_aspects =
     filter (\<lambda>w. 3 < length w \<and> occurs w (lower text))
       (distinct_words (department_id # concat (map (\<lambda>a. words_of (lower a)) key_aspects)))"

definition evaluate_relevance :: "string \<Rightarrow> string \<Rightarrow> string list \<Rightarrow> bool" where
  "evaluate_relevance text department_id key_aspects =
     (MIN_WORDS \<le> length (words_of text) \<and>
      (occurs department_id (lower text) \<or> matched_terms text department_id key_aspects \<noteq> []))"

section \<open>Compliance\<close>

definition decimal_value :: "string \<Rightarrow> nat" where
  "decimal_value ds = fold (\<lambda>c n. 10 * n + (code_of c - 48)) ds 0"

text \<open>\<open>(\d{1,3})\s*-?\s*hour\<close> at the head of a text: the digits and the length of the match.\<close>

definition after_gap :: "string \<Rightarrow> string" where
  "after_gap s = (let r = dropWhile space s in if take 1 r = ''-'' then dropWhile space (tl r) else r)"

definition hours_at :: "string \<Rightarrow> (nat \<times> nat) option" where
  "hours_at s =
     (let ds = takeWhile is_digit s; r = after_gap (drop (length ds) s) in
      if 1 \<le> length ds \<and> length ds \<le> 3 \<and> prefix ''hour'' r
      then Some (decimal_value ds, length s - length r + 4) else None)"

text \<open>\<open>finditer\<close>: the start, the end and the number of each match.\<close>

function hours_from :: "nat \<Rightarrow> string \<Rightarrow> (nat \<times> nat \<times> nat) list" where
  "hours_from pos [] = []"
| "hours_from pos (c # s) =
     (case hours_at (c # s) of
        None \<Rightarrow> hours_from (pos + 1) s
      | Some (hours, n) \<Rightarrow> (pos, pos + n, hours) # hours_from (pos + n) (drop n (c # s)))"
  by pat_completeness auto
termination by (relation "measure (\<lambda>(pos, s). length s)") (auto simp: hours_at_def Let_def split: if_splits)

definition window :: "string \<Rightarrow> nat \<Rightarrow> nat \<Rightarrow> string" where
  "window s start stop = take (stop + 20 - (start - 60)) (drop (start - 60) s)"

text \<open>\<open>\b(same[- ]day|next[- ]day|24[- ]?h)\b\<close>: each alternative begins and ends with a word character.\<close>

definition same_next_day :: "string list" where
  "same_next_day = [''same-day'', ''same day'', ''next-day'', ''next day'', ''24h'', ''24-h'', ''24 h'']"

fun as_word :: "bool \<Rightarrow> string list \<Rightarrow> string \<Rightarrow> bool" where
  "as_word inside ps [] = False"
| "as_word inside ps (c # s) =
     (\<not> inside \<and> list_ex (\<lambda>p. prefix p (c # s) \<and> (case drop (length p) (c # s) of [] \<Rightarrow> True | d # _ \<Rightarrow> \<not> word_char d)) ps \<or>
      as_word (word_char c) ps s)"

definition returns_under_48h :: "string \<Rightarrow> bool" where
  "returns_under_48h lowered =
     (as_word False same_next_day lowered \<and> occurs ''return'' lowered \<or>
      list_ex (\<lambda>(start, stop, hours). hours < 48 \<and> occurs ''return'' (window lowered start stop)) (hours_from 0 lowered))"

text \<open>\<open>negotiat\w*\s+(carrier\s+)?rate\<close>.\<close>

definition negotiated_at :: "string \<Rightarrow> bool" where
  "negotiated_at s =
     (prefix ''negotiat'' s \<and>
      (let r = dropWhile word_char (drop 8 s); t = dropWhile space r; u = drop 7 t in
       take 1 (takeWhile space r) \<noteq> [] \<and>
       (prefix ''rate'' t \<or> prefix ''carrier'' t \<and> takeWhile space u \<noteq> [] \<and> prefix ''rate'' (dropWhile space u))))"

definition negotiated_rate :: "string \<Rightarrow> bool" where
  "negotiated_rate text = list_ex negotiated_at (suffixes (lower text))"

definition names_euro :: "string \<Rightarrow> bool" where
  "names_euro text = (occurs [CHR 0x80] text \<or> occurs ''eur'' (lower text))"

definition names_dollar :: "string \<Rightarrow> bool" where
  "names_dollar text = (occurs ''$'' text \<or> occurs ''usd'' (lower text))"

definition has_sla :: "string \<Rightarrow> bool" where
  "has_sla text = (occurs ''%'' text \<and> list_ex (\<lambda>t. occurs t (lower text)) [''sla'', ''on-time'', ''on time'', ''delivery''])"

definition has_tiers :: "string \<Rightarrow> bool" where
  "has_tiers text =
     (occurs ''discount'' (lower text) \<and> (occurs ''tier'' (lower text) \<or> occurs ''volume'' (lower text)))"

definition compliance_issues :: "string \<Rightarrow> string option \<Rightarrow> string list" where
  "compliance_issues text currency =
     concat
       [if currency = Some ''USD'' \<and> names_euro text then [''wrong_currency''] else [],
        if currency = Some ''EUR'' \<and> names_dollar text then [''wrong_currency''] else [],
        if currency = Some ''USD'' \<and> \<not> names_dollar text then [''missing_currency''] else [],
        if currency = Some ''EUR'' \<and> \<not> names_euro text then [''missing_currency''] else [],
        if \<not> has_sla text then [''missing_sla''] else [],
        if returns_under_48h (lower text) then [''returns_under_48h''] else [],
        if \<not> has_tiers text then [''missing_discount_tiers''] else [],
        if negotiated_rate text then [''discloses_carrier_rates''] else []]"

section \<open>The verdict\<close>

record evaluation =
  ev_passed :: bool
  ev_readable :: bool
  ev_metrics :: readability_metrics
  ev_relevant :: bool
  ev_matched :: "string list"
  ev_compliance :: "string list"
  ev_issues :: "string list"

definition evaluate_section :: "string \<Rightarrow> string option \<Rightarrow> string \<Rightarrow> string list \<Rightarrow> evaluation" where
  "evaluate_section text currency department_id key_aspects =
     (let readable = evaluate_readability text;
          relevant = evaluate_relevance text department_id key_aspects;
          compliance = compliance_issues text currency in
      \<lparr>ev_passed = (readable \<and> relevant \<and> compliance = []), ev_readable = readable, ev_metrics = compute_readability text,
       ev_relevant = relevant, ev_matched = matched_terms text department_id key_aspects, ev_compliance = compliance,
       ev_issues = (if readable then [] else [''readability'']) @ (if relevant then [] else [''relevance'']) @ compliance\<rparr>)"


section \<open>A promise of returns in less than 48 hours is found\<close>

definition gap :: "string \<Rightarrow> bool" where
  "gap sp = (let r = dropWhile space sp in list_all space (if take 1 r = ''-'' then tl r else r))"

lemma gap_iff: "gap sp = (after_gap sp = [])"
proof (cases "dropWhile space sp")
  case Nil
  show ?thesis unfolding gap_def after_gap_def Let_def Nil by simp
next
  case (Cons a r)
  then have "\<not> space a" by (metis hd_dropWhile list.discI list.sel(1))
  then show ?thesis using Cons by (auto simp: gap_def after_gap_def Let_def list_all_iff)
qed

lemma after_gap_append:
  assumes "after_gap sp = []" and "t \<noteq> []" and "\<not> space (hd t)" and "hd t \<noteq> CHR ''-''"
  shows "after_gap (sp @ t) = t"
proof -
  obtain c u where t: "t = c # u" using assms(2) by (cases t) auto
  have stay: "dropWhile space (x @ t) = t" if "list_all space x" for x
    using that assms(3) t by (induction x) auto
  show ?thesis
  proof (cases "dropWhile space sp")
    case Nil
    then have "list_all space sp" by (simp add: dropWhile_eq_Nil_conv list_all_iff)
    then show ?thesis using stay assms(4) t by (simp add: after_gap_def Let_def)
  next
    case (Cons d r)
    have "\<not> (\<forall>x\<in>set sp. space x)" using Cons by (metis dropWhile_eq_Nil_conv list.distinct(1))
    then have d: "dropWhile space (sp @ t) = d # r @ t" using Cons by (auto simp: dropWhile_append)
    have "d = CHR ''-''" "dropWhile space r = []" using assms(1) Cons by (auto simp: after_gap_def Let_def split: if_splits)
    moreover from this(2) have "list_all space r" by (simp add: dropWhile_eq_Nil_conv list_all_iff)
    ultimately show ?thesis using d stay [of r] by (simp add: after_gap_def del: dropWhile_append2 dropWhile_append1)
  qed
qed

lemma digits_not_space: "is_digit c \<Longrightarrow> \<not> space c \<and> c \<noteq> CHR ''-''"
  by (auto simp: is_digit_def space_def py_space_def whitespace_def code_of_def)

lemma hours_at_head:
  assumes "ds \<noteq> []" and "length ds \<le> 3" and "list_all is_digit ds" and "after_gap sp = []" and "\<not> is_digit (hd (sp @ ''h''))"
  shows "hours_at (ds @ sp @ ''hour'' @ b) = Some (decimal_value ds, length ds + length sp + 4)"
proof -
  let ?r = "sp @ ''hour'' @ b"
  have hd: "\<not> is_digit (hd ?r)" using assms(5) by (cases sp) auto
  then have ds: "takeWhile is_digit (ds @ ?r) = ds"
    using assms(3) by (subst takeWhile_append2) (auto simp: list_all_iff split: list.splits, cases sp, auto)
  have "\<not> space CHR ''h''" by code_simp
  then have "after_gap ?r = ''hour'' @ b" using assms(4) by (intro after_gap_append) simp_all
  then show ?thesis using assms(1,2) ds by (simp add: hours_at_def Let_def Suc_le_eq)
qed

lemma after_gap_split: "\<exists>g. s = g @ after_gap s \<and> (\<forall>c\<in>set g. \<not> is_digit c)"
proof -
  let ?x = "takeWhile space s" and ?r = "dropWhile space s"
  have x: "\<forall>c\<in>set ?x. \<not> is_digit c" using digits_not_space by (auto dest: set_takeWhileD)
  show ?thesis
  proof (cases "take 1 ?r = ''-''")
    case False
    then have "s = ?x @ after_gap s" by (simp add: after_gap_def Let_def)
    with x show ?thesis by blast
  next
    case True
    then have r: "?r = CHR ''-'' # tl ?r" by (cases ?r) auto
    let ?y = "takeWhile space (tl ?r)"
    have "after_gap s = dropWhile space (tl ?r)" using True unfolding after_gap_def Let_def by (rule if_P)
    then have "tl ?r = ?y @ after_gap s" by simp
    then have "s = (?x @ ''-'' @ ?y) @ after_gap s" using r takeWhile_dropWhile_id [of space s] by (metis append.assoc append_Cons append_Nil)
    moreover have "\<forall>c\<in>set (?x @ ''-'' @ ?y). \<not> is_digit c"
      using x digits_not_space by (auto dest: set_takeWhileD simp: is_digit_def code_of_def)
    ultimately show ?thesis by blast
  qed
qed

lemma hours_at_split:
  assumes "hours_at s = Some (h, n)"
  shows "\<exists>ds g r. s = ds @ g @ r \<and> list_all is_digit ds \<and> (\<forall>c\<in>set g. \<not> is_digit c) \<and> n = length ds + length g \<and> ds \<noteq> []"
proof -
  let ?ds = "takeWhile is_digit s" and ?t = "dropWhile is_digit s"
  have t: "drop (length ?ds) s = ?t" by (simp add: dropWhile_eq_drop)
  obtain g where g: "?t = g @ after_gap ?t" "\<forall>c\<in>set g. \<not> is_digit c" using after_gap_split by blast
  from assms have p: "prefix ''hour'' (after_gap ?t)" "?ds \<noteq> []" "n = length s - length (after_gap ?t) + 4"
    by (auto simp: hours_at_def Let_def t split: if_splits)
  then obtain r where r: "after_gap ?t = ''hour'' @ r" by (auto simp: prefix_def)
  have s: "s = ?ds @ (g @ ''hour'') @ r" using g(1) r takeWhile_dropWhile_id [of is_digit s] by (metis append.assoc)
  have "length s = length ?ds + length g + length (after_gap ?t)" using arg_cong [OF s, of length] r by simp
  then have "n = length ?ds + length (g @ ''hour'')" using p(3) by simp
  moreover have "\<forall>c\<in>set (g @ ''hour''). \<not> is_digit c" using g(2) by (auto simp: is_digit_def code_of_def)
  moreover have "list_all is_digit ?ds" by (auto simp: list_all_iff dest: set_takeWhileD)
  ultimately show ?thesis using s p(2) by blast
qed

text \<open>A match that starts before an occurrence ends before it: an earlier digit would belong to the number.\<close>

lemma match_apart:
  assumes "hours_at (u @ d # t) = Some (h, n)" and "u \<noteq> []" and "\<not> is_digit (last u)" and "is_digit d"
  shows "n \<le> length u"
proof (rule ccontr)
  assume far: "\<not> n \<le> length u"
  obtain ds g r where s: "u @ d # t = ds @ g @ r" "list_all is_digit ds" "\<forall>c\<in>set g. \<not> is_digit c" "n = length ds + length g"
    using hours_at_split [OF assms(1)] by blast
  have d: "(ds @ g @ r) ! length u = d" unfolding s(1) [symmetric] by simp
  have "length u < length ds"
  proof (rule ccontr)
    assume "\<not> length u < length ds"
    then have "d \<in> set g" using d far s(4) by (auto simp: nth_append)
    then show False using s(3) assms(4) by blast
  qed
  moreover have "(ds @ g @ r) ! (length u - 1) = last u" unfolding s(1) [symmetric] using assms(2) by (simp add: nth_append last_conv_nth)
  ultimately have "last u \<in> set ds" using assms(2) by (auto simp: nth_append) (metis diff_less length_greater_0_conv less_imp_diff_less nth_mem zero_less_one)
  then show False using s(2) assms(3) by (simp add: list_all_iff)
qed

lemma occurrence_found:
  assumes "ds \<noteq> []" and "length ds \<le> 3" and "list_all is_digit ds" and "gap sp" and "u = [] \<or> \<not> is_digit (last u)"
  shows "(pos + length u, pos + length u + length ds + length sp + 4, decimal_value ds) \<in> set (hours_from pos (u @ ds @ sp @ ''hour'' @ b))"
  using assms(5)
proof (induction "length u" arbitrary: u pos rule: less_induct)
  case less
  let ?t = "ds @ sp @ ''hour'' @ b"
  show ?case
  proof (cases u)
    case Nil
    have "sp = [] \<or> space (hd sp) \<or> hd sp = CHR ''-''"
      using assms(4) by (cases sp) (auto simp: gap_def Let_def split: if_splits)
    then have "\<not> is_digit (hd (sp @ ''h''))" using digits_not_space by (cases sp) (auto simp: is_digit_def code_of_def)
    then have "hours_at ?t = Some (decimal_value ds, length ds + length sp + 4)"
      using assms(1-4) by (intro hours_at_head) (simp_all add: gap_iff)
    then show ?thesis using Nil assms(1) by (cases ?t) (simp_all add: add.assoc)
  next
    case (Cons c v)
    show ?thesis
    proof (cases "hours_at (u @ ?t)")
      case None
      have "v = [] \<or> \<not> is_digit (last v)" using less.prems Cons by auto
      from less.hyps [OF _ this, of "pos + 1"] show ?thesis using None Cons by simp
    next
      case (Some m)
      obtain h n where m: "m = (h, n)" by fastforce
      obtain d t where t: "?t = d # t" "is_digit d" using assms(1,3) by (cases ds) auto
      have n: "n \<le> length u" using match_apart [of u d t h n] Some m t less.prems Cons by auto
      have "0 < n" using hours_at_split [of "u @ ?t" h n] Some m by auto
      note n = n this
      have "drop n u = [] \<or> \<not> is_digit (last (drop n u))" using less.prems by (auto simp: last_drop)
      moreover have "drop n (c # v @ ?t) = drop n (c # v) @ ?t" using drop_append [of n "c # v" ?t] n(1) Cons by simp
      ultimately show ?thesis using less.hyps [of "drop n u" "pos + n"] Some Cons n m by simp
    qed
  qed
qed

text \<open>
  C24: a section that promises returns in less than 48 hours is not accepted. Wherever the text has a
  number of one to three digits followed by \<open>hour\<close> (spaces and a hyphen between them), below 48, and
  the word \<open>return\<close> from 60 characters before it to 20 after it, the evaluation fails and its feedback
  names the issue.
\<close>

theorem short_returns_promise_rejected:
  assumes "lower text = u @ ds @ sp @ ''hour'' @ b" and "ds \<noteq> []" and "length ds \<le> 3" and "list_all is_digit ds"
    and "gap sp" and "u = [] \<or> \<not> is_digit (last u)" and "decimal_value ds < 48"
    and "occurs ''return'' (window (lower text) (length u) (length u + length ds + length sp + 4))"
  shows "\<not> ev_passed (evaluate_section text currency department aspects) \<and>
    ''returns_under_48h'' \<in> set (ev_issues (evaluate_section text currency department aspects))"
proof -
  have "(length u, length u + length ds + length sp + 4, decimal_value ds) \<in> set (hours_from 0 (lower text))"
    using occurrence_found [OF assms(2-6), of 0 b] assms(1) by simp
  then have "returns_under_48h (lower text)" using assms(7,8) by (fastforce simp: returns_under_48h_def list_ex_iff)
  then show ?thesis by (simp add: evaluate_section_def compliance_issues_def Let_def)
qed

theorem short_returns_promise_rejected_witness:
  "\<not> ev_passed (evaluate_section ''Returns are ready in 24-Hours.'' (Some ''USD'') ''reverse'' []) \<and>
    ''returns_under_48h'' \<in> set (ev_issues (evaluate_section ''Returns are ready in 24-Hours.'' (Some ''USD'') ''reverse'' []))"
proof (rule short_returns_promise_rejected)
  show "lower ''Returns are ready in 24-Hours.'' = ''returns are ready in '' @ ''24'' @ ''-'' @ ''hour'' @ ''s.''" by code_simp
  show "occurs ''return'' (window (lower ''Returns are ready in 24-Hours.'') (length ''returns are ready in '')
    (length ''returns are ready in '' + length ''24'' + length ''-'' + 4))" by code_simp
  show "list_all is_digit ''24''" by code_simp
  show "gap ''-''" by code_simp
  show "''returns are ready in '' = [] \<or> \<not> is_digit (last ''returns are ready in '')" by code_simp
  show "decimal_value ''24'' < 48" by code_simp
qed simp_all

text \<open>The pattern reads the last three digits of a longer number: a promise of 1000 hours counts as one of 0.\<close>

lemma thousand_hours_flagged: "returns_under_48h ''returns are ready in 1000 hours'' \<and> \<not> returns_under_48h ''returns are ready in 100 hours''"
  by code_simp

lemma accepted_iff_no_issue:
  "ev_passed (evaluate_section text currency department aspects) = (ev_issues (evaluate_section text currency department aspects) = [])"
  by (simp add: evaluate_section_def Let_def)

lemma accepted_section:
  assumes "ev_passed (evaluate_section text currency department aspects)"
  shows "MIN_WORDS \<le> length (words_of text)" and "currency = Some ''USD'' \<Longrightarrow> names_dollar text \<and> \<not> names_euro text"
    and "currency = Some ''EUR'' \<Longrightarrow> names_euro text \<and> \<not> names_dollar text" and "has_sla text" and "has_tiers text"
    and "\<not> returns_under_48h (lower text)" and "\<not> negotiated_rate text"
  using assms by (simp_all add: evaluate_section_def compliance_issues_def evaluate_relevance_def Let_def split: if_splits)

end
