(* ===== verification/RfpModel.thy ===== *)
theory RfpModel
  imports RfpEvaluators
begin

text \<open>
  The tables of the RFP desk (\<open>domains/rfp/models.py\<close>) and its queries and writes (\<open>repository.py\<close>). Each
  write of the repository is one transaction; \<open>None\<close> is a statement that a constraint of the table
  refuses. JSON columns keep the shape the code writes.
\<close>

section \<open>Records\<close>

datatype ticket_status = Analyzing | WaitingForApproval | Drafting | UnderEvaluation | Finished | Discarded
datatype department = Warehouse | LastMile | Reverse
datatype approval_status = Pending | Approved | Rejected | ChangesRequested

definition department_id :: "department \<Rightarrow> string" where
  "department_id d = (case d of Warehouse \<Rightarrow> ''warehouse'' | LastMile \<Rightarrow> ''lastmile'' | Reverse \<Rightarrow> ''reverse'')"

text \<open>\<open>evaluation_results\<close>: the marker of a failed generation, or a verdict with the iteration it is of.\<close>

datatype section_results = GenerationFailed | Evaluated evaluation "nat option"

record rfp_ticket =
  tk_id :: uuid
  tk_rfp_id :: string
  tk_status :: ticket_status
  tk_owner :: uuid
  tk_operator_jurisdiction :: "string option"
  tk_client_name :: "string option"
  tk_client_country :: "string option"
  tk_currency :: "string option"
  tk_services :: "string list option"
  tk_monthly_volume :: "int option"
  tk_deadline_days :: "int option"
  tk_budget_range :: "string option"
  tk_departments :: "department list option"
  tk_metrics :: "readability_metrics option"
  tk_markdown :: "string option"
  tk_discard_reason :: "string option"
  tk_created_at :: instant
  tk_updated_at :: instant

record rfp_section =
  sc_id :: uuid
  sc_ticket :: uuid
  sc_department :: department
  sc_aspects :: "string list"
  sc_draft :: "string option"
  sc_results :: "section_results option"
  sc_iterations :: nat
  sc_approval :: approval_status
  sc_approver :: "string option"
  sc_approved_at :: "instant option"
  sc_created_at :: instant
  sc_updated_at :: instant

record rfp_document =
  fd_id :: uuid
  fd_ticket :: uuid
  fd_sections :: "(department \<times> string) list"
  fd_currency :: string
  fd_generated_at :: instant

record rfp_db =
  rfp_tickets :: "rfp_ticket list"
  rfp_sections :: "rfp_section list"
  rfp_documents :: "rfp_document list"

section \<open>Constraints\<close>

definition at_most :: "nat \<Rightarrow> string option \<Rightarrow> bool" where
  "at_most n s = (case s of None \<Rightarrow> True | Some t \<Rightarrow> length t \<le> n)"

definition one_of :: "'a list \<Rightarrow> 'a option \<Rightarrow> bool" where
  "one_of xs v = (case v of None \<Rightarrow> True | Some x \<Rightarrow> x \<in> set xs)"

text \<open>A nullable \<open>Integer\<close> column with the check that it is not negative.\<close>

definition column_count :: "int option \<Rightarrow> bool" where
  "column_count v = (case v of None \<Rightarrow> True | Some n \<Rightarrow> 0 \<le> n \<and> n < 2 ^ 31)"

definition ticket_valid :: "rfp_ticket \<Rightarrow> bool" where
  "ticket_valid t =
     (length (tk_id t) \<le> 36 \<and> length (tk_rfp_id t) \<le> 64 \<and> length (tk_owner t) \<le> 36 \<and>
      one_of [''US'', ''ES''] (tk_client_country t) \<and> one_of [''USD'', ''EUR''] (tk_currency t) \<and>
      one_of [''US'', ''ES''] (tk_operator_jurisdiction t) \<and>
      column_count (tk_monthly_volume t) \<and> column_count (tk_deadline_days t) \<and>
      at_most 200 (tk_client_name t) \<and> at_most 120 (tk_budget_range t) \<and> at_most 200 (tk_discard_reason t))"

definition section_valid :: "rfp_section \<Rightarrow> bool" where
  "section_valid s = (length (sc_id s) \<le> 36 \<and> at_most 120 (sc_approver s))"

definition document_valid :: "rfp_document \<Rightarrow> bool" where
  "document_valid d = (length (fd_id d) \<le> 36 \<and> fd_currency d \<in> set [''USD'', ''EUR''])"

section \<open>Queries\<close>

definition rfp_get :: "rfp_db \<Rightarrow> uuid \<Rightarrow> rfp_ticket option" where
  "rfp_get db tid = List.find (\<lambda>t. tk_id t = tid) (rfp_tickets db)"

definition get_for_owner :: "rfp_db \<Rightarrow> uuid \<Rightarrow> uuid \<Rightarrow> rfp_ticket option" where
  "get_for_owner db tid owner = List.find (\<lambda>t. tk_id t = tid \<and> tk_owner t = owner) (rfp_tickets db)"

definition list_for_owner :: "rfp_db \<Rightarrow> uuid \<Rightarrow> ticket_status option \<Rightarrow> nat \<Rightarrow> rfp_ticket list" where
  "list_for_owner db owner status limit =
     take limit (sort_key (\<lambda>t. - tk_updated_at t)
       (filter (\<lambda>t. tk_owner t = owner \<and> one_of [tk_status t] status) (rfp_tickets db)))"

definition sections_for_ticket :: "rfp_db \<Rightarrow> uuid \<Rightarrow> rfp_section list" where
  "sections_for_ticket db tid =
     sort_key (\<lambda>s. department_id (sc_department s)) (filter (\<lambda>s. sc_ticket s = tid) (rfp_sections db))"

definition section_for_department :: "rfp_db \<Rightarrow> uuid \<Rightarrow> department \<Rightarrow> rfp_section option" where
  "section_for_department db tid d = List.find (\<lambda>s. sc_ticket s = tid \<and> sc_department s = d) (rfp_sections db)"

definition final_document :: "rfp_db \<Rightarrow> uuid \<Rightarrow> rfp_document option" where
  "final_document db tid = List.find (\<lambda>d. fd_ticket d = tid) (rfp_documents db)"

section \<open>Writes\<close>

definition add_ticket :: "rfp_ticket \<Rightarrow> rfp_db \<Rightarrow> rfp_db option" where
  "add_ticket t db =
     (if ticket_valid t \<and> tk_id t \<notin> set (map tk_id (rfp_tickets db)) \<and> tk_rfp_id t \<notin> set (map tk_rfp_id (rfp_tickets db))
      then Some (db\<lparr>rfp_tickets := rfp_tickets db @ [t]\<rparr>) else None)"

definition update_where :: "('a \<Rightarrow> bool) \<Rightarrow> ('a \<Rightarrow> 'a) \<Rightarrow> 'a list \<Rightarrow> 'a list" where
  "update_where P f xs = map (\<lambda>x. if P x then f x else x) xs"

text \<open>\<open>save\<close> sends the columns that changed since the row was loaded: a function on the row as it is now.\<close>

definition save_ticket :: "uuid \<Rightarrow> (rfp_ticket \<Rightarrow> rfp_ticket) \<Rightarrow> rfp_db \<Rightarrow> rfp_db option" where
  "save_ticket tid f db =
     (let db' = db\<lparr>rfp_tickets := update_where (\<lambda>t. tk_id t = tid) f (rfp_tickets db)\<rparr> in
      if list_all ticket_valid (rfp_tickets db') then Some db' else None)"

definition save_section :: "uuid \<Rightarrow> (rfp_section \<Rightarrow> rfp_section) \<Rightarrow> rfp_db \<Rightarrow> rfp_db option" where
  "save_section sid f db =
     (let db' = db\<lparr>rfp_sections := update_where (\<lambda>s. sc_id s = sid) f (rfp_sections db)\<rparr> in
      if list_all section_valid (rfp_sections db') then Some db' else None)"

definition section_key :: "rfp_section \<Rightarrow> uuid \<times> department" where
  "section_key s = (sc_ticket s, sc_department s)"

definition add_sections :: "rfp_section list \<Rightarrow> rfp_db \<Rightarrow> rfp_db option" where
  "add_sections ss db =
     (let rows = rfp_sections db @ ss in
      if distinct (map section_key rows) \<and> distinct (map sc_id rows) \<and> list_all section_valid ss \<and>
         list_all (\<lambda>s. rfp_get db (sc_ticket s) \<noteq> None) ss
      then Some (db\<lparr>rfp_sections := rows\<rparr>) else None)"

definition add_final_document :: "rfp_document \<Rightarrow> rfp_db \<Rightarrow> rfp_db option" where
  "add_final_document d db =
     (if document_valid d \<and> fd_id d \<notin> set (map fd_id (rfp_documents db)) \<and>
         fd_ticket d \<notin> set (map fd_ticket (rfp_documents db)) \<and> rfp_get db (fd_ticket d) \<noteq> None
      then Some (db\<lparr>rfp_documents := rfp_documents db @ [d]\<rparr>) else None)"

section \<open>Tables after a write\<close>

lemma set_update_where: "set (update_where P f xs) = (\<lambda>x. if P x then f x else x) ` set xs"
  by (simp add: update_where_def)

lemma map_update_where: "(\<And>x. P x \<Longrightarrow> key (f x) = key x) \<Longrightarrow> map key (update_where P f xs) = map key xs"
  by (simp add: update_where_def)

lemma in_sections_for [simp]: "s \<in> set (sections_for_ticket db tid) \<longleftrightarrow> s \<in> set (rfp_sections db) \<and> sc_ticket s = tid"
  by (auto simp: sections_for_ticket_def)

lemma department_id_inj [simp]: "department_id a = department_id b \<longleftrightarrow> a = b"
  by (cases a; cases b) (simp_all add: department_id_def)

end
