(* ===== verification/AgentUsage.thy ===== *)
theory AgentUsage
  imports RfpEvaluators
begin

text \<open>
  Token accounting of the model calls (\<open>domains/agents/pricing.py\<close>) and their traces (\<open>recorder.py\<close>). A value of the provider's payload
  is a \<open>counter_value\<close>; a price is the exact number of its \<open>Decimal\<close>, a cost the \<open>double\<close> that \<open>float\<close>
  makes of it; \<open>fsum\<close>, a parameter, is Python's \<open>sum\<close> of floats, which differs between its versions.
\<close>

datatype counter_value = CInt int | CBool bool | CMap "(string \<times> counter_value) list" | COther

type_synonym payload = "(string \<times> counter_value) list"

record model_price =
  input_per_million :: rat
  cached_input_per_million :: rat
  output_per_million :: rat

record model_usage =
  mu_input :: int
  mu_output :: int
  mu_total :: int
  mu_cached :: int
  mu_cost :: "rat option"

definition MODEL_PRICES :: "(string \<times> model_price) list" where
  "MODEL_PRICES =
     (let p = \<lparr>input_per_million = 15 / 100, cached_input_per_million = 75 / 1000, output_per_million = 60 / 100\<rparr> in
      [(''gpt-4o-mini'', p), (''gpt-4o-mini-2024-07-18'', p)])"

fun counter :: "counter_value option \<Rightarrow> int option" where
  "counter (Some (CInt n)) = (if n < 0 then None else Some n)"
| "counter _ = None"

fun as_mapping :: "counter_value option \<Rightarrow> payload" where
  "as_mapping (Some (CMap m)) = m"
| "as_mapping _ = []"

definition get_or :: "payload \<Rightarrow> string \<Rightarrow> counter_value option \<Rightarrow> counter_value option" where
  "get_or m key other = (case map_of m key of Some v \<Rightarrow> Some v | None \<Rightarrow> other)"

definition call_cost :: "string \<Rightarrow> int \<Rightarrow> int \<Rightarrow> int \<Rightarrow> rat option" where
  "call_cost model inputs cached outputs =
     (case map_of MODEL_PRICES model of None \<Rightarrow> None
      | Some price \<Rightarrow>
          Some (double ((of_int (inputs - cached) * input_per_million price + of_int cached * cached_input_per_million price
                         + of_int outputs * output_per_million price) / 1000000)))"

definition build_usage :: "payload \<Rightarrow> string \<Rightarrow> model_usage option" where
  "build_usage usage model =
     (let details = as_mapping (get_or usage ''input_token_details'' (map_of usage ''prompt_tokens_details'')) in
      case (counter (get_or usage ''input_tokens'' (map_of usage ''prompt_tokens'')),
            counter (get_or usage ''output_tokens'' (map_of usage ''completion_tokens''))) of
        (Some inputs, Some outputs) \<Rightarrow>
          (let total = coalesce (counter (map_of usage ''total_tokens'')) (inputs + outputs) in
           if total \<noteq> inputs + outputs then None
           else case counter (get_or details ''cache_read'' (get_or details ''cached_tokens'' (Some (CInt 0)))) of
                  None \<Rightarrow> None
                | Some cached \<Rightarrow>
                    (if inputs < cached then None
                     else Some \<lparr>mu_input = inputs, mu_output = outputs, mu_total = total, mu_cached = cached,
                                mu_cost = call_cost model inputs cached outputs\<rparr>))
      | _ \<Rightarrow> None)"

text \<open>A message is its two attributes, where it has them.\<close>

definition usage_from_message :: "counter_value option \<Rightarrow> counter_value option \<Rightarrow> string \<Rightarrow> model_usage option" where
  "usage_from_message usage_metadata response_metadata model =
     (let standardized = as_mapping usage_metadata;
          provider = as_mapping (map_of (as_mapping response_metadata) ''token_usage'');
          usage = (if standardized \<noteq> [] then standardized else provider) in
      if usage = [] then None else build_usage usage model)"

definition usage_from_counters :: "payload option \<Rightarrow> string \<Rightarrow> model_usage option" where
  "usage_from_counters usage model =
     (case usage of None \<Rightarrow> None | Some m \<Rightarrow> if m = [] then None else build_usage m model)"

definition combine_usage :: "(rat list \<Rightarrow> rat) \<Rightarrow> model_usage option list \<Rightarrow> int option \<times> rat option" where
  "combine_usage fsum usages =
     (let present = List.map_filter (\<lambda>u. u) usages in
      if present = [] then (None, None)
      else (Some (sum_list (map mu_total present)),
            if list_all (\<lambda>u. mu_cost u \<noteq> None) present then Some (fsum (map (\<lambda>u. the (mu_cost u)) present)) else None))"

section \<open>Traces\<close>

text \<open>
  A node step of a trace without its times, and the rows \<open>recorder.py\<close> stores for a run. Storing is best
  effort: a failure is swallowed and changes nothing else.
\<close>

record trace_step =
  ns_node :: string
  ns_sequence :: nat
  ns_status :: string
  ns_notes :: "string option"
  ns_tokens :: "int option"
  ns_cost :: "rat option"

definition node_step :: "string \<Rightarrow> string \<Rightarrow> string option \<Rightarrow> int option \<times> rat option \<Rightarrow> trace_step" where
  "node_step node status notes usage =
     \<lparr>ns_node = node, ns_sequence = 0, ns_status = status, ns_notes = notes, ns_tokens = fst usage, ns_cost = snd usage\<rparr>"

definition usage_fields :: "model_usage option \<Rightarrow> int option \<times> rat option" where
  "usage_fields usage = (case usage of None \<Rightarrow> (None, None) | Some u \<Rightarrow> (Some (mu_total u), mu_cost u))"

definition sequenced :: "trace_step list \<Rightarrow> trace_step list" where
  "sequenced steps = map (\<lambda>(n, s). s\<lparr>ns_sequence := n\<rparr>) (enumerate 1 steps)"

record run_row =
  rr_agent :: string
  rr_env :: string
  rr_status :: string
  rr_route :: string
  rr_tokens :: "int option"
  rr_cost :: "rat option"
  rr_guardrails :: nat
  rr_input :: "string option"
  rr_output :: "string option"
  rr_steps :: "trace_step list"

definition persist_run ::
    "(rat list \<Rightarrow> rat) \<Rightarrow> string \<Rightarrow> string \<Rightarrow> string \<Rightarrow> trace_step list \<Rightarrow> nat \<Rightarrow> string \<Rightarrow> string option \<Rightarrow> string option \<Rightarrow> run_row" where
  "persist_run fsum agent status route steps guardrails env input_summary output_summary =
     (let token_values = List.map_filter ns_tokens steps; cost_values = List.map_filter ns_cost steps in
      \<lparr>rr_agent = agent, rr_env = env, rr_status = status, rr_route = route,
       rr_tokens = (if token_values = [] then None else Some (sum_list token_values)),
       rr_cost = (if cost_values = [] then None else Some (fsum cost_values)), rr_guardrails = guardrails,
       rr_input = input_summary, rr_output = output_summary, rr_steps = steps\<rparr>)"

lemma build_usage_total:
  assumes "build_usage usage model = Some u"
  shows "mu_total u = mu_input u + mu_output u" and "0 \<le> mu_cached u" and "mu_cached u \<le> mu_input u" and "0 \<le> mu_output u"
    and "(mu_cost u = None) = (map_of MODEL_PRICES model = None)"
proof -
  have nonneg: "0 \<le> n" if "counter v = Some n" for v n using that by (cases v rule: counter.cases) (auto split: if_splits)
  from assms obtain a b c where "counter (get_or usage ''input_tokens'' (map_of usage ''prompt_tokens'')) = Some a"
    "counter (get_or usage ''output_tokens'' (map_of usage ''completion_tokens'')) = Some b"
    "counter (get_or (as_mapping (get_or usage ''input_token_details'' (map_of usage ''prompt_tokens_details''))) ''cache_read''
      (get_or (as_mapping (get_or usage ''input_token_details'' (map_of usage ''prompt_tokens_details''))) ''cached_tokens'' (Some (CInt 0)))) = Some c"
    "c \<le> a" "mu_input u = a" "mu_output u = b" "mu_cached u = c" "mu_total u = a + b" "mu_cost u = call_cost model a c b"
    by (auto simp: build_usage_def Let_def split: option.splits if_splits)
  then show "mu_total u = mu_input u + mu_output u" "0 \<le> mu_cached u" "mu_cached u \<le> mu_input u" "0 \<le> mu_output u"
    "(mu_cost u = None) = (map_of MODEL_PRICES model = None)"
    using nonneg by (simp_all add: call_cost_def split: option.splits)
qed

lemma combined_cost_complete:
  "snd (combine_usage fsum us) \<noteq> None \<Longrightarrow> Some u \<in> set us \<Longrightarrow> mu_cost u \<noteq> None"
  by (auto simp: combine_usage_def Let_def list_all_iff map_filter_def split: if_splits)

end
