(* ===== verification/RfpPricing.thy ===== *)
theory RfpPricing
  imports Prelude Complex_Main
begin

text \<open>
  The cost estimate of a proposal (\<open>domains/rfp/pricing.py\<close>). A \<open>Decimal\<close> is its integer coefficient with
  the number of digits after the point; the context's 28 digits are more than the products of a
  volume that fits PostgreSQL's \<open>Integer\<close> need, so arithmetic is exact. The euro sign is character
  0x80, the cubic sign 0xB3, as in the code page Windows-1252.
\<close>

section \<open>Decimals\<close>

record fixed_decimal =
  coefficient :: int
  digits :: nat

definition dec :: "int \<Rightarrow> nat \<Rightarrow> fixed_decimal" where
  "dec c n = \<lparr>coefficient = c, digits = n\<rparr>"

definition dec_value :: "fixed_decimal \<Rightarrow> real" where
  "dec_value d = of_int (coefficient d) / 10 ^ digits d"

definition dec_mult :: "fixed_decimal \<Rightarrow> fixed_decimal \<Rightarrow> fixed_decimal" where
  "dec_mult a b = dec (coefficient a * coefficient b) (digits a + digits b)"

definition rescale :: "nat \<Rightarrow> fixed_decimal \<Rightarrow> int" where
  "rescale n d = coefficient d * 10 ^ (n - digits d)"

definition dec_add :: "fixed_decimal \<Rightarrow> fixed_decimal \<Rightarrow> fixed_decimal" where
  "dec_add a b = (let n = max (digits a) (digits b) in dec (rescale n a + rescale n b) n)"

definition dec_sub :: "fixed_decimal \<Rightarrow> fixed_decimal \<Rightarrow> fixed_decimal" where
  "dec_sub a b = (let n = max (digits a) (digits b) in dec (rescale n a - rescale n b) n)"

text \<open>\<open>quantize(..., ROUND_HALF_UP)\<close>: a tie is rounded away from zero.\<close>

definition half_up :: "int \<Rightarrow> int \<Rightarrow> int" where
  "half_up n d = (if 0 \<le> n then (2 * n + d) div (2 * d) else - ((2 * (- n) + d) div (2 * d)))"

definition quantize :: "nat \<Rightarrow> fixed_decimal \<Rightarrow> fixed_decimal" where
  "quantize n d = dec (if digits d \<le> n then rescale n d else half_up (coefficient d) (10 ^ (digits d - n))) n"

lemma dec_simps [simp]: "coefficient (dec c n) = c" "digits (dec c n) = n"
  by (simp_all add: dec_def)

lemma value_mult: "dec_value (dec_mult a b) = dec_value a * dec_value b"
  by (simp add: dec_mult_def dec_value_def power_add)

lemma value_rescale:
  assumes "digits d \<le> n"
  shows "of_int (rescale n d) = dec_value d * 10 ^ n"
proof -
  have "(10::real) ^ n = 10 ^ (n - digits d) * 10 ^ digits d" using assms by (simp flip: power_add)
  then show ?thesis by (simp add: rescale_def dec_value_def)
qed

lemma value_add: "dec_value (dec_add a b) = dec_value a + dec_value b"
  by (simp add: dec_add_def Let_def dec_value_def [of "dec _ _"] value_rescale field_simps)

lemma value_sub: "dec_value (dec_sub a b) = dec_value a - dec_value b"
  by (simp add: dec_sub_def Let_def dec_value_def [of "dec _ _"] value_rescale field_simps)

lemma half_up_bounds:
  assumes "0 \<le> n" and "0 < d"
  shows "2 * d * half_up n d \<le> 2 * n + d \<and> 2 * n - d \<le> 2 * d * half_up n d"
proof -
  have h: "half_up n d = (2 * n + d) div (2 * d)" using assms(1) by (simp add: half_up_def)
  have "2 * d * ((2 * n + d) div (2 * d)) + (2 * n + d) mod (2 * d) = 2 * n + d" by (rule mult_div_mod_eq)
  moreover have "0 \<le> (2 * n + d) mod (2 * d)" "(2 * n + d) mod (2 * d) < 2 * d" using assms by simp_all
  ultimately show ?thesis unfolding h by linarith
qed

lemma half_up_value:
  assumes "0 \<le> n" and "0 < d"
  shows "\<bar>real_of_int (half_up n d) - of_int n / of_int d\<bar> \<le> 1 / 2"
proof -
  have "real_of_int (2 * d * half_up n d) \<le> of_int (2 * n + d)" "real_of_int (2 * n - d) \<le> of_int (2 * d * half_up n d)"
    using half_up_bounds [OF assms] by (simp_all only: of_int_le_iff)
  then have b: "2 * real_of_int d * half_up n d \<le> 2 * n + d" "2 * real_of_int n - d \<le> 2 * real_of_int d * half_up n d"
    by simp_all
  have d: "0 < real_of_int d" using assms(2) by simp
  have n: "real_of_int n = of_int d * (of_int n / of_int d)" using d by simp
  define x where "x = real_of_int (half_up n d) - of_int n / of_int d"
  have "2 * real_of_int d * x = 2 * real_of_int d * half_up n d - 2 * n" using d by (simp add: x_def algebra_simps)
  with b have "2 * real_of_int d * x \<le> real_of_int d * 1" "real_of_int d * (- 1) \<le> 2 * real_of_int d * x" by simp_all
  then have "real_of_int d * (2 * x) \<le> real_of_int d * 1" "real_of_int d * (- 1) \<le> real_of_int d * (2 * x)" by (simp_all add: algebra_simps)
  then have "2 * x \<le> 1" "- 1 \<le> 2 * x" using d by (simp_all only: mult_le_cancel_left_pos)
  then have "\<bar>x\<bar> \<le> 1 / 2" by linarith
  then show ?thesis by (simp add: x_def)
qed

lemma quantize_exact: "digits d \<le> n \<Longrightarrow> dec_value (quantize n d) = dec_value d"
  by (simp add: quantize_def dec_value_def [of "dec _ _"] value_rescale)

lemma quantize_error:
  assumes "0 \<le> coefficient d"
  shows "\<bar>dec_value (quantize n d) - dec_value d\<bar> \<le> 1 / (2 * 10 ^ n)"
proof (cases "digits d \<le> n")
  case True
  then show ?thesis by (simp add: quantize_exact)
next
  case False
  define q :: int where "q = 10 ^ (digits d - n)"
  have q: "0 < q" by (simp add: q_def)
  have p: "(10::real) ^ digits d = of_int q * 10 ^ n" using False by (simp add: q_def flip: power_add)
  have "dec_value (quantize n d) - dec_value d = (real_of_int (half_up (coefficient d) q) - of_int (coefficient d) / of_int q) / 10 ^ n"
    using False q by (simp add: quantize_def dec_value_def p diff_divide_distrib flip: q_def)
  then have "\<bar>dec_value (quantize n d) - dec_value d\<bar> = \<bar>real_of_int (half_up (coefficient d) q) - of_int (coefficient d) / of_int q\<bar> / 10 ^ n"
    by (simp add: abs_divide)
  also have "\<dots> \<le> (1 / 2) / 10 ^ n" using half_up_value [OF assms q] by (intro divide_right_mono) simp_all
  finally show ?thesis by simp
qed

lemma dec_nonneg:
  "\<lbrakk>0 \<le> coefficient a; 0 \<le> coefficient b\<rbrakk> \<Longrightarrow> 0 \<le> coefficient (dec_mult a b)"
  "\<lbrakk>0 \<le> coefficient a; 0 \<le> coefficient b\<rbrakk> \<Longrightarrow> 0 \<le> coefficient (dec_add a b)"
  "0 \<le> coefficient a \<Longrightarrow> 0 \<le> coefficient (quantize n a)"
  by (simp_all add: dec_mult_def dec_add_def Let_def rescale_def quantize_def half_up_def pos_imp_zdiv_nonneg_iff)

lemma value_nonneg: "0 \<le> coefficient a \<Longrightarrow> 0 \<le> dec_value a"
  by (simp add: dec_value_def)

section \<open>The rate card\<close>

definition LAST_MILE_STANDARD :: "string \<Rightarrow> fixed_decimal" where
  "LAST_MILE_STANDARD code = (if code = ''USD'' then dec 640 2 else dec 580 2)"

definition RETURNS_PROCESSING :: "string \<Rightarrow> fixed_decimal" where
  "RETURNS_PROCESSING code = (if code = ''USD'' then dec 390 2 else dec 350 2)"

definition STORAGE_PER_CUBIC_METER :: "string \<Rightarrow> fixed_decimal" where
  "STORAGE_PER_CUBIC_METER code = (if code = ''USD'' then dec 1800 2 else dec 1600 2)"

definition CUBIC_METERS_PER_ORDER :: fixed_decimal where "CUBIC_METERS_PER_ORDER = dec 12 3"
definition RETURN_RATE :: fixed_decimal where "RETURN_RATE = dec 6 2"

definition DISCOUNT_TIERS :: "(int \<times> fixed_decimal \<times> string) list" where
  "DISCOUNT_TIERS =
     [(20000, dec 12 2, ''20,000+ orders / month''), (5000, dec 8 2, ''5,000-19,999 orders / month''),
      (1000, dec 5 2, ''1,000-4,999 orders / month''), (0, dec 0 2, ''Up to 999 orders / month'')]"

definition CURRENCY_SYMBOLS :: "(string \<times> string) list" where
  "CURRENCY_SYMBOLS = [(''USD'', ''$''), (''EUR'', [CHR 0x80])]"

definition DEFAULT_CURRENCY :: string where "DEFAULT_CURRENCY = ''USD''"
definition FALLBACK_MONTHLY_VOLUME :: int where "FALLBACK_MONTHLY_VOLUME = 1000"

section \<open>The estimate\<close>

record cost_line =
  cl_label :: string
  cl_quantity :: fixed_decimal
  cl_unit :: string
  cl_unit_price :: fixed_decimal
  cl_total :: fixed_decimal

record cost_breakdown =
  cb_currency :: string
  cb_symbol :: string
  cb_volume :: int
  cb_assumed :: bool
  cb_lines :: "cost_line list"
  cb_subtotal :: fixed_decimal
  cb_rate :: fixed_decimal
  cb_tier :: string
  cb_discount :: fixed_decimal
  cb_total :: fixed_decimal
  cb_assumptions :: "string list"

definition money :: "fixed_decimal \<Rightarrow> fixed_decimal" where
  "money d = quantize 2 d"

definition annual_total :: "cost_breakdown \<Rightarrow> fixed_decimal" where
  "annual_total b = money (dec_mult (cb_total b) (dec 12 0))"

definition resolve_currency :: "string option \<Rightarrow> string" where
  "resolve_currency c = (if c \<in> {Some ''USD'', Some ''EUR''} then the c else DEFAULT_CURRENCY)"

definition discount_for_volume :: "int \<Rightarrow> fixed_decimal \<times> string" where
  "discount_for_volume volume =
     (case List.find (\<lambda>(threshold, rate, label). threshold \<le> volume) DISCOUNT_TIERS of
        Some (threshold, rate, label) \<Rightarrow> (rate, label)
      | None \<Rightarrow> (dec 0 2, snd (snd (last DISCOUNT_TIERS))))"

definition cost_lines :: "string \<Rightarrow> int \<Rightarrow> cost_line list" where
  "cost_lines code volume =
     (let orders = dec volume 0;
          returned = quantize 0 (dec_mult orders RETURN_RATE);
          cubic = quantize 2 (dec_mult orders CUBIC_METERS_PER_ORDER);
          line = (\<lambda>label quantity unit price. \<lparr>cl_label = label, cl_quantity = quantity, cl_unit = unit,
            cl_unit_price = price, cl_total = money (dec_mult quantity price)\<rparr>) in
      [line ''Last-mile delivery (standard)'' orders ''shipments / month'' (LAST_MILE_STANDARD code),
       line ''Returns processing'' returned ''units / month'' (RETURNS_PROCESSING code),
       line ''Storage (estimated)'' cubic (CHR ''m'' # CHR 0xB3 # '' / month'') (STORAGE_PER_CUBIC_METER code)])"

text \<open>\<open>format(n, ",")\<close> of a number of at least 0, and the two notations of amounts.\<close>

fun grouped :: "string \<Rightarrow> string" where
  "grouped (a # b # c # d # s) = a # b # c # CHR '','' # grouped (d # s)"
| "grouped s = s"

definition thousands :: "int \<Rightarrow> string" where
  "thousands n = rev (grouped (rev (str_int n)))"

definition fixed2 :: "fixed_decimal \<Rightarrow> string" where
  "fixed2 d =
     (let cents = coefficient (quantize 2 d) in
      (if cents < 0 then ''-'' else '''') @ thousands (\<bar>cents\<bar> div 100) @ ''.'' @
        [digit (nat (\<bar>cents\<bar> mod 100 div 10)), digit (nat (\<bar>cents\<bar> mod 10))])"

definition percent :: "fixed_decimal \<Rightarrow> string" where
  "percent d = str_int (coefficient (quantize 0 (dec_mult d (dec 100 0)))) @ ''%''"

definition assumptions :: "bool \<Rightarrow> string list" where
  "assumptions volume_assumed =
     (if volume_assumed
      then [''The RFP did not state a monthly volume; '' @ thousands FALLBACK_MONTHLY_VOLUME @
        '' orders per month is used as an illustrative figure.''] else []) @
     [''Storage estimated at 0.012 m'' @ [CHR 0xB3] @
        '' per monthly order; to be confirmed once real product dimensions are known.'',
      ''Returns estimated at '' @ percent RETURN_RATE @ '' of monthly orders.'',
      ''Standard delivery service assumed for all shipments.'',
      ''Volume discount applies to last-mile and returns processing only. Storage discounts require account-management approval and are not included here.'']"

definition build_cost_breakdown :: "string option \<Rightarrow> int option \<Rightarrow> cost_breakdown" where
  "build_cost_breakdown currency monthly_volume =
     (let code = resolve_currency currency;
          assumed = (case monthly_volume of None \<Rightarrow> True | Some v \<Rightarrow> v \<le> 0);
          volume = (if assumed then FALLBACK_MONTHLY_VOLUME else the monthly_volume);
          ls = cost_lines code volume;
          discountable = dec_add (cl_total (ls ! 0)) (cl_total (ls ! 1));
          (rate, tier) = discount_for_volume volume;
          discount = money (dec_mult discountable rate);
          subtotal = money (dec_add discountable (cl_total (ls ! 2))) in
      \<lparr>cb_currency = code, cb_symbol = the (map_of CURRENCY_SYMBOLS code), cb_volume = volume, cb_assumed = assumed,
       cb_lines = ls, cb_subtotal = subtotal, cb_rate = rate, cb_tier = tier, cb_discount = discount,
       cb_total = money (dec_sub subtotal discount), cb_assumptions = assumptions assumed\<rparr>)"

section \<open>Rendering\<close>

definition format_amount :: "cost_breakdown \<Rightarrow> fixed_decimal \<Rightarrow> string" where
  "format_amount b d = cb_symbol b @ fixed2 d"

definition cost_row :: "cost_breakdown \<Rightarrow> cost_line \<Rightarrow> string" where
  "cost_row b l =
     ''| '' @ cl_label l @ '' | '' @
     (if take 2 (cl_unit l) = [CHR ''m'', CHR 0xB3] then fixed2 (cl_quantity l) else thousands (coefficient (quantize 0 (cl_quantity l)))) @
     '' '' @ cl_unit l @ '' | '' @ format_amount b (cl_unit_price l) @ '' | '' @ format_amount b (cl_total l) @ '' |''"

definition newline :: string where
  "newline = [CHR 0x0A]"

fun join_with :: "string \<Rightarrow> string list \<Rightarrow> string" where
  "join_with sep [] = ''''"
| "join_with sep [w] = w"
| "join_with sep (w # ws) = w @ sep @ join_with sep ws"

definition cost_summary_markdown :: "cost_breakdown \<Rightarrow> string" where
  "cost_summary_markdown b =
     join_with newline
       ([''| Service | Volume | Unit price | Monthly cost |'', ''| --- | --- | --- | --- |'']
        @ map (cost_row b) (cb_lines b)
        @ [''| **Subtotal** |  |  | **'' @ format_amount b (cb_subtotal b) @ ''** |'',
           ''| Volume discount tier ('' @ cb_tier b @ '') |  | '' @ percent (cb_rate b) @ '' | -'' @
             format_amount b (cb_discount b) @ '' |'',
           ''| **Estimated monthly total** |  |  | **'' @ format_amount b (cb_total b) @ ''** |''])
     @ newline @ newline @ ''Estimated annual total: **'' @ format_amount b (annual_total b) @ ''** ('' @ cb_currency b @ '').''
     @ newline @ newline @ ''**Assumptions**'' @ newline @ newline
     @ join_with newline (map (\<lambda>a. ''- '' @ a) (cb_assumptions b))
     @ newline @ newline @ ''All figures are a draft estimate for review by the account manager and are not a binding quotation.''
     @ newline"


section \<open>The quote follows the rate card\<close>

lemma money_exact: "digits d \<le> 2 \<Longrightarrow> dec_value (money d) = dec_value d"
  by (simp add: money_def quantize_exact)

lemma tier_cases: "discount_for_volume v = (rate, tier) \<Longrightarrow> rate \<in> {dec 12 2, dec 8 2, dec 5 2, dec 0 2}"
  by (auto simp: discount_for_volume_def DISCOUNT_TIERS_def split: if_splits)

lemma prices:
  "digits (LAST_MILE_STANDARD c) = 2" "digits (RETURNS_PROCESSING c) = 2" "digits (STORAGE_PER_CUBIC_METER c) = 2"
  "0 \<le> coefficient (LAST_MILE_STANDARD c)" "0 \<le> coefficient (RETURNS_PROCESSING c)"
  "0 \<le> coefficient (STORAGE_PER_CUBIC_METER c)" "dec_value (RETURNS_PROCESSING c) \<le> 39 / 10"
  "dec_value (STORAGE_PER_CUBIC_METER c) \<le> 18" "0 \<le> dec_value (RETURNS_PROCESSING c)" "0 \<le> dec_value (STORAGE_PER_CUBIC_METER c)"
  "5 \<le> dec_value (LAST_MILE_STANDARD c)"
  by (simp_all add: LAST_MILE_STANDARD_def RETURNS_PROCESSING_def STORAGE_PER_CUBIC_METER_def dec_value_def)

definition rate_card :: "string \<Rightarrow> int \<Rightarrow> real" where
  "rate_card code v =
     (1 - dec_value (fst (discount_for_volume v))) *
       (v * dec_value (LAST_MILE_STANDARD code) + v * dec_value RETURN_RATE * dec_value (RETURNS_PROCESSING code))
     + v * dec_value CUBIC_METERS_PER_ORDER * dec_value (STORAGE_PER_CUBIC_METER code)"

lemma cost_lines_nth:
  "cl_total (cost_lines code v ! 0) = money (dec_mult (dec v 0) (LAST_MILE_STANDARD code))"
  "cl_total (cost_lines code v ! 1) = money (dec_mult (quantize 0 (dec_mult (dec v 0) RETURN_RATE)) (RETURNS_PROCESSING code))"
  "cl_total (cost_lines code v ! 2) = money (dec_mult (quantize 2 (dec_mult (dec v 0) CUBIC_METERS_PER_ORDER)) (STORAGE_PER_CUBIC_METER code))"
  by (simp_all add: cost_lines_def Let_def)

lemma dec_digits [simp]:
  "digits (dec_mult a b) = digits a + digits b" "digits (dec_add a b) = max (digits a) (digits b)"
  "digits (dec_sub a b) = max (digits a) (digits b)" "digits (quantize n a) = n" "digits (money a) = 2"
  by (simp_all add: dec_mult_def dec_add_def dec_sub_def Let_def quantize_def money_def)

lemma quote_head:
  "cb_currency (build_cost_breakdown c v) = resolve_currency c"
  "cb_symbol (build_cost_breakdown c v) = the (map_of CURRENCY_SYMBOLS (resolve_currency c))"
  "cb_volume (build_cost_breakdown c v) =
    (if (case v of None \<Rightarrow> True | Some w \<Rightarrow> w \<le> 0) then FALLBACK_MONTHLY_VOLUME else the v)"
  by (simp_all add: build_cost_breakdown_def Let_def split: prod.split)

lemma quote_parts:
  assumes "b = build_cost_breakdown currency volume"
  shows "cb_lines b = cost_lines (cb_currency b) (cb_volume b)"
    and "cb_discount b = money (dec_mult (dec_add (cl_total (cb_lines b ! 0)) (cl_total (cb_lines b ! 1))) (fst (discount_for_volume (cb_volume b))))"
    and "cb_subtotal b = money (dec_add (dec_add (cl_total (cb_lines b ! 0)) (cl_total (cb_lines b ! 1))) (cl_total (cb_lines b ! 2)))"
    and "cb_total b = money (dec_sub (cb_subtotal b) (cb_discount b))"
  by (simp_all add: assms build_cost_breakdown_def Let_def split: prod.split)



end
