(* ===== verification/RfpDrafting.thy ===== *)
theory RfpDrafting
  imports RfpIntake RfpPricing
begin

text \<open>
  Drafting a department's section (\<open>domains/rfp/generation.py\<close>): the prompt, the call of the model and
  the loop that redrafts with the evaluators' feedback up to the cap. Retrieval and the model are
  parameters; the model may answer the same prompt differently at each draw (its first argument), \<open>None\<close>
  is a \<open>RagPipelineError\<close>. Prompts are in Windows-1252, where 0x97 is the long dash.
\<close>

section \<open>The prompt\<close>

record chunk =
  ch_source :: "string option"
  ch_section :: "string option"
  ch_text :: "string option"

record writer =
  wr_retrieve :: "string \<Rightarrow> string option \<Rightarrow> chunk list option"
  wr_complete :: "nat \<Rightarrow> string \<Rightarrow> string \<Rightarrow> (string \<times> payload option) option"
  wr_model :: string

definition GUIDELINES :: string where
  "GUIDELINES =
     ''Quote only in the client'' @ [CHR 0x27] @
     ''s currency. State the on-time delivery SLA as a percentage. Never promise returns processing in '' @
     ''under 48 hours. Include a volume-based discount tier table. Never disclose negotiated carrier rates '' @
     [CHR 0x97] @ '' only the final price to the client.''"

definition drafting_system_prompt :: "string \<Rightarrow> string \<Rightarrow> string" where
  "drafting_system_prompt currency symbol =
     ''You are a TrackFlow proposal writer drafting ONE department section of a B2B logistics pricing '' @
     ''proposal. A human account manager reviews and approves your draft next, so you should compose concrete '' @
     ''commercial terms rather than refuse. Write in a confident, professional proposal voice with short, '' @
     ''readable sentences.'' @ [CHR 0x0A] @ [CHR 0x0A] @ ''Ground service facts '' @ [CHR 0x97] @
     '' delivery windows, storage rates, returns handling, carrier coverage '' @ [CHR 0x97] @
     '' in the TrackFlow policy context provided. Where the context gives a figure, use it; otherwise '' @
     ''propose reasonable, clearly-labelled draft terms consistent with that policy for the human to confirm.'' @
     [CHR 0x0A] @ [CHR 0x0A] @ ''Every section MUST:'' @ [CHR 0x0A] @ ''- Quote all prices only in '' @
     currency @ '' using the '' @ symbol @
     '' symbol; never use any other currency.'' @ [CHR 0x0A] @
     ''- State an on-time delivery SLA as a percentage (for example '' @ [CHR 0x27] @ ''98% on-time delivery'' @
     [CHR 0x27] @ '').'' @ [CHR 0x0A] @ ''- Include a volume-based discount tier table and use the words '' @
     [CHR 0x27] @ ''volume'' @ [CHR 0x27] @ '' and '' @ [CHR 0x27] @ ''discount tier'' @ [CHR 0x27] @ ''.'' @
     [CHR 0x0A] @ [CHR 0x0A] @ ''Every section MUST NOT:'' @ [CHR 0x0A] @
     ''- Promise returns processing in under 48 hours; note international returns are handled manually '' @
     ''by Sof'' @ [CHR 0xED] @ ''a Ramos'' @ [CHR 0x27] @ ''s team.'' @ [CHR 0x0A] @
     ''- Disclose negotiated or internal carrier rates '' @ [CHR 0x97] @
     '' quote only the final price to the client.'' @ [CHR 0x0A] @
     ''- Grant a storage discount on your own authority '' @ [CHR 0x97] @ '' note it requires Miguel Torres'' @
     [CHR 0x27] @ ''s approval.'' @ [CHR 0x0A] @ [CHR 0x0A] @ ''Return only the section text.''"

definition currency_symbol :: "string \<Rightarrow> string" where
  "currency_symbol code = coalesce (map_of CURRENCY_SYMBOLS code) ''$''"

definition comma_list :: "string list \<Rightarrow> string" where
  "comma_list ws = join_with '', '' ws"

definition or_else :: "string \<Rightarrow> string \<Rightarrow> string" where
  "or_else s other = (if s = [] then other else s)"

definition grounding_query :: "department \<Rightarrow> string list \<Rightarrow> string" where
  "grounding_query d key_aspects =
     ''TrackFlow '' @ department_id d @ '' logistics services for a B2B client: delivery SLA percentage, '' @
     ''returns policy, storage pricing, carrier coverage. '' @
     ''Client priorities: '' @ or_else (comma_list key_aspects) ''standard fulfilment'' @ ''.''"

definition grounding :: "writer \<Rightarrow> department \<Rightarrow> string option \<Rightarrow> string list \<Rightarrow> chunk list option" where
  "grounding w d country key_aspects =
     wr_retrieve w (grounding_query d key_aspects) (if country \<in> {Some ''US'', Some ''ES''} then country else None)"

definition format_grounding :: "chunk list \<Rightarrow> string" where
  "format_grounding chunks =
     (if chunks = [] then ''No specific policy excerpts were retrieved; draft from standard TrackFlow logistics practice.''
      else join_with (newline @ newline)
        (map (\<lambda>(n, c). ''['' @ str_nat n @ ''] ('' @ coalesce (ch_source c) ''policy'' @ '' '' @ [CHR 0x97] @ '' '' @
            coalesce (ch_section c) '''' @ '')'' @ newline @ coalesce (ch_text c) '''') (enumerate 1 chunks)))"

definition costing_line :: "cost_breakdown \<Rightarrow> cost_line \<Rightarrow> string" where
  "costing_line b l =
     cl_label l @ '': '' @ fixed2 (cl_quantity l) @ '' '' @ cl_unit l @ '' at '' @ format_amount b (cl_unit_price l) @ '' = '' @
     format_amount b (cl_total l) @ '' per month''"

definition costing_context :: "string \<Rightarrow> int option \<Rightarrow> string" where
  "costing_context currency volume =
     (let b = build_cost_breakdown (Some currency) volume in
      join_with newline
        (map (costing_line b) (cb_lines b) @
         [''Volume discount tier: '' @ cb_tier b @ '' at '' @ percent (cb_rate b) @ '' (last-mile and returns only)'',
          ''Estimated monthly total: '' @ format_amount b (cb_total b),
          ''Use these exact figures where the section mentions price. Do not invent or recalculate any amount.'']))"

definition user_content ::
    "department \<Rightarrow> string option \<Rightarrow> string option \<Rightarrow> int option \<Rightarrow> string list \<Rightarrow> string list \<Rightarrow> chunk list \<Rightarrow> string" where
  "user_content d country currency volume key_aspects feedback chunks =
     (let context = ''Client country: '' @ or_else (coalesce country '''') ''unknown'' @
            ''. Currency: '' @ or_else (coalesce currency '''') ''unknown'' @
            ''. Monthly volume: '' @ (if volume \<in> {None, Some 0} then ''unknown'' else str_int (the volume)) @
            ''. Key aspects: '' @ or_else (comma_list key_aspects) ''none'' @ ''.'';
          fix = (if feedback = [] then '''' else '' Revise the draft to fix these issues: '' @ comma_list feedback @ ''.'');
          currency_code = or_else (coalesce currency '''') ''USD'' in
      ''Draft the '' @ department_id d @ '' section of a TrackFlow logistics pricing proposal.'' @ newline @
      context @ newline @ newline @
      ''Follow these rules exactly: '' @ GUIDELINES @ fix @ newline @ newline @
      ''<approved_cost_estimate>'' @ newline @ costing_context currency_code volume @ newline @ ''</approved_cost_estimate>'' @
      newline @ newline @
      ''<trackflow_policy_context>'' @ newline @ format_grounding chunks @ newline @ ''</trackflow_policy_context>'')"

definition draft_section ::
    "writer \<Rightarrow> nat \<Rightarrow> department \<Rightarrow> string option \<Rightarrow> string option \<Rightarrow> int option \<Rightarrow> string list \<Rightarrow> string list \<Rightarrow>
     (string \<times> model_usage option) option" where
  "draft_section w draw d country currency volume key_aspects feedback =
     (case grounding w d country key_aspects of
        None \<Rightarrow> None
      | Some chunks \<Rightarrow>
          (let currency_code = or_else (coalesce currency '''') ''USD'' in
           case wr_complete w draw (drafting_system_prompt currency_code (currency_symbol currency_code))
                  (user_content d country currency volume key_aspects feedback chunks) of
             None \<Rightarrow> None
           | Some (answer, counters) \<Rightarrow> Some (answer, usage_from_counters counters (wr_model w))))"

definition generate_section ::
    "writer \<Rightarrow> nat \<Rightarrow> rfp_ticket \<Rightarrow> department \<Rightarrow> string list \<Rightarrow> string list \<Rightarrow> (string \<times> model_usage option) option" where
  "generate_section w draw t d key_aspects feedback =
     draft_section w draw d (tk_client_country t) (tk_currency t) (tk_monthly_volume t) key_aspects feedback"

section \<open>The loop\<close>

text \<open>What the loop leaves: the section, whether its last draft passed (\<open>None\<close> when the generator failed) and the usage of the calls.\<close>

fun generate_loop ::
    "writer \<Rightarrow> rfp_ticket \<Rightarrow> nat list \<Rightarrow> string list \<Rightarrow> model_usage option list \<Rightarrow> rfp_section \<Rightarrow>
     rfp_section \<times> bool option \<times> model_usage option list" where
  "generate_loop w t [] feedback usages s = (s, Some False, usages)"
| "generate_loop w t (iteration # rest) feedback usages s =
     (case generate_section w iteration t (sc_department s) (sc_aspects s) feedback of
        None \<Rightarrow> (s\<lparr>sc_draft := None, sc_results := Some GenerationFailed, sc_iterations := iteration\<rparr>, None, usages)
      | Some (draft, usage) \<Rightarrow>
          (let e = evaluate_section draft (tk_currency t) (department_id (sc_department s)) (sc_aspects s);
               s' = s\<lparr>sc_draft := Some draft, sc_results := Some (Evaluated e (Some iteration)), sc_iterations := iteration\<rparr> in
           if ev_passed e then (s', Some True, usages @ [usage])
           else generate_loop w t rest (ev_issues e) (usages @ [usage]) s'))"

definition iterations_of :: "int \<Rightarrow> nat list" where
  "iterations_of max_iterations = [1..<nat (max 1 max_iterations) + 1]"

definition generate_one ::
    "(rat list \<Rightarrow> rat) \<Rightarrow> writer \<Rightarrow> rfp_ticket \<Rightarrow> int \<Rightarrow> rfp_section \<Rightarrow> rfp_section \<times> trace_step" where
  "generate_one fsum w t max_iterations s =
     (let node = ''generate:'' @ department_id (sc_department s) in
      case generate_loop w t (iterations_of max_iterations) [] [] s of
        (s', None, usages) \<Rightarrow> (s', node_step node ''error'' None (None, None))
      | (s', Some passed, usages) \<Rightarrow>
          (s', node_step node ''ok'' (Some (if passed then ''passed'' else ''needs_human'')) (combine_usage fsum usages)))"

section \<open>The job\<close>

definition generation_read :: "rfp_db \<Rightarrow> uuid \<Rightarrow> (rfp_ticket \<times> rfp_section list) option" where
  "generation_read db tid =
     (case rfp_get db tid of
        Some t \<Rightarrow> if tk_status t = Drafting then Some (t, sections_for_ticket db tid) else None
      | None \<Rightarrow> None)"

definition draft_columns :: "rfp_section \<Rightarrow> rfp_section \<Rightarrow> rfp_section" where
  "draft_columns new s = s\<lparr>sc_draft := sc_draft new, sc_results := sc_results new, sc_iterations := sc_iterations new\<rparr>"

definition replace_drafts :: "rfp_section list \<Rightarrow> rfp_section list \<Rightarrow> rfp_section list" where
  "replace_drafts new rows =
     map (\<lambda>s. case List.find (\<lambda>n. sc_id n = sc_id s) new of Some n \<Rightarrow> draft_columns n s | None \<Rightarrow> s) rows"

text \<open>The first commit writes the status of the ticket and, with it, the drafts; the second only the time of the sections.\<close>

definition generation_save :: "instant \<Rightarrow> uuid \<Rightarrow> rfp_section list \<Rightarrow> rfp_db \<Rightarrow> rfp_db option" where
  "generation_save now tid new db =
     map_option (\<lambda>d. d\<lparr>rfp_sections := replace_drafts new (rfp_sections d)\<rparr>)
       (save_ticket tid (\<lambda>t. t\<lparr>tk_status := UnderEvaluation, tk_updated_at := now\<rparr>) db)"

definition generation_stamp :: "instant \<Rightarrow> rfp_section list \<Rightarrow> rfp_db \<Rightarrow> rfp_db" where
  "generation_stamp now new db =
     db\<lparr>rfp_sections := update_where (\<lambda>s. sc_id s \<in> set (map sc_id new)) (\<lambda>s. s\<lparr>sc_updated_at := now\<rparr>) (rfp_sections db)\<rparr>"

definition generation_trace :: "(rat list \<Rightarrow> rat) \<Rightarrow> string \<Rightarrow> trace_step list \<Rightarrow> run_row option" where
  "generation_trace fsum env steps =
     (if steps = [] then None
      else Some (persist_run fsum ''trackflow-rfp-generation'' (if list_all (\<lambda>s. ns_status s = ''ok'') steps then ''ok'' else ''error'')
             ''generate'' (sequenced steps) 0 env None None))"

definition run_generation_for_ticket ::
    "(rat list \<Rightarrow> rat) \<Rightarrow> writer \<Rightarrow> int \<Rightarrow> string \<Rightarrow> instant \<Rightarrow> uuid \<Rightarrow> rfp_db \<Rightarrow> rfp_db \<times> run_row option" where
  "run_generation_for_ticket fsum w max_iterations env now tid db =
     (case generation_read db tid of
        None \<Rightarrow> (db, None)
      | Some (t, sections) \<Rightarrow>
          (let results = map (generate_one fsum w t max_iterations) sections; new = map fst results in
           case generation_save now tid new db of
             None \<Rightarrow> (db, None)
           | Some db' \<Rightarrow> (generation_stamp now new db', generation_trace fsum env (map snd results))))"


section \<open>What the loop leaves\<close>

definition draft_of :: "rfp_section \<Rightarrow> string option \<times> section_results option \<times> nat" where
  "draft_of s = (sc_draft s, sc_results s, sc_iterations s)"

definition accepts :: "rfp_ticket \<Rightarrow> rfp_section \<Rightarrow> string \<Rightarrow> bool" where
  "accepts t s draft = ev_passed (evaluate_section draft (tk_currency t) (department_id (sc_department s)) (sc_aspects s))"

lemma generate_loop_columns:
  "draft_columns (fst (generate_loop w t its fb us s)) s = fst (generate_loop w t its fb us s)"
  by (induction w t its fb us s rule: generate_loop.induct) (auto simp: draft_columns_def Let_def split: option.splits)

lemma generate_loop_frame:
  "sc_id (fst (generate_loop w t its fb us s)) = sc_id s" "sc_ticket (fst (generate_loop w t its fb us s)) = sc_ticket s"
  "sc_department (fst (generate_loop w t its fb us s)) = sc_department s"
  "sc_approval (fst (generate_loop w t its fb us s)) = sc_approval s" "sc_aspects (fst (generate_loop w t its fb us s)) = sc_aspects s"
  by (subst generate_loop_columns [symmetric], simp add: draft_columns_def)+

lemma generate_loop_result:
  assumes "generate_loop w t its fb us s = (s', p, us')" and "its \<noteq> []"
  shows "sc_iterations s' \<in> set its \<and> length us' \<le> length us + length its \<and>
    (case p of
       None \<Rightarrow> sc_draft s' = None \<and> sc_results s' = Some GenerationFailed
     | Some passed \<Rightarrow> \<exists>d e. sc_draft s' = Some d \<and> sc_results s' = Some (Evaluated e (Some (sc_iterations s'))) \<and>
         e = evaluate_section d (tk_currency t) (department_id (sc_department s)) (sc_aspects s) \<and> ev_passed e = passed \<and>
         (\<not> passed \<longrightarrow> sc_iterations s' = last its \<and> length us' = length us + length its))"
  using assms
proof (induction w t its fb us s arbitrary: s' p us' rule: generate_loop.induct)
  case (2 w t i rest fb us s)
  show ?case
  proof (cases "generate_section w i t (sc_department s) (sc_aspects s) fb")
    case None
    then show ?thesis using "2.prems" by auto
  next
    case (Some du)
    obtain d u where du: "du = (d, u)" by fastforce
    let ?e = "evaluate_section d (tk_currency t) (department_id (sc_department s)) (sc_aspects s)"
    let ?s = "s\<lparr>sc_draft := Some d, sc_results := Some (Evaluated ?e (Some i)), sc_iterations := i\<rparr>"
    show ?thesis
    proof (cases "ev_passed ?e")
      case True
      then show ?thesis using "2.prems" Some du by (auto simp: Let_def)
    next
      case fails: False
      show ?thesis
      proof (cases "rest = []")
        case True
        then show ?thesis using "2.prems" Some du fails by (auto simp: Let_def)
      next
        case False
        then have "generate_loop w t rest (ev_issues ?e) (us @ [u]) ?s = (s', p, us')"
          using "2.prems" Some du fails by (simp add: Let_def)
        from "2.IH" [OF Some du [symmetric] refl refl fails this False] False show ?thesis by (auto split: option.splits)
      qed
    qed
  qed
qed simp


text \<open>
  C22: drafting is bounded and its verdict is the evaluators'. Whatever the model answers, a section is
  drafted between once and the cap's times; it is reported as passed exactly when the draft that is kept
  satisfies the evaluators, as in need of a human only after the cap with a draft they refuse, and as an
  error exactly when no draft is kept. Its approval is not touched.
\<close>

theorem drafting_bounded_and_checked:
  assumes "generate_one fsum w t max_iterations s = (s', st)"
  shows "1 \<le> sc_iterations s' \<and> int (sc_iterations s') \<le> max 1 max_iterations \<and> sc_approval s' = sc_approval s \<and>
    (ns_notes st = Some ''passed'' \<longleftrightarrow> (\<exists>d. sc_draft s' = Some d \<and> accepts t s d)) \<and>
    (ns_notes st = Some ''needs_human'' \<longleftrightarrow> (\<exists>d. sc_draft s' = Some d \<and> \<not> accepts t s d)) \<and>
    (ns_notes st = Some ''needs_human'' \<longrightarrow> int (sc_iterations s') = max 1 max_iterations) \<and>
    (ns_status st = ''error'' \<longleftrightarrow> sc_draft s' = None)"
proof -
  let ?its = "iterations_of max_iterations"
  obtain p us where loop: "generate_loop w t ?its [] [] s = (s', p, us)"
    using assms by (auto simp: generate_one_def Let_def split: prod.splits option.splits)
  have its: "?its \<noteq> []" "set ?its = {1..nat (max 1 max_iterations)}" "last ?its = nat (max 1 max_iterations)"
    by (auto simp: iterations_of_def)
  note r = generate_loop_result [OF loop its(1)]
  have n: "1 \<le> sc_iterations s'" "int (sc_iterations s') \<le> max 1 max_iterations" using r its(2) by auto
  have cap: "int (last ?its) = max 1 max_iterations"
    using its(3) by (metis int_nat_eq max.cobounded1 order_trans zero_le_one)
  have a: "sc_approval s' = sc_approval s" using generate_loop_frame(4) [of w t ?its "[]" "[]" s] loop by simp
  show ?thesis
  proof (cases p)
    case None
    then show ?thesis using n a r assms loop by (auto simp: generate_one_def node_step_def)
  next
    case (Some passed)
    then show ?thesis using n a r assms loop cap
      by (cases passed) (auto simp: generate_one_def node_step_def accepts_def)
  qed
qed

definition mute_writer :: writer where
  "mute_writer = \<lparr>wr_retrieve = (\<lambda>query jurisdiction. Some []), wr_complete = (\<lambda>draw system user. Some (''We ship.'', None)), wr_model = ''deepseek-chat''\<rparr>"

definition blank_ticket :: rfp_ticket where
  "blank_ticket =
     \<lparr>tk_id = ''t'', tk_rfp_id = ''RFP-1'', tk_status = Drafting, tk_owner = ''ana'', tk_operator_jurisdiction = None,
      tk_client_name = None, tk_client_country = None, tk_currency = None, tk_services = None, tk_monthly_volume = Some 10,
      tk_deadline_days = None, tk_budget_range = None, tk_departments = None, tk_metrics = None, tk_markdown = None,
      tk_discard_reason = None, tk_created_at = 0, tk_updated_at = 0\<rparr>"

definition blank_section :: rfp_section where
  "blank_section =
     \<lparr>sc_id = ''s'', sc_ticket = ''t'', sc_department = Reverse, sc_aspects = [], sc_draft = None, sc_results = None,
      sc_iterations = 0, sc_approval = Pending, sc_approver = None, sc_approved_at = None, sc_created_at = 0, sc_updated_at = 0\<rparr>"

lemma mute_draft: "draft_section mute_writer n d c cur v as fb = Some (''We ship.'', None)"
  by (simp add: draft_section_def grounding_def mute_writer_def usage_from_counters_def Let_def)

lemma mute_refused: "\<not> ev_passed (evaluate_section ''We ship.'' None ''reverse'' [])"
proof
  assume "ev_passed (evaluate_section ''We ship.'' None ''reverse'' [])"
  then have "MIN_WORDS \<le> length (words_of ''We ship.'')" by (rule accepted_section(1))
  moreover have "length (words_of ''We ship.'') = 2" by code_simp
  ultimately show False by (simp add: MIN_WORDS_def)
qed

lemma drafting_bounded_and_checked_witness:
  "let (s', st) = generate_one sum_list mute_writer blank_ticket 2 blank_section in
    sc_iterations s' = 2 \<and> ns_notes st = Some ''needs_human'' \<and> sc_draft s' = Some ''We ship.''"
proof -
  obtain s' st where g: "generate_one sum_list mute_writer blank_ticket 2 blank_section = (s', st)" by fastforce
  have "iterations_of 2 = [1, 2]" by (simp add: iterations_of_def upt_rec)
  then have f: "sc_draft s' = Some ''We ship.''" "ns_notes st = Some ''needs_human''"
    using g mute_refused by (auto simp: generate_one_def generate_section_def mute_draft node_step_def Let_def blank_section_def blank_ticket_def department_id_def)
  with drafting_bounded_and_checked [OF g] g show ?thesis by simp
qed

end
