(* ===== verification/RfpApproval.thy ===== *)
theory RfpApproval
  imports RfpDrafting
begin

text \<open>
  Human approval (\<open>domains/rfp/approval.py\<close>) and the service (\<open>service.py\<close>). Each department of a ticket has
  an approval thread in LangGraph's checkpointer, in its own durable store: a thread is paused at the
  \<open>review\<close> node's interrupt or has ended. \<open>resume\<close> is the graph from the interrupt to the next one, or to
  its end, as one step; checking that a thread is paused and resuming it are one step too.
\<close>

section \<open>The approval graph\<close>

datatype approval_outcome = OutcomeApproved | OutcomeRejected | ChangesExhausted | GenerationError

record approval_state =
  ap_department :: department
  ap_country :: "string option"
  ap_currency :: "string option"
  ap_volume :: "int option"
  ap_aspects :: "string list"
  ap_draft :: string
  ap_iterations :: nat
  ap_max_iterations :: int
  ap_feedback :: "string list"
  ap_evaluation :: "evaluation option"
  ap_decision :: "(string \<times> string option) option"
  ap_outcome :: "approval_outcome option"
  ap_steps :: "trace_step list"

datatype thread = Paused approval_state | Ended approval_state

fun thread_state :: "thread \<Rightarrow> approval_state" where
  "thread_state (Paused s) = s"
| "thread_state (Ended s) = s"

fun paused :: "thread \<Rightarrow> bool" where
  "paused (Paused s) = True"
| "paused (Ended s) = False"

definition initial_approval :: "rfp_ticket \<Rightarrow> rfp_section \<Rightarrow> int \<Rightarrow> approval_state" where
  "initial_approval t s max_iterations =
     \<lparr>ap_department = sc_department s, ap_country = tk_client_country t, ap_currency = tk_currency t,
      ap_volume = tk_monthly_volume t, ap_aspects = sc_aspects s, ap_draft = coalesce (sc_draft s) '''',
      ap_iterations = (if sc_iterations s = 0 then 1 else sc_iterations s), ap_max_iterations = max_iterations,
      ap_feedback = [], ap_evaluation = None, ap_decision = None, ap_outcome = None, ap_steps = []\<rparr>"

definition end_with :: "approval_outcome \<Rightarrow> trace_step \<Rightarrow> approval_state \<Rightarrow> approval_state" where
  "end_with outcome step s = s\<lparr>ap_outcome := Some outcome, ap_steps := ap_steps s @ [step]\<rparr>"

definition revise :: "writer \<Rightarrow> approval_state \<Rightarrow> approval_state" where
  "revise w s =
     (if ap_max_iterations s \<le> int (ap_iterations s)
      then end_with ChangesExhausted (node_step ''revise'' ''ok'' (Some ''cap_reached'') (None, None)) s
      else case draft_section w (ap_iterations s + 1) (ap_department s) (ap_country s) (ap_currency s) (ap_volume s)
                  (ap_aspects s) (ap_feedback s) of
             None \<Rightarrow> end_with GenerationError (node_step ''revise'' ''error'' None (None, None)) s
           | Some (draft, usage) \<Rightarrow>
               (let e = evaluate_section draft (ap_currency s) (department_id (ap_department s)) (ap_aspects s) in
                s\<lparr>ap_draft := draft, ap_iterations := ap_iterations s + 1, ap_feedback := ev_issues e,
                  ap_evaluation := Some e,
                  ap_steps := ap_steps s @ [node_step ''revise'' ''ok'' (Some ''redrafted'') (usage_fields usage)]\<rparr>))"

definition resume :: "writer \<Rightarrow> string \<Rightarrow> string option \<Rightarrow> approval_state \<Rightarrow> thread" where
  "resume w action note s0 =
     (let s = s0\<lparr>ap_decision := Some (action, note)\<rparr> in
      if action = ''approve'' then Ended (end_with OutcomeApproved (node_step ''approve'' ''ok'' None (None, None)) s)
      else if action = ''reject'' then Ended (end_with OutcomeRejected (node_step ''reject'' ''ok'' None (None, None)) s)
      else let s' = revise w s in if ap_outcome s' = None then Paused s' else Ended s')"

section \<open>The world\<close>

type_synonym threads = "uuid \<times> department \<Rightarrow> thread option"

record rfp_world =
  w_db :: rfp_db
  w_threads :: threads

definition in_db :: "(rfp_db \<Rightarrow> rfp_db option) \<Rightarrow> rfp_world \<Rightarrow> rfp_world option" where
  "in_db f w = map_option (\<lambda>d. w\<lparr>w_db := d\<rparr>) (f (w_db w))"

definition set_thread :: "uuid \<Rightarrow> department \<Rightarrow> thread \<Rightarrow> rfp_world \<Rightarrow> rfp_world" where
  "set_thread tid d th w = w\<lparr>w_threads := (w_threads w)((tid, d) \<mapsto> th)\<rparr>"

section \<open>Opening the approval\<close>

definition approval_read :: "rfp_db \<Rightarrow> uuid \<Rightarrow> int \<Rightarrow> (department \<times> approval_state) list option" where
  "approval_read db tid max_iterations =
     (case rfp_get db tid of
        Some t \<Rightarrow>
          if tk_status t = UnderEvaluation
          then Some (map (\<lambda>s. (sc_department s, initial_approval t s max_iterations)) (sections_for_ticket db tid)) else None
      | None \<Rightarrow> None)"

definition open_thread :: "uuid \<Rightarrow> department \<times> approval_state \<Rightarrow> rfp_world \<Rightarrow> rfp_world" where
  "open_thread tid = (\<lambda>(d, s). set_thread tid d (Paused s))"

definition still_under_evaluation :: "rfp_db \<Rightarrow> uuid \<Rightarrow> bool" where
  "still_under_evaluation db tid = (map_option tk_status (rfp_get db tid) = Some UnderEvaluation)"

definition mark_waiting :: "instant \<Rightarrow> uuid \<Rightarrow> rfp_db \<Rightarrow> rfp_db option" where
  "mark_waiting now tid = save_ticket tid (\<lambda>t. t\<lparr>tk_status := WaitingForApproval, tk_updated_at := now\<rparr>)"

definition start_ticket_approval :: "int \<Rightarrow> instant \<Rightarrow> uuid \<Rightarrow> rfp_world \<Rightarrow> rfp_world" where
  "start_ticket_approval max_iterations now tid w =
     (case approval_read (w_db w) tid max_iterations of
        None \<Rightarrow> w
      | Some opening \<Rightarrow>
          (let w' = fold (open_thread tid) opening w in
           if still_under_evaluation (w_db w') tid then coalesce (in_db (mark_waiting now tid) w') w' else w'))"

section \<open>Decisions\<close>

datatype decision_error = InvalidAction | AlreadyResolved | DatabaseError

definition VALID_ACTIONS :: "string list" where
  "VALID_ACTIONS = [''approve'', ''reject'', ''request_changes'']"

definition resume_thread ::
    "writer \<Rightarrow> uuid \<Rightarrow> department \<Rightarrow> string \<Rightarrow> string option \<Rightarrow> rfp_world \<Rightarrow> (decision_error + thread) \<times> rfp_world" where
  "resume_thread wr tid d action note w =
     (if action \<notin> set VALID_ACTIONS then (Inl InvalidAction, w)
      else case w_threads w (tid, d) of
             Some (Paused s) \<Rightarrow> (let th = resume wr action note s in (Inr th, set_thread tid d th w))
           | _ \<Rightarrow> (Inl AlreadyResolved, w))"

text \<open>
  The columns a decision sets on the section as it was loaded; the commit sends those that differ from
  what was loaded.
\<close>

definition decided_section :: "instant \<Rightarrow> string \<Rightarrow> thread \<Rightarrow> rfp_section \<Rightarrow> rfp_section" where
  "decided_section now actor th s =
     (let v = thread_state th;
          s' = (if paused th
                then s\<lparr>sc_approval := Pending, sc_draft := Some (ap_draft v), sc_iterations := ap_iterations v,
                       sc_results := (case ap_evaluation v of Some e \<Rightarrow> Some (Evaluated e None) | None \<Rightarrow> sc_results s)\<rparr>
                else case ap_outcome v of
                       Some OutcomeApproved \<Rightarrow> s\<lparr>sc_approval := Approved, sc_approver := Some actor, sc_approved_at := Some now\<rparr>
                     | Some OutcomeRejected \<Rightarrow> s\<lparr>sc_approval := Rejected\<rparr>
                     | _ \<Rightarrow> s\<lparr>sc_approval := ChangesRequested\<rparr>) in
      s'\<lparr>sc_updated_at := now\<rparr>)"

definition changed :: "'a \<Rightarrow> 'a \<Rightarrow> 'a \<Rightarrow> 'a" where
  "changed loaded new current = (if new = loaded then current else new)"

definition write_changes :: "rfp_section \<Rightarrow> rfp_section \<Rightarrow> rfp_section \<Rightarrow> rfp_section" where
  "write_changes loaded new s =
     s\<lparr>sc_approval := changed (sc_approval loaded) (sc_approval new) (sc_approval s),
       sc_draft := changed (sc_draft loaded) (sc_draft new) (sc_draft s),
       sc_iterations := changed (sc_iterations loaded) (sc_iterations new) (sc_iterations s),
       sc_results := changed (sc_results loaded) (sc_results new) (sc_results s),
       sc_approver := changed (sc_approver loaded) (sc_approver new) (sc_approver s),
       sc_approved_at := changed (sc_approved_at loaded) (sc_approved_at new) (sc_approved_at s),
       sc_updated_at := changed (sc_updated_at loaded) (sc_updated_at new) (sc_updated_at s)\<rparr>"

definition save_decision :: "instant \<Rightarrow> string \<Rightarrow> thread \<Rightarrow> rfp_section \<Rightarrow> rfp_db \<Rightarrow> rfp_db option" where
  "save_decision now actor th loaded = save_section (sc_id loaded) (write_changes loaded (decided_section now actor th loaded))"

definition all_approved :: "rfp_db \<Rightarrow> uuid \<Rightarrow> bool" where
  "all_approved db tid = (sections_for_ticket db tid \<noteq> [] \<and> list_all (\<lambda>s. sc_approval s = Approved) (sections_for_ticket db tid))"

definition consolidated :: "rfp_db \<Rightarrow> uuid \<Rightarrow> (department \<times> string) list" where
  "consolidated db tid = map (\<lambda>s. (sc_department s, coalesce (sc_draft s) '''')) (sections_for_ticket db tid)"

definition proposal :: "uuid \<Rightarrow> instant \<Rightarrow> uuid \<Rightarrow> rfp_db \<Rightarrow> rfp_document" where
  "proposal did now tid db =
     \<lparr>fd_id = did, fd_ticket = tid, fd_sections = consolidated db tid,
      fd_currency = or_else (coalesce (Option.bind (rfp_get db tid) tk_currency) '''') ''USD'', fd_generated_at = now\<rparr>"

definition file_document :: "uuid \<Rightarrow> instant \<Rightarrow> uuid \<Rightarrow> rfp_db \<Rightarrow> rfp_db option" where
  "file_document did now tid db = add_final_document (proposal did now tid db) db"

definition mark_done :: "instant \<Rightarrow> uuid \<Rightarrow> rfp_db \<Rightarrow> rfp_db option" where
  "mark_done now tid = save_ticket tid (\<lambda>t. t\<lparr>tk_status := Finished, tk_updated_at := now\<rparr>)"

text \<open>\<open>_maybe_finalize\<close>: \<open>None\<close> is a commit that failed, after which the first of the two may stand.\<close>

definition maybe_finalize :: "uuid \<Rightarrow> instant \<Rightarrow> uuid \<Rightarrow> rfp_world \<Rightarrow> bool option \<times> rfp_world" where
  "maybe_finalize did now tid w =
     (if \<not> all_approved (w_db w) tid then (Some False, w)
      else case in_db (file_document did now tid) w of
             None \<Rightarrow> (None, w)
           | Some w1 \<Rightarrow>
               (case in_db (mark_done now tid) w1 of None \<Rightarrow> (None, w1) | Some w2 \<Rightarrow> (Some True, w2)))"

definition output_preview :: "rfp_db \<Rightarrow> uuid \<Rightarrow> string option" where
  "output_preview db tid =
     non_empty (Some (take 200 (strip_text (join_with '' '' (map (\<lambda>(d, c). department_id d @ '': '' @ c) (consolidated db tid))))))"

definition approval_trace :: "(rat list \<Rightarrow> rat) \<Rightarrow> string \<Rightarrow> rfp_db \<Rightarrow> uuid \<Rightarrow> thread \<Rightarrow> bool \<Rightarrow> run_row option" where
  "approval_trace fsum env db tid th finalized =
     (let count = ''sections='' @ str_nat (length (consolidated db tid));
          steps = ap_steps (thread_state th) @
            (if finalized then [node_step ''arbitration'' ''ok'' (Some count) (None, None), node_step ''finalize'' ''ok'' None (None, None)] else []) in
      if steps = [] then None
      else Some (persist_run fsum ''trackflow-rfp-approval'' (if list_all (\<lambda>s. ns_status s = ''ok'') steps then ''ok'' else ''error'')
             ''approval'' (sequenced steps) 0 env None (if finalized then output_preview db tid else None)))"

record decision_outcome =
  do_section :: approval_status
  do_ticket :: "ticket_status option"
  do_finalized :: bool

definition submit_decision ::
    "writer \<Rightarrow> uuid \<Rightarrow> instant \<Rightarrow> rfp_ticket \<Rightarrow> rfp_section \<Rightarrow> string \<Rightarrow> string option \<Rightarrow> string \<Rightarrow> rfp_world \<Rightarrow>
     (decision_error + decision_outcome) \<times> rfp_world" where
  "submit_decision wr did now t loaded action note actor w =
     (case resume_thread wr (tk_id t) (sc_department loaded) action note w of
        (Inl e, w1) \<Rightarrow> (Inl e, w1)
      | (Inr th, w1) \<Rightarrow>
          (case in_db (save_decision now actor th loaded) w1 of
             None \<Rightarrow> (Inl DatabaseError, w1)
           | Some w2 \<Rightarrow>
               (case maybe_finalize did now (tk_id t) w2 of
                  (None, w3) \<Rightarrow> (Inl DatabaseError, w3)
                | (Some finalized, w3) \<Rightarrow>
                    (Inr \<lparr>do_section = sc_approval (decided_section now actor th loaded),
                          do_ticket = map_option tk_status (rfp_get (w_db w3) (tk_id t)), do_finalized = finalized\<rparr>, w3))))"

section \<open>The service\<close>

type_synonym rfp_error = "nat \<times> string"

definition rfp_unavailable :: rfp_error where
  "rfp_unavailable = (503, ''The RFP workflow is not available right now.'')"

definition department_of :: "string \<Rightarrow> department option" where
  "department_of s = List.find (\<lambda>d. department_id d = s) [Warehouse, LastMile, Reverse]"

definition get_ticket :: "rfp_settings \<Rightarrow> uuid \<Rightarrow> uuid \<Rightarrow> rfp_db \<Rightarrow> rfp_error + rfp_ticket \<times> rfp_section list" where
  "get_ticket settings tid owner db =
     (if \<not> is_rfp_configured settings then Inl rfp_unavailable
      else case get_for_owner db tid owner of
             None \<Rightarrow> Inl (404, ''RFP ticket not found.'')
           | Some t \<Rightarrow> Inr (t, sections_for_ticket db (tk_id t)))"

definition list_tickets :: "rfp_settings \<Rightarrow> uuid \<Rightarrow> ticket_status option \<Rightarrow> nat \<Rightarrow> rfp_db \<Rightarrow> rfp_error + rfp_ticket list" where
  "list_tickets settings owner status limit db =
     (if \<not> is_rfp_configured settings then Inl rfp_unavailable else Inr (list_for_owner db owner status limit))"

definition get_document :: "rfp_settings \<Rightarrow> uuid \<Rightarrow> uuid \<Rightarrow> rfp_db \<Rightarrow> rfp_error + rfp_document" where
  "get_document settings tid owner db =
     (if \<not> is_rfp_configured settings then Inl rfp_unavailable
      else case get_for_owner db tid owner of
             None \<Rightarrow> Inl (404, ''RFP ticket not found.'')
           | Some t \<Rightarrow> (case final_document db tid of
                          None \<Rightarrow> Inl (404, ''The final document is not ready yet.'') | Some d \<Rightarrow> Inr d))"

definition decide ::
    "rfp_settings \<Rightarrow> writer \<Rightarrow> uuid \<Rightarrow> instant \<Rightarrow> uuid \<Rightarrow> string \<Rightarrow> string \<Rightarrow> string option \<Rightarrow> uuid \<Rightarrow> rfp_world \<Rightarrow>
     (rfp_error + rfp_ticket \<times> rfp_section list) \<times> rfp_world" where
  "decide settings wr did now tid dept action note actor w =
     (if \<not> is_rfp_generation_configured settings then (Inl rfp_unavailable, w)
      else case get_for_owner (w_db w) tid actor of
             None \<Rightarrow> (Inl (404, ''RFP ticket not found.''), w)
           | Some t \<Rightarrow>
               (case Option.bind (department_of dept) (section_for_department (w_db w) tid) of
                  None \<Rightarrow> (Inl (404, ''Department section not found.''), w)
                | Some s \<Rightarrow>
                    (case submit_decision wr did now t s action note actor w of
                       (Inl AlreadyResolved, w') \<Rightarrow> (Inl (409, ''This department decision has already been recorded.''), w')
                     | (Inl InvalidAction, w') \<Rightarrow> (Inl (400, ''Unknown decision action.''), w')
                     | (Inl DatabaseError, w') \<Rightarrow> (Inl (500, ''Internal Server Error''), w')
                     | (Inr outcome, w') \<Rightarrow> (get_ticket settings tid actor (w_db w'), w'))))"

record upload =
  up_owner :: uuid
  up_jurisdiction :: "string option"
  up_filename :: "string option"
  up_content_type :: "string option"
  up_data :: string

definition is_pdf :: "upload \<Rightarrow> bool" where
  "is_pdf u = (up_content_type u \<in> {Some ''application/pdf'', Some ''application/x-pdf''} \<or>
     (case up_filename u of Some name \<Rightarrow> suffix ''.pdf'' (lower name) | None \<Rightarrow> False))"

text \<open>An upload answers the new ticket; the intake runs afterwards, with generation where it is configured.\<close>

definition create_from_upload ::
    "rfp_settings \<Rightarrow> (string \<Rightarrow> string option) \<Rightarrow> uuid \<Rightarrow> string \<Rightarrow> instant \<Rightarrow> upload \<Rightarrow> rfp_db \<Rightarrow>
     (rfp_error + rfp_ticket) \<times> rfp_db" where
  "create_from_upload settings extract_text tid token now u db =
     (if \<not> is_rfp_intake_configured settings then (Inl rfp_unavailable, db)
      else if \<not> is_pdf u then (Inl (415, ''Only PDF documents are accepted.''), db)
      else case pdf_to_markdown extract_text (up_data u) of
             Inl detail \<Rightarrow> (Inl (400, detail), db)
           | Inr markdown \<Rightarrow>
               (let t = \<lparr>tk_id = tid, tk_rfp_id = ''RFP-'' @ to_upper (take 10 token), tk_status = Analyzing, tk_owner = up_owner u,
                         tk_operator_jurisdiction = up_jurisdiction u, tk_client_name = None, tk_client_country = None,
                         tk_currency = None, tk_services = None, tk_monthly_volume = None, tk_deadline_days = None,
                         tk_budget_range = None, tk_departments = None, tk_metrics = Some (compute_readability markdown),
                         tk_markdown = Some markdown, tk_discard_reason = None, tk_created_at = now, tk_updated_at = now\<rparr> in
                case add_ticket t db of None \<Rightarrow> (Inl (500, ''Internal Server Error''), db) | Some db' \<Rightarrow> (Inr t, db')))"


section \<open>Redrafts end\<close>

fun requests :: "(writer \<times> string option) list \<Rightarrow> thread \<Rightarrow> thread" where
  "requests [] th = th"
| "requests ((w, note) # rs) (Paused s) = requests rs (resume w ''request_changes'' note s)"
| "requests rs (Ended s) = Ended s"

lemma revise_cases:
  assumes "ap_outcome s = None"
  shows "(ap_outcome (revise w s) = None \<and> int (ap_iterations s) < ap_max_iterations s \<and> ap_iterations (revise w s) = ap_iterations s + 1) \<or>
    (ap_outcome (revise w s) \<in> {Some ChangesExhausted, Some GenerationError} \<and> ap_iterations (revise w s) = ap_iterations s)"
    and "ap_max_iterations (revise w s) = ap_max_iterations s"
  using assms by (auto simp: revise_def end_with_def Let_def split: option.split)

text \<open>
  C21: requests for changes come to an end. After more requests than the cap leaves redrafts, whatever the
  model answers, the department's thread has ended without an approval, with at most the cap's number of
  drafts (or the number it began with, when that is larger): a department that came to the approval with
  its drafts used up is closed by the first request.
\<close>

theorem requests_for_changes_end:
  assumes "ap_outcome s = None" and "nat (ap_max_iterations s - int (ap_iterations s)) < length rs"
  shows "\<exists>v. requests rs (Paused s) = Ended v \<and> ap_outcome v \<in> {Some ChangesExhausted, Some GenerationError} \<and>
    int (ap_iterations v) \<le> max (int (ap_iterations s)) (ap_max_iterations s)"
  using assms
proof (induction rs arbitrary: s)
  case (Cons r rs)
  obtain w n where r: "r = (w, n)" by fastforce
  let ?s = "s\<lparr>ap_decision := Some (''request_changes'', n)\<rparr>"
  have o: "ap_outcome ?s = None" using Cons.prems(1) by simp
  note c = revise_cases [OF o, of w]
  have ended: "requests rs (Ended v) = Ended v" for v by (cases rs) auto
  show ?case
  proof (cases "ap_outcome (revise w ?s) = None")
    case True
    then have i: "int (ap_iterations s) < ap_max_iterations s" "ap_iterations (revise w ?s) = ap_iterations s + 1" using c by auto
    have "nat (ap_max_iterations (revise w ?s) - int (ap_iterations (revise w ?s))) < length rs" using Cons.prems(2) c(2) i by simp
    from Cons.IH [OF True this] obtain v where "requests rs (Paused (revise w ?s)) = Ended v"
      "ap_outcome v \<in> {Some ChangesExhausted, Some GenerationError}" "int (ap_iterations v) \<le> max (int (ap_iterations (revise w ?s))) (ap_max_iterations (revise w ?s))"
      by blast
    then show ?thesis using True r c(2) i by (auto simp: resume_def Let_def)
  next
    case False
    then show ?thesis using c r ended by (auto simp: resume_def Let_def)
  qed
qed simp

lemma requests_for_changes_end_witness:
  "\<exists>v. requests [(mute_writer, Some ''cheaper please'')] (Paused (initial_approval blank_ticket (blank_section\<lparr>sc_iterations := 2\<rparr>) 2)) = Ended v \<and>
    ap_outcome v \<in> {Some ChangesExhausted, Some GenerationError}"
proof -
  let ?s = "initial_approval blank_ticket (blank_section\<lparr>sc_iterations := 2\<rparr>) 2"
  have "ap_outcome ?s = None" "nat (ap_max_iterations ?s - int (ap_iterations ?s)) < length [(mute_writer, Some ''cheaper please'')]"
    by (simp_all add: initial_approval_def)
  from requests_for_changes_end [OF this] show ?thesis by blast
qed

text \<open>The note of a decision is kept with it and reaches neither the prompt of a redraft nor anything else.\<close>

lemma note_ignored: "(thread_state (resume w action n s))\<lparr>ap_decision := None\<rparr> = (thread_state (resume w action m s))\<lparr>ap_decision := None\<rparr>"
  by (auto simp: resume_def revise_def end_with_def Let_def split: option.split)

text \<open>A thread's steps are cumulative: the trace of a later decision repeats the earlier ones.\<close>

lemma steps_repeat: "\<exists>new. ap_steps (thread_state (resume w action n s)) = ap_steps s @ new"
  by (auto simp: resume_def revise_def end_with_def Let_def split: option.split)

end
