(* ===== verification/RfpSystem.thy ===== *)
theory RfpSystem
  imports RfpApproval
begin

text \<open>
  The RFP desk as a system. A \<open>flight\<close> is a request or a background job at one of its pauses: between two
  of its commits, its writes to the checkpointer or its reads. Flights of any number of tickets interleave,
  the models answer anything, and a flight may be lost at any pause (a crash, a failed commit, a swallowed
  exception).
\<close>

section \<open>Flights\<close>

datatype flight =
    Intake uuid
  | AddSections uuid intake_outcome
  | Generate uuid
  | Generated uuid "rfp_section list"
  | Stamping uuid "rfp_section list"
  | Open uuid
  | Opening uuid "(department \<times> approval_state) list"
  | Marking uuid
  | Deciding uuid department string "string option" uuid
  | Loaded rfp_ticket rfp_section string "string option" uuid
  | Resumed rfp_ticket rfp_section thread uuid
  | Saved uuid
  | Filing rfp_document
  | Filed uuid

record rfp_env =
  en_settings :: rfp_settings
  en_now :: instant
  en_id :: uuid
  en_ids :: "department \<Rightarrow> uuid"
  en_intake :: intake_model
  en_writer :: writer
  en_fsum :: "rat list \<Rightarrow> rat"

text \<open>A commit that the database refuses ends the flight.\<close>

definition after_commit :: "(rfp_db \<Rightarrow> rfp_db option) \<Rightarrow> flight option \<Rightarrow> rfp_world \<Rightarrow> rfp_world \<times> flight option" where
  "after_commit f next w = (case in_db f w of None \<Rightarrow> (w, None) | Some w' \<Rightarrow> (w', next))"

fun flight_step :: "rfp_env \<Rightarrow> flight \<Rightarrow> rfp_world \<Rightarrow> rfp_world \<times> flight option" where
  "flight_step e (Intake tid) w =
     (case rfp_get (w_db w) tid of
        None \<Rightarrow> (w, None)
      | Some t \<Rightarrow>
          (let outcome = run_intake (en_fsum e) (en_intake e) (build_rfp_config (en_settings e)) (coalesce (tk_markdown t) '''') in
           after_commit (save_outcome (en_now e) outcome tid) (if io_status outcome = Routed then Some (AddSections tid outcome) else None) w))"
| "flight_step e (AddSections tid outcome) w =
     after_commit (save_outcome_sections (en_ids e) (en_now e) outcome tid)
       (if is_rfp_generation_configured (en_settings e) then Some (Generate tid) else None) w"
| "flight_step e (Generate tid) w =
     (case generation_read (w_db w) tid of
        None \<Rightarrow> (w, Some (Open tid))
      | Some (t, sections) \<Rightarrow>
          (w, Some (Generated tid (map (\<lambda>s. fst (generate_one (en_fsum e) (en_writer e) t (rs_rfp_max_iterations (en_settings e)) s)) sections))))"
| "flight_step e (Generated tid new) w =
     (case in_db (generation_save (en_now e) tid new) w of None \<Rightarrow> (w, Some (Open tid)) | Some w' \<Rightarrow> (w', Some (Stamping tid new)))"
| "flight_step e (Stamping tid new) w = (w\<lparr>w_db := generation_stamp (en_now e) new (w_db w)\<rparr>, Some (Open tid))"
| "flight_step e (Open tid) w =
     (w, map_option (Opening tid) (approval_read (w_db w) tid (rs_rfp_max_iterations (en_settings e))))"
| "flight_step e (Opening tid []) w = (w, if still_under_evaluation (w_db w) tid then Some (Marking tid) else None)"
| "flight_step e (Opening tid (x # xs)) w = (open_thread tid x w, Some (Opening tid xs))"
| "flight_step e (Marking tid) w = after_commit (mark_waiting (en_now e) tid) None w"
| "flight_step e (Deciding tid d action note actor) w =
     (case (get_for_owner (w_db w) tid actor, section_for_department (w_db w) tid d) of
        (Some t, Some s) \<Rightarrow> (w, Some (Loaded t s action note actor))
      | _ \<Rightarrow> (w, None))"
| "flight_step e (Loaded t s action note actor) w =
     (case resume_thread (en_writer e) (tk_id t) (sc_department s) action note w of
        (Inl err, w') \<Rightarrow> (w', None)
      | (Inr th, w') \<Rightarrow> (w', Some (Resumed t s th actor)))"
| "flight_step e (Resumed t s th actor) w = after_commit (save_decision (en_now e) actor th s) (Some (Saved (tk_id t))) w"
| "flight_step e (Saved tid) w =
     (w, if all_approved (w_db w) tid then Some (Filing (proposal (en_id e) (en_now e) tid (w_db w))) else None)"
| "flight_step e (Filing doc) w = after_commit (add_final_document doc) (Some (Filed (fd_ticket doc))) w"
| "flight_step e (Filed tid) w = after_commit (mark_done (en_now e) tid) None w"

record rfp_system =
  sy_world :: rfp_world
  sy_flights :: "flight list"

definition replace_flight :: "nat \<Rightarrow> flight option \<Rightarrow> flight list \<Rightarrow> flight list" where
  "replace_flight n f fs = take n fs @ (case f of None \<Rightarrow> [] | Some g \<Rightarrow> [g]) @ drop (Suc n) fs"

inductive rfp_step :: "rfp_system \<Rightarrow> rfp_system \<Rightarrow> bool" where
  upload: "create_from_upload settings extract tid token now u (w_db (sy_world s)) = (Inr t, db) \<Longrightarrow>
    rfp_step s (s\<lparr>sy_world := (sy_world s)\<lparr>w_db := db\<rparr>, sy_flights := sy_flights s @ [Intake (tk_id t)]\<rparr>)"
| request: "rfp_step s (s\<lparr>sy_flights := sy_flights s @ [Deciding tid d action note actor]\<rparr>)"
| advance: "n < length (sy_flights s) \<Longrightarrow> flight_step e (sy_flights s ! n) (sy_world s) = (w, f) \<Longrightarrow>
    rfp_step s (s\<lparr>sy_world := w, sy_flights := replace_flight n f (sy_flights s)\<rparr>)"
| lose: "n < length (sy_flights s) \<Longrightarrow> rfp_step s (s\<lparr>sy_flights := replace_flight n None (sy_flights s)\<rparr>)"

definition empty_system :: rfp_system where
  "empty_system = \<lparr>sy_world = \<lparr>w_db = \<lparr>rfp_tickets = [], rfp_sections = [], rfp_documents = []\<rparr>, w_threads = (\<lambda>k. None)\<rparr>, sy_flights = []\<rparr>"

definition rfp_reachable :: "rfp_system \<Rightarrow> bool" where
  "rfp_reachable s = rfp_step\<^sup>*\<^sup>* empty_system s"

section \<open>The invariant\<close>

definition no_thread :: "uuid \<Rightarrow> rfp_world \<Rightarrow> bool" where
  "no_thread tid w = (\<forall>d. w_threads w (tid, d) = None)"

definition thread_ended :: "rfp_world \<Rightarrow> uuid \<times> department \<Rightarrow> bool" where
  "thread_ended w k = (\<exists>v. w_threads w k = Some (Ended v))"

definition no_section :: "uuid \<Rightarrow> rfp_world \<Rightarrow> bool" where
  "no_section tid w = (\<forall>r \<in> set (rfp_sections (w_db w)). sc_ticket r \<noteq> tid)"

definition owned :: "rfp_world \<Rightarrow> uuid \<Rightarrow> uuid \<Rightarrow> bool" where
  "owned w tid owner = (\<exists>t \<in> set (rfp_tickets (w_db w)). tk_id t = tid \<and> tk_owner t = owner)"

definition has_ticket :: "rfp_world \<Rightarrow> uuid \<Rightarrow> bool" where
  "has_ticket w tid = (\<exists>t \<in> set (rfp_tickets (w_db w)). tk_id t = tid)"

definition has_row :: "rfp_world \<Rightarrow> rfp_section \<Rightarrow> bool" where
  "has_row w l = (\<exists>r \<in> set (rfp_sections (w_db w)). sc_id r = sc_id l \<and> section_key r = section_key l)"

definition covers :: "rfp_world \<Rightarrow> rfp_document \<Rightarrow> bool" where
  "covers w doc =
     (all_approved (w_db w) (fd_ticket doc) \<and> distinct (map fst (fd_sections doc)) \<and>
      fst ` set (fd_sections doc) = sc_department ` set (sections_for_ticket (w_db w) (fd_ticket doc)))"

fun job_of :: "flight \<Rightarrow> uuid option" where
  "job_of (Intake tid) = Some tid"
| "job_of (AddSections tid outcome) = Some tid"
| "job_of (Generate tid) = Some tid"
| "job_of (Generated tid new) = Some tid"
| "job_of (Stamping tid new) = Some tid"
| "job_of (Open tid) = Some tid"
| "job_of (Opening tid xs) = Some tid"
| "job_of (Marking tid) = Some tid"
| "job_of f = None"

fun verdict_of :: "flight \<Rightarrow> (uuid \<times> department) option" where
  "verdict_of (Resumed t l (Ended v) actor) = Some (section_key l)"
| "verdict_of f = None"

fun flight_ok :: "rfp_world \<Rightarrow> flight \<Rightarrow> bool" where
  "flight_ok w (Intake tid) = (no_thread tid w \<and> no_section tid w)"
| "flight_ok w (AddSections tid outcome) = (no_thread tid w \<and> no_section tid w)"
| "flight_ok w (Generate tid) = no_thread tid w"
| "flight_ok w (Generated tid new) = no_thread tid w"
| "flight_ok w (Stamping tid new) = no_thread tid w"
| "flight_ok w (Open tid) = no_thread tid w"
| "flight_ok w (Opening tid xs) = (distinct (map fst xs) \<and> (\<forall>d \<in> fst ` set xs. w_threads w (tid, d) = None))"
| "flight_ok w (Marking tid) = True"
| "flight_ok w (Deciding tid d action note actor) = True"
| "flight_ok w (Loaded t l action note actor) =
     (has_row w l \<and> sc_ticket l = tk_id t \<and> owned w (tk_id t) actor \<and> (sc_approval l = Pending \<and> sc_approver l = None \<or> thread_ended w (section_key l)))"
| "flight_ok w (Resumed t l th actor) =
     (has_row w l \<and> sc_ticket l = tk_id t \<and> owned w (tk_id t) actor \<and> sc_approval l = Pending \<and> sc_approver l = None \<and>
      (\<not> paused th \<longrightarrow> w_threads w (section_key l) = Some th \<and>
        (\<forall>r \<in> set (rfp_sections (w_db w)). section_key r = section_key l \<longrightarrow> sc_approval r = Pending)))"
| "flight_ok w (Saved tid) = True"
| "flight_ok w (Filing doc) = covers w doc"
| "flight_ok w (Filed tid) = (\<exists>doc \<in> set (rfp_documents (w_db w)). fd_ticket doc = tid)"

definition approver_ok :: "rfp_world \<Rightarrow> rfp_section \<Rightarrow> bool" where
  "approver_ok w r =
     (if sc_approval r = Approved then \<exists>owner. sc_approver r = Some owner \<and> owned w (sc_ticket r) owner else sc_approver r = None)"

definition world_ok :: "rfp_world \<Rightarrow> bool" where
  "world_ok w =
     (let db = w_db w in
      distinct (map tk_id (rfp_tickets db)) \<and> distinct (map sc_id (rfp_sections db)) \<and>
      distinct (map section_key (rfp_sections db)) \<and> distinct (map fd_ticket (rfp_documents db)) \<and>
      (\<forall>r \<in> set (rfp_sections db). has_ticket w (sc_ticket r)) \<and>
      (\<forall>r \<in> set (rfp_sections db). sc_approval r \<noteq> Pending \<longrightarrow> thread_ended w (section_key r)) \<and>
      (\<forall>r \<in> set (rfp_sections db). approver_ok w r) \<and>
      (\<forall>doc \<in> set (rfp_documents db). covers w doc) \<and>
      (\<forall>t \<in> set (rfp_tickets db). tk_status t = Finished \<longrightarrow> (\<exists>doc \<in> set (rfp_documents db). fd_ticket doc = tk_id t)) \<and>
      (\<forall>tid d. w_threads w (tid, d) \<noteq> None \<longrightarrow> has_ticket w tid))"

definition rfp_ok :: "rfp_system \<Rightarrow> bool" where
  "rfp_ok s =
     (world_ok (sy_world s) \<and> (\<forall>f \<in> set (sy_flights s). flight_ok (sy_world s) f) \<and>
      (\<forall>tid \<in> set (List.map_filter job_of (sy_flights s)). has_ticket (sy_world s) tid) \<and>
      distinct (List.map_filter job_of (sy_flights s)) \<and> distinct (List.map_filter verdict_of (sy_flights s)))"


section \<open>The effect of a step on the rest\<close>

text \<open>
  What a step may do to what other flights rely on: owners stay, a row keeps its identity and an approval,
  a row changes its approval only when the step holds its verdict, rows are added only for the ticket of the
  step's job, an thread_ended thread stays thread_ended, threads are opened only by that job, and documents stay.
\<close>

definition row_effect :: "(uuid \<times> department) set \<Rightarrow> (rfp_section \<Rightarrow> rfp_section) \<Rightarrow> rfp_section \<Rightarrow> bool" where
  "row_effect K f r =
     (sc_id (f r) = sc_id r \<and> section_key (f r) = section_key r \<and>
      (sc_approval r = Approved \<longrightarrow> sc_approval (f r) = Approved \<and> sc_approver (f r) = sc_approver r) \<and>
      (section_key r \<notin> K \<longrightarrow> sc_approval (f r) = sc_approval r))"

definition effect :: "uuid set \<Rightarrow> (uuid \<times> department) set \<Rightarrow> rfp_world \<Rightarrow> rfp_world \<Rightarrow> bool" where
  "effect J K w w' =
     ((\<forall>tid owner. owned w tid owner \<longrightarrow> owned w' tid owner) \<and>
      (\<exists>f new. rfp_sections (w_db w') = map f (rfp_sections (w_db w)) @ new \<and> (\<forall>r \<in> set (rfp_sections (w_db w)). row_effect K f r) \<and>
         (\<forall>r \<in> set new. sc_ticket r \<in> J \<and> no_section (sc_ticket r) w)) \<and>
      (\<forall>k. thread_ended w k \<longrightarrow> w_threads w' k = w_threads w k) \<and>
      (\<forall>tid d. tid \<notin> J \<longrightarrow> w_threads w (tid, d) = None \<longrightarrow> w_threads w' (tid, d) = None) \<and>
      set (rfp_documents (w_db w)) \<subseteq> set (rfp_documents (w_db w')))"

lemma effect_refl: "effect J K w w"
  unfolding effect_def by (intro conjI exI [of _ id] exI [of _ "[]"]) (auto simp: row_effect_def)

lemma owned_has_ticket: "has_ticket w tid \<longleftrightarrow> (\<exists>owner. owned w tid owner)"
  by (auto simp: has_ticket_def owned_def)

lemma effect_has_ticket: "effect J K w w' \<Longrightarrow> has_ticket w tid \<Longrightarrow> has_ticket w' tid"
  by (auto simp: owned_has_ticket effect_def)

lemma effectE:
  assumes "effect J K w w'"
  obtains f new where "rfp_sections (w_db w') = map f (rfp_sections (w_db w)) @ new"
    "\<forall>r \<in> set (rfp_sections (w_db w)). row_effect K f r" "\<forall>r \<in> set new. sc_ticket r \<in> J \<and> no_section (sc_ticket r) w"
  using assms unfolding effect_def by blast

lemma effect_thread: "effect J K w w' \<Longrightarrow> thread_ended w k \<Longrightarrow> w_threads w' k = w_threads w k"
  by (cases k) (simp add: effect_def)

lemma effect_owned: "effect J K w w' \<Longrightarrow> owned w tid owner \<Longrightarrow> owned w' tid owner"
  by (simp add: effect_def)

lemma effect_rows:
  assumes "effect J K w w'" and "\<not> no_section tid w"
  shows "\<exists>f. set (sections_for_ticket (w_db w') tid) = f ` set (sections_for_ticket (w_db w) tid) \<and>
    (\<forall>r \<in> set (rfp_sections (w_db w)). row_effect K f r)"
proof -
  obtain f new where f: "rfp_sections (w_db w') = map f (rfp_sections (w_db w)) @ new"
    "\<forall>r \<in> set (rfp_sections (w_db w)). row_effect K f r" "\<forall>r \<in> set new. sc_ticket r \<in> J \<and> no_section (sc_ticket r) w"
    by (rule effectE [OF assms(1)])
  have "sc_ticket (f r) = sc_ticket r" if "r \<in> set (rfp_sections (w_db w))" for r
    using f(2) that by (auto simp: row_effect_def section_key_def)
  then have "set (sections_for_ticket (w_db w') tid) = f ` set (sections_for_ticket (w_db w) tid)"
    using f(1,3) assms(2) by (auto simp: set_eq_iff image_iff)
  with f(2) show ?thesis by blast
qed

lemma effect_covers:
  assumes e: "effect J K w w'" and c: "covers w doc"
  shows "covers w' doc"
proof -
  let ?t = "fd_ticket doc"
  have "\<not> no_section ?t w" using c by (auto simp: covers_def all_approved_def no_section_def sections_for_ticket_def filter_empty_conv)
  from effect_rows [OF e this] obtain f where f: "set (sections_for_ticket (w_db w') ?t) = f ` set (sections_for_ticket (w_db w) ?t)"
    "\<forall>r \<in> set (rfp_sections (w_db w)). row_effect K f r" by blast
  then have "\<forall>r \<in> set (sections_for_ticket (w_db w') ?t). sc_approval r = Approved" "set (sections_for_ticket (w_db w') ?t) \<noteq> {}"
    using c by (auto simp: covers_def all_approved_def list_all_iff row_effect_def simp del: set_empty)
  moreover have "sc_department ` f ` set (sections_for_ticket (w_db w) ?t) = sc_department ` set (sections_for_ticket (w_db w) ?t)"
    unfolding image_image using f(2) by (intro image_cong) (auto simp: row_effect_def section_key_def)
  ultimately show ?thesis using c f(1) by (auto simp: covers_def all_approved_def list_all_iff)
qed

lemma effect_has_row:
  assumes "effect J K w w'" and "has_row w l"
  shows "has_row w' l"
proof -
  obtain f new where f: "rfp_sections (w_db w') = map f (rfp_sections (w_db w)) @ new" "\<forall>r \<in> set (rfp_sections (w_db w)). row_effect K f r"
    by (rule effectE [OF assms(1)])
  obtain r where r: "r \<in> set (rfp_sections (w_db w))" "sc_id r = sc_id l" "section_key r = section_key l"
    using assms(2) by (auto simp: has_row_def)
  then have "f r \<in> set (rfp_sections (w_db w'))" "sc_id (f r) = sc_id l" "section_key (f r) = section_key l"
    using f by (simp_all add: row_effect_def)
  then show ?thesis unfolding has_row_def by blast
qed

lemma effect_pending:
  assumes e: "effect J K w w'" and row: "has_row w l" and k: "section_key l \<notin> K"
    and pending: "\<forall>r \<in> set (rfp_sections (w_db w)). section_key r = section_key l \<longrightarrow> sc_approval r = Pending"
  shows "\<forall>r \<in> set (rfp_sections (w_db w')). section_key r = section_key l \<longrightarrow> sc_approval r = Pending"
proof -
  obtain f new where f: "rfp_sections (w_db w') = map f (rfp_sections (w_db w)) @ new"
    "\<forall>r \<in> set (rfp_sections (w_db w)). row_effect K f r" "\<forall>r \<in> set new. sc_ticket r \<in> J \<and> no_section (sc_ticket r) w"
    by (rule effectE [OF e])
  have "\<not> no_section (sc_ticket l) w" using row by (auto simp: has_row_def no_section_def section_key_def)
  then have "section_key r \<noteq> section_key l" if "r \<in> set new" for r using f(3) that by (auto simp: section_key_def)
  then show ?thesis using f(1,2) pending k by (auto simp: row_effect_def)
qed

lemma effect_ended: "effect J K w w' \<Longrightarrow> thread_ended w k \<Longrightarrow> thread_ended w' k"
  using effect_thread by (fastforce simp: thread_ended_def)

lemma effect_no_section:
  assumes "effect J K w w'" and "tid \<notin> J" and "no_section tid w"
  shows "no_section tid w'"
proof -
  obtain f new where f: "rfp_sections (w_db w') = map f (rfp_sections (w_db w)) @ new" "\<forall>r \<in> set (rfp_sections (w_db w)). row_effect K f r"
    "\<forall>r \<in> set new. sc_ticket r \<in> J \<and> no_section (sc_ticket r) w" by (rule effectE [OF assms(1)])
  then show ?thesis using assms(2,3) by (auto simp: no_section_def row_effect_def section_key_def)
qed

lemma effect_no_thread: "effect J K w w' \<Longrightarrow> tid \<notin> J \<Longrightarrow> no_thread tid w \<Longrightarrow> no_thread tid w'"
  by (simp add: effect_def no_thread_def)

text \<open>A flight keeps its assertion under a step of another flight.\<close>

lemma flight_stable:
  assumes e: "effect J K w w'" and ok: "flight_ok w g" and "\<forall>tid. job_of g = Some tid \<longrightarrow> tid \<notin> J"
    and "\<forall>k. verdict_of g = Some k \<longrightarrow> k \<notin> K"
  shows "flight_ok w' g"
proof (cases g)
  case (Opening tid xs)
  then show ?thesis using ok e assms(3) by (auto simp: effect_def)
next
  case (Loaded t l act nt actor)
  then show ?thesis using ok effect_has_row [OF e] effect_owned [OF e] effect_ended [OF e, of "section_key l"] by auto
next
  case (Resumed t l th actor)
  have base: "has_row w' l" "owned w' (tk_id t) actor" using ok Resumed effect_has_row [OF e] e by (auto simp: effect_def)
  show ?thesis
  proof (cases th)
    case (Paused v)
    then show ?thesis using ok base Resumed by simp
  next
    case (Ended v)
    have t: "w_threads w (section_key l) = Some (Ended v)" using ok Resumed Ended by simp
    then have "w_threads w' (section_key l) = Some (Ended v)" using effect_thread [OF e] by (simp add: thread_ended_def)
    moreover have "section_key l \<notin> K" using assms(4) Resumed Ended by simp
    then have "\<forall>r \<in> set (rfp_sections (w_db w')). section_key r = section_key l \<longrightarrow> sc_approval r = Pending"
      using ok Resumed Ended by (intro effect_pending [OF e]) simp_all
    ultimately show ?thesis using ok base Resumed Ended by simp
  qed
next
  case (Filing doc)
  then show ?thesis using ok effect_covers [OF e] by simp
next
  case (Filed tid)
  then show ?thesis using ok e by (auto simp: effect_def)
qed (use assms effect_no_section [OF e] effect_no_thread [OF e] in auto)


section \<open>Writes keep the world in order\<close>

lemma world_okI:
  assumes "distinct (map tk_id (rfp_tickets (w_db w)))" "distinct (map sc_id (rfp_sections (w_db w)))"
    "distinct (map section_key (rfp_sections (w_db w)))" "distinct (map fd_ticket (rfp_documents (w_db w)))"
    "\<And>r. r \<in> set (rfp_sections (w_db w)) \<Longrightarrow> has_ticket w (sc_ticket r)"
    "\<And>r. r \<in> set (rfp_sections (w_db w)) \<Longrightarrow> sc_approval r \<noteq> Pending \<Longrightarrow> thread_ended w (section_key r)"
    "\<And>r. r \<in> set (rfp_sections (w_db w)) \<Longrightarrow> approver_ok w r"
    "\<And>doc. doc \<in> set (rfp_documents (w_db w)) \<Longrightarrow> covers w doc"
    "\<And>t. t \<in> set (rfp_tickets (w_db w)) \<Longrightarrow> tk_status t = Finished \<Longrightarrow> \<exists>doc \<in> set (rfp_documents (w_db w)). fd_ticket doc = tk_id t"
    "\<And>tid d. w_threads w (tid, d) \<noteq> None \<Longrightarrow> has_ticket w tid"
  shows "world_ok w"
  using assms unfolding world_ok_def Let_def by blast

lemma world_okD:
  assumes "world_ok w"
  shows "distinct (map tk_id (rfp_tickets (w_db w)))" "distinct (map sc_id (rfp_sections (w_db w)))"
    "distinct (map section_key (rfp_sections (w_db w)))" "distinct (map fd_ticket (rfp_documents (w_db w)))"
    "\<And>r. r \<in> set (rfp_sections (w_db w)) \<Longrightarrow> has_ticket w (sc_ticket r)"
    "\<And>r. r \<in> set (rfp_sections (w_db w)) \<Longrightarrow> sc_approval r \<noteq> Pending \<Longrightarrow> thread_ended w (section_key r)"
    "\<And>r. r \<in> set (rfp_sections (w_db w)) \<Longrightarrow> approver_ok w r"
    "\<And>doc. doc \<in> set (rfp_documents (w_db w)) \<Longrightarrow> covers w doc"
    "\<And>t. t \<in> set (rfp_tickets (w_db w)) \<Longrightarrow> tk_status t = Finished \<Longrightarrow> \<exists>doc \<in> set (rfp_documents (w_db w)). fd_ticket doc = tk_id t"
    "\<And>tid d. w_threads w (tid, d) \<noteq> None \<Longrightarrow> has_ticket w tid"
  using assms unfolding world_ok_def Let_def by blast+

lemma ended_cong: "w_threads w' = w_threads w \<Longrightarrow> thread_ended w' = thread_ended w"
  by (simp add: thread_ended_def fun_eq_iff)

lemma covers_cong: "rfp_sections (w_db w') = rfp_sections (w_db w) \<Longrightarrow> covers w' = covers w"
  by (simp add: covers_def all_approved_def sections_for_ticket_def fun_eq_iff)

lemma approver_ok_cong: "owned w' = owned w \<Longrightarrow> approver_ok w' = approver_ok w"
  by (simp add: approver_ok_def fun_eq_iff)

text \<open>A write of ticket columns that keeps identity and owner, and finishes a ticket only with its document.\<close>

lemma ticket_write:
  assumes w: "world_ok w" and f: "in_db (save_ticket tid F) w = Some w'"
    and keep: "\<And>t. tk_id (F t) = tk_id t \<and> tk_owner (F t) = tk_owner t"
    and fin: "\<And>t. t \<in> set (rfp_tickets (w_db w)) \<Longrightarrow> tk_id t = tid \<Longrightarrow> tk_status (F t) = Finished \<Longrightarrow> \<exists>doc \<in> set (rfp_documents (w_db w)). fd_ticket doc = tid"
  shows "effect J K w w' \<and> world_ok w'"
proof -
  let ?g = "\<lambda>t. if tk_id t = tid then F t else t"
  have t: "rfp_tickets (w_db w') = map ?g (rfp_tickets (w_db w))" and s: "rfp_sections (w_db w') = rfp_sections (w_db w)"
    and d: "rfp_documents (w_db w') = rfp_documents (w_db w)" and th: "w_threads w' = w_threads w"
    using f by (auto simp: in_db_def save_ticket_def update_where_def Let_def split: if_splits)
  have o: "owned w' i u \<longleftrightarrow> owned w i u" for i u using keep by (auto simp: owned_def t)
  then have h: "has_ticket w' i \<longleftrightarrow> has_ticket w i" for i by (simp add: owned_has_ticket)
  have oo: "owned w' = owned w" using o by (simp add: fun_eq_iff)
  have "effect J K w w'" unfolding effect_def
    by (intro conjI exI [of _ id] exI [of _ "[]"]) (auto simp: row_effect_def o s d th)
  moreover have "map tk_id (rfp_tickets (w_db w')) = map tk_id (rfp_tickets (w_db w))" using keep by (simp add: t)
  moreover have "\<exists>doc \<in> set (rfp_documents (w_db w)). fd_ticket doc = tk_id u"
    if "u \<in> set (rfp_tickets (w_db w'))" "tk_status u = Finished" for u
    using that world_okD(9) [OF w] fin keep by (auto simp: t split: if_splits)
  ultimately show ?thesis
    using world_okD [OF w] by (intro conjI world_okI) (simp_all add: s d th o h ended_cong [OF th] covers_cong [OF s] approver_ok_cong [OF oo])
qed

text \<open>A write of section columns: a new verdict needs its thread_ended thread, an approval its owner.\<close>

lemma section_write:
  assumes w: "world_ok w" and s: "rfp_sections (w_db w') = map f (rfp_sections (w_db w))" and t: "rfp_tickets (w_db w') = rfp_tickets (w_db w)"
    and d: "rfp_documents (w_db w') = rfp_documents (w_db w)" and th: "w_threads w' = w_threads w"
    and row: "\<And>r. r \<in> set (rfp_sections (w_db w)) \<Longrightarrow> row_effect K f r"
    and verdict: "\<And>r. r \<in> set (rfp_sections (w_db w)) \<Longrightarrow> sc_approval (f r) \<noteq> sc_approval r \<Longrightarrow> thread_ended w (section_key r)"
    and approver: "\<And>r. r \<in> set (rfp_sections (w_db w)) \<Longrightarrow> approver_ok w r \<Longrightarrow> approver_ok w (f r)"
  shows "effect J K w w' \<and> world_ok w'"
proof -
  have o: "owned w' = owned w" and h: "has_ticket w' = has_ticket w" by (simp_all add: owned_def has_ticket_def t fun_eq_iff)
  have e: "effect J K w w'" unfolding effect_def
    by (intro conjI exI [of _ f] exI [of _ "[]"]) (use row in \<open>auto simp: o s d th\<close>)
  have k: "sc_id (f r) = sc_id r \<and> section_key (f r) = section_key r \<and> sc_ticket (f r) = sc_ticket r" if "r \<in> set (rfp_sections (w_db w))" for r
    using row [OF that] by (simp add: row_effect_def section_key_def)
  have "map sc_id (rfp_sections (w_db w')) = map sc_id (rfp_sections (w_db w))"
    "map section_key (rfp_sections (w_db w')) = map section_key (rfp_sections (w_db w))" using k by (simp_all add: s)
  moreover have "thread_ended w (section_key r)" if "r \<in> set (rfp_sections (w_db w'))" "sc_approval r \<noteq> Pending" for r
    using that k verdict world_okD(6) [OF w] by (auto simp: s) metis
  moreover have "approver_ok w' r" if "r \<in> set (rfp_sections (w_db w'))" for r
    using that approver world_okD(7) [OF w] by (auto simp: s o approver_ok_def)
  moreover have "covers w' doc" if "doc \<in> set (rfp_documents (w_db w'))" for doc
    using that world_okD(8) [OF w] effect_covers [OF e] by (simp add: d)
  moreover have "has_ticket w (sc_ticket r)" if "r \<in> set (rfp_sections (w_db w'))" for r using that k world_okD(5) [OF w] by (auto simp: s)
  ultimately have "world_ok w'"
    using world_okD [OF w] by (intro world_okI) (simp_all add: t d th o h ended_cong [OF th])
  with e show ?thesis ..
qed


text \<open>New sections, of a ticket that has none.\<close>

lemma sections_write:
  assumes w: "world_ok w" and f: "in_db (add_sections new) w = Some w'"
    and new: "\<And>r. r \<in> set new \<Longrightarrow> sc_ticket r = tid \<and> sc_approval r = Pending \<and> sc_approver r = None" and none: "no_section tid w"
  shows "effect {tid} K w w' \<and> world_ok w'"
proof -
  have t: "rfp_tickets (w_db w') = rfp_tickets (w_db w)" and s: "rfp_sections (w_db w') = rfp_sections (w_db w) @ new"
    and d: "rfp_documents (w_db w') = rfp_documents (w_db w)" and th: "w_threads w' = w_threads w"
    and u: "distinct (map section_key (rfp_sections (w_db w) @ new))" "distinct (map sc_id (rfp_sections (w_db w) @ new))"
    and fk: "\<And>r. r \<in> set new \<Longrightarrow> rfp_get (w_db w) (sc_ticket r) \<noteq> None"
    using f by (auto simp: in_db_def add_sections_def Let_def list_all_iff split: if_splits)
  have o: "owned w' = owned w" and h: "has_ticket w' = has_ticket w" by (simp_all add: owned_def has_ticket_def t fun_eq_iff)
  have e: "effect {tid} K w w'" unfolding effect_def
    by (intro conjI exI [of _ id] exI [of _ new]) (use new none in \<open>auto simp: row_effect_def o s d th\<close>)
  have "has_ticket w (sc_ticket r)" if "r \<in> set new" for r
    using fk [OF that] by (auto simp: rfp_get_def has_ticket_def find_None_iff)
  then have "has_ticket w (sc_ticket r)" if "r \<in> set (rfp_sections (w_db w'))" for r using that world_okD(5) [OF w] by (auto simp: s)
  moreover have "thread_ended w (section_key r)" if "r \<in> set (rfp_sections (w_db w'))" "sc_approval r \<noteq> Pending" for r
    using that new world_okD(6) [OF w] by (auto simp: s)
  moreover have "approver_ok w' r" if "r \<in> set (rfp_sections (w_db w'))" for r
    using that new world_okD(7) [OF w] by (force simp: s approver_ok_def o)
  moreover have "covers w' doc" if "doc \<in> set (rfp_documents (w_db w'))" for doc
    using that world_okD(8) [OF w] effect_covers [OF e] by (simp add: d)
  ultimately have "world_ok w'"
    using world_okD [OF w] u by (intro world_okI) (simp_all only: t d th o h ended_cong [OF th] s)
  with e show ?thesis ..
qed

text \<open>A thread of an existing ticket that has not thread_ended; a thread that is opened belongs to the job.\<close>

lemma thread_write:
  assumes w: "world_ok w" and k: "\<not> thread_ended w (tid, d)" and h: "has_ticket w tid" and j: "tid \<in> J \<or> w_threads w (tid, d) \<noteq> None"
  shows "effect J K w (set_thread tid d th w) \<and> world_ok (set_thread tid d th w)"
proof -
  let ?w = "set_thread tid d th w"
  have db: "w_db ?w = w_db w" by (simp add: set_thread_def)
  have t: "w_threads ?w k' = (if k' = (tid, d) then Some th else w_threads w k')" for k' by (simp add: set_thread_def)
  have o: "owned ?w = owned w" and hh: "has_ticket ?w = has_ticket w" by (simp_all add: owned_def has_ticket_def db fun_eq_iff)
  have e: "effect J K w ?w" unfolding effect_def
    by (intro conjI exI [of _ id] exI [of _ "[]"]) (use k j in \<open>auto simp: row_effect_def o db t\<close>)
  have "world_ok ?w"
  proof (rule world_okI)
    fix r assume "r \<in> set (rfp_sections (w_db ?w))" "sc_approval r \<noteq> Pending"
    then show "thread_ended ?w (section_key r)" using world_okD(6) [OF w] effect_ended [OF e] by (simp add: db)
  next
    fix i c assume "w_threads ?w (i, c) \<noteq> None"
    then show "has_ticket ?w i" using world_okD(10) [OF w] h by (auto simp: t hh split: if_splits)
  qed (use world_okD [OF w] in \<open>simp_all add: db o hh covers_cong [of ?w w] approver_ok_cong [OF o]\<close>)
  with e show ?thesis ..
qed

lemma document_write:
  assumes w: "world_ok w" and f: "in_db (add_final_document doc) w = Some w'" and c: "covers w doc"
  shows "effect J K w w' \<and> world_ok w' \<and> doc \<in> set (rfp_documents (w_db w'))"
proof -
  have t: "rfp_tickets (w_db w') = rfp_tickets (w_db w)" and s: "rfp_sections (w_db w') = rfp_sections (w_db w)"
    and d: "rfp_documents (w_db w') = rfp_documents (w_db w) @ [doc]" and th: "w_threads w' = w_threads w"
    and u: "fd_ticket doc \<notin> set (map fd_ticket (rfp_documents (w_db w)))"
    using f by (auto simp: in_db_def add_final_document_def split: if_splits)
  have o: "owned w' = owned w" and h: "has_ticket w' = has_ticket w" by (simp_all add: owned_def has_ticket_def t fun_eq_iff)
  have "effect J K w w'" unfolding effect_def
    by (intro conjI exI [of _ id] exI [of _ "[]"]) (auto simp: row_effect_def o s d th)
  moreover have "world_ok w'"
    using world_okD [OF w] u c by (intro world_okI) (auto simp: t d th o h ended_cong [OF th] s covers_cong [OF s] approver_ok_cong [OF o])
  ultimately show ?thesis by (simp add: d)
qed


section \<open>Every step of a flight\<close>

definition step_ok :: "flight \<Rightarrow> rfp_world \<Rightarrow> rfp_world \<times> flight option \<Rightarrow> bool" where
  "step_ok f w = (\<lambda>(w', g). effect (set_option (job_of f)) (set_option (verdict_of f)) w w' \<and> world_ok w' \<and>
     (\<forall>h. g = Some h \<longrightarrow> flight_ok w' h \<and> job_of h \<in> {None, job_of f} \<and> (\<forall>k. verdict_of h = Some k \<longrightarrow> \<not> thread_ended w k)))"

lemma step_ok_same: "world_ok w \<Longrightarrow> (\<And>h. g = Some h \<Longrightarrow> flight_ok w h \<and> job_of h \<in> {None, job_of f} \<and> verdict_of h = None) \<Longrightarrow> step_ok f w (w, g)"
  by (auto simp: step_ok_def effect_refl)

lemma step_ok_commit:
  assumes "world_ok w"
    and "\<And>w'. in_db act w = Some w' \<Longrightarrow> effect (set_option (job_of f)) (set_option (verdict_of f)) w w' \<and> world_ok w' \<and>
      (\<forall>h. g = Some h \<longrightarrow> flight_ok w' h \<and> job_of h \<in> {None, job_of f} \<and> verdict_of h = None)"
  shows "step_ok f w (after_commit act g w)"
  using assms by (auto simp: step_ok_def after_commit_def effect_refl split: option.split)

lemma save_outcome_write:
  assumes "world_ok w" and "in_db (save_outcome now outcome tid) w = Some w'"
  shows "effect J K w w' \<and> world_ok w'"
proof (cases "io_status outcome")
  case Routed
  then show ?thesis using assms(2) unfolding save_outcome_def
    by (intro ticket_write [OF assms(1), of tid "routed_ticket now outcome"]) (simp_all add: routed_ticket_def Let_def)
next
  case NotRfp
  let ?F = "\<lambda>t. t\<lparr>tk_status := Discarded, tk_discard_reason := io_discard_reason outcome, tk_updated_at := now\<rparr>"
  from NotRfp show ?thesis using assms(2) unfolding save_outcome_def by (intro ticket_write [OF assms(1), of tid ?F]) simp_all
next
  case Failed
  let ?F = "\<lambda>t. t\<lparr>tk_updated_at := now\<rparr>"
  from Failed show ?thesis using assms(2) world_okD(9) [OF assms(1)] unfolding save_outcome_def
    by (intro ticket_write [OF assms(1), of tid ?F]) auto
qed

lemma no_thread_same: "w_threads w' = w_threads w \<Longrightarrow> no_thread tid w' = no_thread tid w"
  by (simp add: no_thread_def)

lemma in_db_threads: "in_db act w = Some w' \<Longrightarrow> w_threads w' = w_threads w"
  by (auto simp: in_db_def)

lemma save_ticket_sections: "in_db (save_ticket tid F) w = Some w' \<Longrightarrow> rfp_sections (w_db w') = rfp_sections (w_db w)"
  by (auto simp: in_db_def save_ticket_def Let_def split: if_splits)

lemma no_section_same: "rfp_sections (w_db w') = rfp_sections (w_db w) \<Longrightarrow> no_section tid w' = no_section tid w"
  by (simp add: no_section_def)


lemma no_thread_commit: "in_db act w = Some w' \<Longrightarrow> no_thread tid w \<Longrightarrow> no_thread tid w'"
  by (auto simp: in_db_def no_thread_def)

lemma save_outcome_sections_same: "in_db (save_outcome now outcome tid) w = Some w' \<Longrightarrow> rfp_sections (w_db w') = rfp_sections (w_db w)"
  by (cases "io_status outcome") (simp_all add: save_outcome_def save_ticket_sections)

lemma step_intake:
  assumes "world_ok w" and "flight_ok w (Intake tid)"
  shows "step_ok (Intake tid) w (flight_step e (Intake tid) w)"
proof (cases "rfp_get (w_db w) tid")
  case None
  then show ?thesis using assms by (auto intro!: step_ok_same)
next
  case (Some t)
  let ?o = "run_intake (en_fsum e) (en_intake e) (build_rfp_config (en_settings e)) (coalesce (tk_markdown t) '''')"
  have "step_ok (Intake tid) w (after_commit (save_outcome (en_now e) ?o tid) (if io_status ?o = Routed then Some (AddSections tid ?o) else None) w)"
  proof (rule step_ok_commit [OF assms(1)])
    fix w' assume c: "in_db (save_outcome (en_now e) ?o tid) w = Some w'"
    have "no_thread tid w'" "no_section tid w'"
      using no_thread_commit [OF c] assms(2) save_outcome_sections_same [OF c] by (simp_all add: no_section_def)
    then show "effect (set_option (job_of (Intake tid))) (set_option (verdict_of (Intake tid))) w w' \<and> world_ok w' \<and>
      (\<forall>h. (if io_status ?o = Routed then Some (AddSections tid ?o) else None) = Some h \<longrightarrow>
        flight_ok w' h \<and> job_of h \<in> {None, job_of (Intake tid)} \<and> verdict_of h = None)"
      using save_outcome_write [OF assms(1) c] by (simp split: if_splits)
  qed
  then show ?thesis using Some by (simp add: Let_def)
qed

lemma step_add_sections:
  assumes "world_ok w" and "flight_ok w (AddSections tid outcome)"
  shows "step_ok (AddSections tid outcome) w (flight_step e (AddSections tid outcome) w)"
  unfolding flight_step.simps
proof (rule step_ok_commit [OF assms(1)])
  fix w' assume c: "in_db (save_outcome_sections (en_ids e) (en_now e) outcome tid) w = Some w'"
  have "effect {tid} {} w w' \<and> world_ok w'"
    using c assms(2) unfolding save_outcome_sections_def
    by (intro sections_write [OF assms(1)]) (auto simp: new_section_def)
  then show "effect (set_option (job_of (AddSections tid outcome))) (set_option (verdict_of (AddSections tid outcome))) w w' \<and> world_ok w' \<and>
    (\<forall>h. (if is_rfp_generation_configured (en_settings e) then Some (Generate tid) else None) = Some h \<longrightarrow>
      flight_ok w' h \<and> job_of h \<in> {None, job_of (AddSections tid outcome)} \<and> verdict_of h = None)"
    using no_thread_commit [OF c] assms(2) by (simp split: if_splits)
qed

lemma effect_after_tickets:
  assumes "effect J K w v" and "rfp_sections (w_db v) = rfp_sections (w_db w)" and "w_threads v = w_threads w"
    and "rfp_documents (w_db v) = rfp_documents (w_db w)" and "effect J K v w'"
  shows "effect J K w w'"
  using assms effect_owned [OF assms(1)] effect_owned [OF assms(5)]
  by (simp add: effect_def [of J K v] effect_def [of J K w w'] ended_cong [OF assms(3)] no_section_def)

lemma step_generate:
  assumes "world_ok w" and "flight_ok w (Generate tid)"
  shows "step_ok (Generate tid) w (flight_step e (Generate tid) w)"
  using assms by (auto split: option.split prod.split intro!: step_ok_same)

lemma row_effect_refl: "row_effect K (\<lambda>s. s) r"
  by (simp add: row_effect_def)

lemma step_generated:
  assumes "world_ok w" and "flight_ok w (Generated tid new)"
  shows "step_ok (Generated tid new) w (flight_step e (Generated tid new) w)"
proof (cases "in_db (generation_save (en_now e) tid new) w")
  case None
  then show ?thesis using assms by (auto intro!: step_ok_same)
next
  case (Some w')
  let ?F = "\<lambda>t. t\<lparr>tk_status := UnderEvaluation, tk_updated_at := en_now e\<rparr>"
  let ?f = "\<lambda>s. case List.find (\<lambda>n. sc_id n = sc_id s) new of Some n \<Rightarrow> draft_columns n s | None \<Rightarrow> s"
  obtain v where v: "in_db (save_ticket tid ?F) w = Some v" and w': "w' = v\<lparr>w_db := (w_db v)\<lparr>rfp_sections := map ?f (rfp_sections (w_db v))\<rparr>\<rparr>"
    using Some by (auto simp: in_db_def generation_save_def replace_drafts_def)
  have "effect {tid} {} w v \<and> world_ok v" using v by (intro ticket_write [OF assms(1), of tid ?F]) simp_all
  moreover have "effect {tid} {} v w' \<and> world_ok w'" using calculation
    by (intro section_write [of v w' ?f])
      (auto simp: w' row_effect_def draft_columns_def section_key_def approver_ok_def split: option.splits if_splits)
  moreover have "rfp_sections (w_db v) = rfp_sections (w_db w)" "rfp_documents (w_db v) = rfp_documents (w_db w)" "w_threads v = w_threads w"
    using v by (auto simp: in_db_def save_ticket_def Let_def split: if_splits)
  ultimately have "effect {tid} {} w w'" "world_ok w'" using effect_after_tickets [of "{tid}" "{}" w v w'] by simp_all
  moreover have "no_thread tid w'" using no_thread_commit [OF Some] assms(2) by simp
  ultimately show ?thesis using Some by (simp add: step_ok_def)
qed


lemma step_stamping:
  assumes "world_ok w" and "flight_ok w (Stamping tid new)"
  shows "step_ok (Stamping tid new) w (flight_step e (Stamping tid new) w)"
proof -
  let ?w = "w\<lparr>w_db := generation_stamp (en_now e) new (w_db w)\<rparr>"
  let ?f = "\<lambda>s. if sc_id s \<in> set (map sc_id new) then s\<lparr>sc_updated_at := en_now e\<rparr> else s"
  have "effect {tid} {} w ?w \<and> world_ok ?w" using assms(1)
    by (intro section_write [of w ?w ?f]) (auto simp: generation_stamp_def update_where_def row_effect_def section_key_def approver_ok_def split: if_splits)
  then show ?thesis using assms(2) by (simp add: step_ok_def no_thread_def)
qed

lemma distinct_section_departments:
  assumes "distinct (map section_key (rfp_sections db))"
  shows "distinct (map sc_department (sections_for_ticket db tid))"
proof -
  have "distinct (map section_key (sections_for_ticket db tid))"
    unfolding sections_for_ticket_def using assms by (intro distinct_map_sort_key distinct_map_filter)
  moreover have "map section_key (sections_for_ticket db tid) = map (\<lambda>d. (tid, d)) (map sc_department (sections_for_ticket db tid))"
    by (simp add: section_key_def)
  ultimately show ?thesis by (metis distinct_map)
qed

lemma proposal_covers:
  assumes "distinct (map section_key (rfp_sections db))" and "all_approved db tid" and "rfp_sections (w_db w) = rfp_sections db"
  shows "covers w (proposal did now tid db)"
  using assms(2) distinct_section_departments [OF assms(1), of tid] assms(3)
  by (auto simp: covers_def proposal_def consolidated_def comp_def image_image all_approved_def sections_for_ticket_def)

lemma step_open:
  assumes w: "world_ok w" and "flight_ok w (Open tid)"
  shows "step_ok (Open tid) w (flight_step e (Open tid) w)"
  unfolding flight_step.simps
proof (rule step_ok_same [OF w])
  fix h assume h: "map_option (Opening tid) (approval_read (w_db w) tid (rs_rfp_max_iterations (en_settings e))) = Some h"
  then obtain t where o: "h = Opening tid (map (\<lambda>s. (sc_department s, initial_approval t s (rs_rfp_max_iterations (en_settings e)))) (sections_for_ticket (w_db w) tid))"
    by (auto simp: approval_read_def split: option.splits if_splits)
  show "flight_ok w h \<and> job_of h \<in> {None, job_of (Open tid)} \<and> verdict_of h = None"
    using o assms(2) distinct_section_departments [OF world_okD(3) [OF w], of tid] by (simp add: comp_def no_thread_def)
qed

lemma step_opening:
  assumes w: "world_ok w" and ok: "flight_ok w (Opening tid xs)" and h: "has_ticket w tid"
  shows "step_ok (Opening tid xs) w (flight_step e (Opening tid xs) w)"
proof (cases xs)
  case Nil
  then show ?thesis using w by (auto intro!: step_ok_same)
next
  case (Cons x ys)
  obtain d s where x: "x = (d, s)" by fastforce
  have t: "w_threads w (tid, d) = None" using ok Cons x by simp
  then have "effect {tid} {} w (set_thread tid d (Paused s) w) \<and> world_ok (set_thread tid d (Paused s) w)"
    by (intro thread_write w h) (simp_all add: thread_ended_def)
  moreover have "flight_ok (set_thread tid d (Paused s) w) (Opening tid ys)"
    using ok Cons x by (auto simp: set_thread_def)
  ultimately show ?thesis using Cons x by (simp add: step_ok_def open_thread_def)
qed

lemma step_marking:
  assumes w: "world_ok w"
  shows "step_ok (Marking tid) w (flight_step e (Marking tid) w)"
  unfolding flight_step.simps
proof (rule step_ok_commit [OF w])
  fix w' assume c: "in_db (mark_waiting (en_now e) tid) w = Some w'"
  have "effect {tid} {} w w' \<and> world_ok w'" using c unfolding mark_waiting_def by (rule ticket_write [OF w]) simp_all
  then show "effect (set_option (job_of (Marking tid))) (set_option (verdict_of (Marking tid))) w w' \<and> world_ok w' \<and>
    (\<forall>h. None = Some h \<longrightarrow> flight_ok w' h \<and> job_of h \<in> {None, job_of (Marking tid)} \<and> verdict_of h = None)" by simp
qed

lemma step_deciding:
  assumes w: "world_ok w"
  shows "step_ok (Deciding tid d action nt actor) w (flight_step e (Deciding tid d action nt actor) w)"
proof -
  have "flight_ok w (Loaded t s action nt actor)"
    if "get_for_owner (w_db w) tid actor = Some t" "section_for_department (w_db w) tid d = Some s" for t s
  proof -
    have t: "t \<in> set (rfp_tickets (w_db w))" "tk_id t = tid" "tk_owner t = actor"
      using find_Some_in [OF that(1) [unfolded get_for_owner_def]] by simp_all
    have s: "s \<in> set (rfp_sections (w_db w))" "sc_ticket s = tid"
      using find_Some_in [OF that(2) [unfolded section_for_department_def]] by simp_all
    show ?thesis using t s world_okD(6,7) [OF w s(1)] by (cases "sc_approval s") (auto simp: has_row_def owned_def approver_ok_def)
  qed
  then show ?thesis using w by (auto split: option.split intro!: step_ok_same simp del: flight_ok.simps)
qed


lemma step_loaded:
  assumes w: "world_ok w" and ok: "flight_ok w (Loaded t l action nt actor)"
  shows "step_ok (Loaded t l action nt actor) w (flight_step e (Loaded t l action nt actor) w)"
proof (cases "action \<in> set VALID_ACTIONS")
  case False
  then show ?thesis using w by (auto simp: resume_thread_def intro!: step_ok_same)
next
  case valid: True
  have key: "section_key l = (tk_id t, sc_department l)" using ok by (simp add: section_key_def)
  show ?thesis
  proof (cases "w_threads w (section_key l)")
    case None
    then show ?thesis using w valid by (auto simp: resume_thread_def key intro!: step_ok_same)
  next
    case (Some th0)
    show ?thesis
    proof (cases th0)
      case (Ended v)
      then show ?thesis using Some w valid by (auto simp: resume_thread_def key intro!: step_ok_same)
    next
      case (Paused v)
      define th where "th = resume (en_writer e) action nt v"
      let ?w = "set_thread (tk_id t) (sc_department l) th w"
      have ne: "\<not> thread_ended w (section_key l)" using Some Paused by (simp add: thread_ended_def)
      have "effect {} {} w ?w \<and> world_ok ?w"
        using ok ne Some key by (intro thread_write w) (auto simp: owned_has_ticket)
      note keep = conjunct1 [OF this] conjunct2 [OF this]
      have l: "sc_approval l = Pending" "sc_approver l = None" using ok ne by auto
      have "sc_approval r = Pending" if "r \<in> set (rfp_sections (w_db w))" "section_key r = section_key l" for r
        using world_okD(6) [OF w that(1)] ne that(2) by auto
      then have "flight_ok ?w (Resumed t l th actor)"
        using ok l effect_has_row [OF keep(1)] effect_owned [OF keep(1)] key by (auto simp: set_thread_def)
      moreover have "verdict_of (Resumed t l th actor) = Some k \<Longrightarrow> \<not> thread_ended w k" for k
        using ne by (cases th) auto
      ultimately show ?thesis
        using keep Some Paused valid key by (simp add: step_ok_def resume_thread_def th_def Let_def del: flight_ok.simps)
    qed
  qed
qed

lemma step_resumed:
  assumes w: "world_ok w" and ok: "flight_ok w (Resumed t l th actor)"
  shows "step_ok (Resumed t l th actor) w (flight_step e (Resumed t l th actor) w)"
  unfolding flight_step.simps
proof (rule step_ok_commit [OF w])
  fix w' assume c: "in_db (save_decision (en_now e) actor th l) w = Some w'"
  let ?new = "decided_section (en_now e) actor th l"
  let ?f = "\<lambda>r. if sc_id r = sc_id l then write_changes l ?new r else r"
  let ?K = "set_option (verdict_of (Resumed t l th actor))"
  have rows: "rfp_sections (w_db w') = map ?f (rfp_sections (w_db w))" "rfp_tickets (w_db w') = rfp_tickets (w_db w)"
    "rfp_documents (w_db w') = rfp_documents (w_db w)" "w_threads w' = w_threads w"
    using c by (auto simp: in_db_def save_decision_def save_section_def update_where_def Let_def split: if_splits)
  have key: "section_key r = section_key l" if "r \<in> set (rfp_sections (w_db w))" "sc_id r = sc_id l" for r
    using ok that world_okD(2) [OF w] by (auto simp: has_row_def distinct_map inj_on_def)
  have l: "sc_approval l = Pending" "sc_approver l = None" "sc_ticket l = tk_id t" "owned w (tk_id t) actor" using ok by simp_all
  have same: "sc_id (write_changes l ?new r) = sc_id r \<and> section_key (write_changes l ?new r) = section_key r \<and>
    sc_ticket (write_changes l ?new r) = sc_ticket r" for r
    by (simp add: write_changes_def section_key_def)
  have "effect {} ?K w w' \<and> world_ok w'"
  proof (cases th)
    case (Paused v)
    then have "sc_approval ?new = Pending" "sc_approver ?new = None" using l by (simp_all add: decided_section_def Let_def)
    then have "sc_approval (write_changes l ?new r) = sc_approval r \<and> sc_approver (write_changes l ?new r) = sc_approver r" for r
      using l by (simp add: write_changes_def changed_def)
    then show ?thesis using same by (intro section_write [OF w rows]) (auto simp: row_effect_def approver_ok_def split: if_splits)
  next
    case (Ended v)
    have pend: "sc_approval r = Pending" if "r \<in> set (rfp_sections (w_db w))" "sc_id r = sc_id l" for r
      using ok Ended key [OF that] that by simp
    have K: "?K = {section_key l}" using Ended by simp
    have ended: "thread_ended w (section_key l)" using ok Ended by (simp add: thread_ended_def)
    have verdict: "sc_approval ?new \<noteq> Pending" "sc_approver ?new = (if sc_approval ?new = Approved then Some actor else None)"
      using Ended l by (auto simp: decided_section_def Let_def split: option.split approval_outcome.split)
    have new: "approver_ok w (write_changes l ?new r)" if "r \<in> set (rfp_sections (w_db w))" "sc_id r = sc_id l" for r
      using verdict l key [OF that] pend [OF that] world_okD(7) [OF w that(1)]
      by (auto simp: approver_ok_def write_changes_def changed_def section_key_def)
    show ?thesis unfolding K
      by (rule section_write [OF w rows]) (use same pend key ended new in \<open>auto simp: row_effect_def split: if_splits\<close>)
  qed
  then show "effect (set_option (job_of (Resumed t l th actor))) ?K w w' \<and> world_ok w' \<and>
    (\<forall>h. Some (Saved (tk_id t)) = Some h \<longrightarrow> flight_ok w' h \<and> job_of h \<in> {None, job_of (Resumed t l th actor)} \<and> verdict_of h = None)"
    by simp
qed


lemma step_saved:
  assumes w: "world_ok w"
  shows "step_ok (Saved tid) w (flight_step e (Saved tid) w)"
proof -
  have "covers w (proposal did now tid (w_db w))" if "all_approved (w_db w) tid" for did now
    using that world_okD(3) [OF w] by (intro proposal_covers) simp_all
  then show ?thesis using w by (auto intro!: step_ok_same split: if_splits)
qed

lemma step_filing:
  assumes w: "world_ok w" and ok: "flight_ok w (Filing doc)"
  shows "step_ok (Filing doc) w (flight_step e (Filing doc) w)"
  unfolding flight_step.simps
proof (rule step_ok_commit [OF w])
  fix w' assume "in_db (add_final_document doc) w = Some w'"
  from document_write [OF w this] ok
  show "effect (set_option (job_of (Filing doc))) (set_option (verdict_of (Filing doc))) w w' \<and> world_ok w' \<and>
    (\<forall>h. Some (Filed (fd_ticket doc)) = Some h \<longrightarrow> flight_ok w' h \<and> job_of h \<in> {None, job_of (Filing doc)} \<and> verdict_of h = None)" by auto
qed

lemma step_filed:
  assumes w: "world_ok w" and ok: "flight_ok w (Filed tid)"
  shows "step_ok (Filed tid) w (flight_step e (Filed tid) w)"
  unfolding flight_step.simps
proof (rule step_ok_commit [OF w])
  fix w' assume c: "in_db (mark_done (en_now e) tid) w = Some w'"
  have "effect {} {} w w' \<and> world_ok w'" using c ok unfolding mark_done_def
    by (intro ticket_write [OF w, of tid "\<lambda>t. t\<lparr>tk_status := Finished, tk_updated_at := en_now e\<rparr>"]) auto
  then show "effect (set_option (job_of (Filed tid))) (set_option (verdict_of (Filed tid))) w w' \<and> world_ok w' \<and>
    (\<forall>h. None = Some h \<longrightarrow> flight_ok w' h \<and> job_of h \<in> {None, job_of (Filed tid)} \<and> verdict_of h = None)" by simp
qed

lemma flight_step_ok:
  assumes "world_ok w" and "flight_ok w f" and "\<And>tid. job_of f = Some tid \<Longrightarrow> has_ticket w tid"
  shows "step_ok f w (flight_step e f w)"
  using assms
  by (cases f) (simp_all only: step_intake step_add_sections step_generate step_generated step_stamping step_open step_marking
    step_opening job_of.simps step_deciding step_loaded step_resumed step_saved step_filing step_filed)

section \<open>Every reachable system\<close>

lemma map_filter_append: "List.map_filter f (xs @ ys) = List.map_filter f xs @ List.map_filter f ys"
  by (simp add: map_filter_def)

lemma map_filter_Cons: "List.map_filter f (x # xs) = (case f x of None \<Rightarrow> List.map_filter f xs | Some y \<Rightarrow> y # List.map_filter f xs)"
  by (simp add: map_filter_def split: option.split)

lemma in_map_filter: "y \<in> set (List.map_filter f xs) \<longleftrightarrow> (\<exists>x \<in> set xs. f x = Some y)"
  by (force simp: map_filter_def)

lemma split_at: "n < length xs \<Longrightarrow> xs = take n xs @ xs ! n # drop (Suc n) xs"
  by (rule id_take_nth_drop)

text \<open>Replacing one element keeps the keys of the list distinct when the new key is the old one, or new.\<close>

lemma replaced_keys:
  assumes "distinct (List.map_filter key xs)" and "n < length xs"
    and new: "\<And>h k. g = Some h \<Longrightarrow> key h = Some k \<Longrightarrow> key (xs ! n) = Some k \<or> k \<notin> set (List.map_filter key xs)"
  shows "distinct (List.map_filter key (replace_flight n g xs))"
    and "set (List.map_filter key (replace_flight n g xs)) \<subseteq> set (List.map_filter key xs) \<union> {k. \<exists>h. g = Some h \<and> key h = Some k}"
proof -
  define a where "a = take n xs"
  define b where "b = drop (Suc n) xs"
  have xs: "xs = a @ xs ! n # b" using split_at [OF assms(2)] by (simp add: a_def b_def)
  have r: "replace_flight n g xs = a @ (case g of None \<Rightarrow> [] | Some h \<Rightarrow> [h]) @ b" by (simp add: replace_flight_def a_def b_def)
  have l: "List.map_filter key xs = List.map_filter key a @ (case key (xs ! n) of None \<Rightarrow> [] | Some k \<Rightarrow> [k]) @ List.map_filter key b"
    by (subst xs) (simp add: map_filter_append map_filter_Cons split: option.split)
  show "distinct (List.map_filter key (replace_flight n g xs))"
    using assms(1) new unfolding r l by (auto simp: map_filter_append map_filter_Cons split: option.splits)
  show "set (List.map_filter key (replace_flight n g xs)) \<subseteq> set (List.map_filter key xs) \<union> {k. \<exists>h. g = Some h \<and> key h = Some k}"
    unfolding r l by (auto simp: map_filter_append map_filter_Cons split: option.splits)
qed

definition others :: "nat \<Rightarrow> flight list \<Rightarrow> flight set" where
  "others n fs = set (take n fs) \<union> set (drop (Suc n) fs)"

lemma in_replaced: "h \<in> set (replace_flight n g xs) \<longleftrightarrow> g = Some h \<or> h \<in> others n xs"
  by (auto simp: replace_flight_def others_def split: option.splits)

lemma others_subset: "others n fs \<subseteq> set fs"
  by (auto simp: others_def dest: in_set_takeD in_set_dropD)

lemma keys_apart:
  assumes "distinct (List.map_filter key xs)" and "n < length xs" and "h \<in> others n xs" and "key h = Some k"
  shows "key (xs ! n) \<noteq> Some k"
proof
  assume c: "key (xs ! n) = Some k"
  have "distinct (List.map_filter key (take n xs @ xs ! n # drop (Suc n) xs))" using assms(1) split_at [OF assms(2)] by simp
  then have "k \<notin> set (List.map_filter key (take n xs))" "k \<notin> set (List.map_filter key (drop (Suc n) xs))"
    by (auto simp: map_filter_append map_filter_Cons c)
  then show False using assms(3,4) by (auto simp: others_def in_map_filter)
qed

lemma rfp_okD:
  assumes "rfp_ok s"
  shows "world_ok (sy_world s)" "\<And>f. f \<in> set (sy_flights s) \<Longrightarrow> flight_ok (sy_world s) f"
    "\<And>f tid. f \<in> set (sy_flights s) \<Longrightarrow> job_of f = Some tid \<Longrightarrow> has_ticket (sy_world s) tid"
    "distinct (List.map_filter job_of (sy_flights s))" "distinct (List.map_filter verdict_of (sy_flights s))"
  using assms by (auto simp: rfp_ok_def in_map_filter)

lemma verdict_ended: "flight_ok w f \<Longrightarrow> verdict_of f = Some k \<Longrightarrow> thread_ended w k"
  by (cases f rule: verdict_of.cases) (auto simp: thread_ended_def)

lemma advance_keeps:
  assumes ok: "rfp_ok s" and n: "n < length (sy_flights s)" and step: "flight_step e (sy_flights s ! n) (sy_world s) = (w, g)"
  shows "rfp_ok (s\<lparr>sy_world := w, sy_flights := replace_flight n g (sy_flights s)\<rparr>)"
proof -
  let ?f = "sy_flights s ! n"
  have f: "?f \<in> set (sy_flights s)" using n by simp
  have s: "step_ok ?f (sy_world s) (w, g)"
    using flight_step_ok [OF rfp_okD(1) [OF ok] rfp_okD(2) [OF ok f] rfp_okD(3) [OF ok f], where e = e] step by simp
  then have e: "effect (set_option (job_of ?f)) (set_option (verdict_of ?f)) (sy_world s) w" and w: "world_ok w"
    and g: "\<And>h. g = Some h \<Longrightarrow> flight_ok w h \<and> job_of h \<in> {None, job_of ?f} \<and> (\<forall>k. verdict_of h = Some k \<longrightarrow> \<not> thread_ended (sy_world s) k)"
    by (auto simp: step_ok_def)
  have "flight_ok w h" if "h \<in> set (replace_flight n g (sy_flights s))" for h
  proof (cases "g = Some h")
    case True
    then show ?thesis using g by simp
  next
    case False
    then have h: "h \<in> others n (sy_flights s)" using that in_replaced by blast
    then have "flight_ok (sy_world s) h" using rfp_okD(2) [OF ok] others_subset by blast
    then show ?thesis
      using keys_apart [OF rfp_okD(4) [OF ok] n h] keys_apart [OF rfp_okD(5) [OF ok] n h]
      by (intro flight_stable [OF e]) auto
  qed
  moreover have "distinct (List.map_filter job_of (replace_flight n g (sy_flights s)))"
    using g by (intro replaced_keys(1) [OF rfp_okD(4) [OF ok] n]) auto
  moreover have "distinct (List.map_filter verdict_of (replace_flight n g (sy_flights s)))"
  proof (rule replaced_keys(1) [OF rfp_okD(5) [OF ok] n])
    fix h k assume h: "g = Some h" "verdict_of h = Some k"
    have "thread_ended (sy_world s) k" if "x \<in> set (sy_flights s)" "verdict_of x = Some k" for x
      using verdict_ended [OF rfp_okD(2) [OF ok that(1)] that(2)] .
    then show "verdict_of ?f = Some k \<or> k \<notin> set (List.map_filter verdict_of (sy_flights s))"
      using g [OF h(1)] h(2) by (auto simp: in_map_filter)
  qed
  moreover have "has_ticket w tid" if "h \<in> set (replace_flight n g (sy_flights s))" "job_of h = Some tid" for h tid
    using that g rfp_okD(3) [OF ok] f others_subset effect_has_ticket [OF e] unfolding in_replaced by (metis insertE option.distinct(1) singletonD subsetD)
  ultimately show ?thesis using w by (auto simp: rfp_ok_def in_map_filter)
qed


lemma upload_keeps:
  assumes ok: "rfp_ok s" and up: "create_from_upload settings extract tid token now u (w_db (sy_world s)) = (Inr t, db)"
  shows "rfp_ok (s\<lparr>sy_world := (sy_world s)\<lparr>w_db := db\<rparr>, sy_flights := sy_flights s @ [Intake (tk_id t)]\<rparr>)"
proof -
  let ?w = "sy_world s"
  define w' where "w' = ?w\<lparr>w_db := db\<rparr>"
  have db: "db = (w_db ?w)\<lparr>rfp_tickets := rfp_tickets (w_db ?w) @ [t]\<rparr>" and new: "tk_id t \<notin> set (map tk_id (rfp_tickets (w_db ?w)))"
    and st: "tk_status t = Analyzing"
    using up by (auto simp: create_from_upload_def add_ticket_def Let_def split: if_splits sum.splits option.splits)
  have tk: "rfp_tickets (w_db w') = rfp_tickets (w_db ?w) @ [t]" and sec: "rfp_sections (w_db w') = rfp_sections (w_db ?w)"
    and doc: "rfp_documents (w_db w') = rfp_documents (w_db ?w)" and th: "w_threads w' = w_threads ?w"
    by (simp_all add: w'_def db)
  have w: "world_ok ?w" by (rule rfp_okD(1) [OF ok])
  have o: "owned ?w i u \<Longrightarrow> owned w' i u" for i u by (auto simp: owned_def tk)
  then have h: "has_ticket ?w i \<Longrightarrow> has_ticket w' i" for i by (auto simp: owned_has_ticket)
  have e: "effect {} {} ?w w'" unfolding effect_def
    by (intro conjI exI [of _ id] exI [of _ "[]"]) (auto simp: o row_effect_def sec doc th)
  have "world_ok w'"
  proof (rule world_okI)
    fix r assume "r \<in> set (rfp_sections (w_db w'))"
    then show "approver_ok w' r" using world_okD(7) [OF w, of r] o by (auto simp: approver_ok_def sec split: if_splits)
  qed (use world_okD [OF w] new st h in \<open>auto simp: tk sec doc th covers_cong [OF sec] ended_cong [OF th]\<close>)
  moreover have none: "\<not> has_ticket ?w (tk_id t)" using new by (metis has_ticket_def image_eqI list.set_map)
  then have "no_thread (tk_id t) w'" "no_section (tk_id t) w'"
    unfolding no_thread_def no_section_def sec th using world_okD(5,10) [OF w] by metis+
  moreover have "flight_ok w' f" if "f \<in> set (sy_flights s)" for f
    using rfp_okD(2) [OF ok that] by (intro flight_stable [OF e]) auto
  moreover have "tk_id t \<notin> set (List.map_filter job_of (sy_flights s))"
    using none rfp_okD(3) [OF ok] by (auto simp: in_map_filter)
  moreover have "has_ticket w' (tk_id t)" by (simp add: has_ticket_def tk)
  ultimately show ?thesis
    using rfp_okD [OF ok] h unfolding w'_def by (auto simp: rfp_ok_def map_filter_append map_filter_Cons in_map_filter)
qed

theorem rfp_step_keeps:
  assumes "rfp_step s s'" and "rfp_ok s"
  shows "rfp_ok s'"
  using assms
proof (cases rule: rfp_step.cases)
  case (upload settings ex tid token now u t db)
  then show ?thesis using upload_keeps assms(2) by simp
next
  case (request tid d action nt actor)
  then show ?thesis using assms(2) by (auto simp: rfp_ok_def map_filter_append map_filter_Cons)
next
  case (advance n e w f)
  then show ?thesis using advance_keeps assms(2) by simp
next
  case (lose n)
  note r = replaced_keys [OF rfp_okD(4) [OF assms(2)] lose(2), of None] replaced_keys [OF rfp_okD(5) [OF assms(2)] lose(2), of None]
  have "h \<in> set (sy_flights s)" if "h \<in> set (replace_flight n None (sy_flights s))" for h
    using that others_subset unfolding in_replaced by blast
  then show ?thesis using assms(2) lose r by (auto simp: rfp_ok_def)
qed

lemma reachable_ok: "rfp_reachable s \<Longrightarrow> rfp_ok s"
  unfolding rfp_reachable_def
proof (induction rule: rtranclp_induct)
  case base
  show ?case by (auto simp: rfp_ok_def empty_system_def map_filter_def intro!: world_okI)
next
  case (step y z)
  then show ?case using rfp_step_keeps by blast
qed


section \<open>Finished tickets\<close>


section \<open>Departments that are closed without an approval\<close>

definition dead :: "rfp_system \<Rightarrow> uuid \<times> department \<Rightarrow> bool" where
  "dead s k =
     ((\<exists>r \<in> set (rfp_sections (w_db (sy_world s))). section_key r = k \<and> sc_approval r \<noteq> Approved) \<and>
      thread_ended (sy_world s) k \<and> k \<notin> set (List.map_filter verdict_of (sy_flights s)))"

lemma dead_effect:
  assumes "effect J K w w'" and "k \<notin> K" and "\<exists>r \<in> set (rfp_sections (w_db w)). section_key r = k \<and> sc_approval r \<noteq> Approved"
  shows "\<exists>r \<in> set (rfp_sections (w_db w')). section_key r = k \<and> sc_approval r \<noteq> Approved"
proof -
  obtain f new where f: "rfp_sections (w_db w') = map f (rfp_sections (w_db w)) @ new" "\<forall>r \<in> set (rfp_sections (w_db w)). row_effect K f r"
    by (rule effectE [OF assms(1)])
  obtain r where "r \<in> set (rfp_sections (w_db w))" "section_key r = k" "sc_approval r \<noteq> Approved" using assms(3) by blast
  then have "f r \<in> set (rfp_sections (w_db w')) \<and> section_key (f r) = k \<and> sc_approval (f r) \<noteq> Approved"
    using f assms(2) by (auto simp: row_effect_def)
  then show ?thesis by blast
qed

lemma dead_step:
  assumes "rfp_step s s'" and ok: "rfp_ok s" and d: "dead s k"
  shows "dead s' k"
  using assms(1)
proof (cases rule: rfp_step.cases)
  case (upload settings ex tid token now u t db)
  then have "db = (w_db (sy_world s))\<lparr>rfp_tickets := rfp_tickets (w_db (sy_world s)) @ [t]\<rparr>"
    by (auto simp: create_from_upload_def add_ticket_def Let_def split: if_splits sum.splits option.splits)
  with upload(1) d show ?thesis by (auto simp: dead_def thread_ended_def map_filter_append map_filter_Cons)
next
  case (request tid dd action nt actor)
  with d show ?thesis by (auto simp: dead_def map_filter_append map_filter_Cons)
next
  case (advance n e w g)
  let ?f = "sy_flights s ! n"
  have f: "?f \<in> set (sy_flights s)" using advance(2) by simp
  have st: "step_ok ?f (sy_world s) (w, g)"
    using flight_step_ok [OF rfp_okD(1) [OF ok] rfp_okD(2) [OF ok f] rfp_okD(3) [OF ok f], where e = e] advance(3) by simp
  have k: "k \<notin> set_option (verdict_of ?f)" using d f by (auto simp: dead_def in_map_filter)
  have e: "effect (set_option (job_of ?f)) (set_option (verdict_of ?f)) (sy_world s) w" using st by (simp add: step_ok_def)
  have "verdict_of h \<noteq> Some k" if "h \<in> set (replace_flight n g (sy_flights s))" for h
  proof (cases "g = Some h")
    case True
    then have "\<forall>k. verdict_of h = Some k \<longrightarrow> \<not> thread_ended (sy_world s) k" using st by (simp add: step_ok_def)
    then show ?thesis using conjunct1 [OF conjunct2 [OF d [unfolded dead_def]]] by blast
  next
    case False
    then have "h \<in> set (sy_flights s)" using that others_subset unfolding in_replaced by blast
    then show ?thesis using d by (auto simp: dead_def in_map_filter)
  qed
  then have "k \<notin> set (List.map_filter verdict_of (replace_flight n g (sy_flights s)))" unfolding in_map_filter by blast
  moreover have "\<exists>r \<in> set (rfp_sections (w_db w)). section_key r = k \<and> sc_approval r \<noteq> Approved"
    using d k by (intro dead_effect [OF e]) (simp_all add: dead_def)
  moreover have "thread_ended w k" using d effect_ended [OF e] by (simp add: dead_def)
  ultimately show ?thesis using advance(1) by (simp add: dead_def)
next
  case (lose n)
  have "set (replace_flight n None (sy_flights s)) \<subseteq> set (sy_flights s)"
    using others_subset [of n "sy_flights s"] by (auto simp: in_replaced)
  then have "set (List.map_filter verdict_of (replace_flight n None (sy_flights s))) \<subseteq> set (List.map_filter verdict_of (sy_flights s))"
    by (fastforce simp: in_map_filter)
  then show ?thesis using d lose(1) by (auto simp: dead_def)
qed



section \<open>A run of the desk\<close>

fun moves :: "rfp_env \<Rightarrow> nat \<Rightarrow> flight \<times> rfp_world \<Rightarrow> (flight option \<times> rfp_world)" where
  "moves e 0 (f, w) = (Some f, w)"
| "moves e (Suc n) (f, w) = (case flight_step e f w of (w', None) \<Rightarrow> (None, w') | (w', Some g) \<Rightarrow> moves e n (g, w'))"

lemma moves_reachable:
  assumes "moves e n (f, w) = (g, w')"
  shows "rfp_step\<^sup>*\<^sup>* \<lparr>sy_world = w, sy_flights = [f]\<rparr> \<lparr>sy_world = w', sy_flights = (case g of None \<Rightarrow> [] | Some h \<Rightarrow> [h])\<rparr>"
  using assms
proof (induction e n "(f, w)" arbitrary: f w rule: moves.induct)
  case (1 e f w)
  then show ?case by auto
next
  case (2 e n f w)
  obtain w1 h where s: "flight_step e f w = (w1, h)" by fastforce
  have one: "rfp_step \<lparr>sy_world = w, sy_flights = [f]\<rparr> \<lparr>sy_world = w1, sy_flights = (case h of None \<Rightarrow> [] | Some g \<Rightarrow> [g])\<rparr>"
    using rfp_step.advance [of 0 "\<lparr>sy_world = w, sy_flights = [f]\<rparr>" e w1 h] s by (simp add: replace_flight_def)
  show ?case
  proof (cases h)
    case None
    then show ?thesis using one s 2(2) by auto
  next
    case (Some h')
    then have "rfp_step\<^sup>*\<^sup>* \<lparr>sy_world = w1, sy_flights = [h']\<rparr> \<lparr>sy_world = w', sy_flights = (case g of None \<Rightarrow> [] | Some h \<Rightarrow> [h])\<rparr>"
      using 2(1) [OF s [symmetric] Some] 2(2) s by simp
    then show ?thesis using one Some by (simp add: converse_rtranclp_into_rtranclp)
  qed
qed

definition desk_settings :: rfp_settings where
  "desk_settings =
     \<lparr>rs_rfp_enabled = True, rs_openai_api_key = ''k'', rs_deepseek_api_key = ''k'', rs_rfp_model = ''gpt-4o-mini'',
      rs_rfp_max_iterations = 2, rs_generation_model = ''deepseek-chat'', rs_app_env = ''test''\<rparr>"

definition desk_env :: rfp_env where
  "desk_env =
     \<lparr>en_settings = desk_settings, en_now = 7, en_id = ''d'', en_ids = (\<lambda>d. ''s''),
      en_intake =
        \<lparr>im_classification = (\<lambda>system human. Parsed (True, ''a client asks for returns'') None None),
         im_metadata = (\<lambda>system human. Parsed
           \<lparr>md_client_name = Some ''Nora'', md_client_country = Some ''US'', md_services = [''returns''], md_monthly_volume = Some 10,
            md_deadline_days = None, md_budget_range = None\<rparr> None None),
         im_key_aspects = (\<lambda>system human. Parsed [''labels''] None None)\<rparr>,
      en_writer = \<lparr>wr_retrieve = (\<lambda>query jurisdiction. None), wr_complete = (\<lambda>draw system user. None), wr_model = ''deepseek-chat''\<rparr>,
      en_fsum = sum_list\<rparr>"

definition desk_outcome :: intake_outcome where
  "desk_outcome = run_intake sum_list (en_intake desk_env) (build_rfp_config desk_settings) ''1''"

lemma desk_outcome_facts:
  "io_status desk_outcome = Routed" "io_departments desk_outcome = [Reverse]" "io_currency desk_outcome = Some ''USD''"
  "io_aspects desk_outcome = [(Reverse, [''labels''])]"
  "io_metadata desk_outcome = Some \<lparr>md_client_name = Some ''Nora'', md_client_country = Some ''US'', md_services = [''returns''], md_monthly_volume = Some 10,
            md_deadline_days = None, md_budget_range = None\<rparr>"
  by code_simp+


definition desk_ticket :: rfp_ticket where
  "desk_ticket =
     \<lparr>tk_id = ''t'', tk_rfp_id = ''RFP-7F'', tk_status = Analyzing, tk_owner = ''ana'', tk_operator_jurisdiction = Some ''US'',
      tk_client_name = None, tk_client_country = None, tk_currency = None, tk_services = None, tk_monthly_volume = None,
      tk_deadline_days = None, tk_budget_range = None, tk_departments = None, tk_metrics = Some (compute_readability ''1''),
      tk_markdown = Some ''1'', tk_discard_reason = None, tk_created_at = 5, tk_updated_at = 5\<rparr>"

definition desk_upload :: upload where
  "desk_upload = \<lparr>up_owner = ''ana'', up_jurisdiction = Some ''US'', up_filename = None, up_content_type = Some ''application/pdf'', up_data = ''1''\<rparr>"

definition desk_world :: "rfp_ticket \<Rightarrow> rfp_section list \<Rightarrow> rfp_document list \<Rightarrow> threads \<Rightarrow> rfp_world" where
  "desk_world t ss ds th = \<lparr>w_db = \<lparr>rfp_tickets = [t], rfp_sections = ss, rfp_documents = ds\<rparr>, w_threads = th\<rparr>"

lemma desk_uploaded:
  "create_from_upload desk_settings (\<lambda>d. Some d) ''t'' ''7f'' 5 desk_upload \<lparr>rfp_tickets = [], rfp_sections = [], rfp_documents = []\<rparr> =
    (Inr desk_ticket, \<lparr>rfp_tickets = [desk_ticket], rfp_sections = [], rfp_documents = []\<rparr>)"
proof -
  have "normalize_document ''1'' = ''1''" by code_simp
  then have "pdf_to_markdown (\<lambda>d. Some d) ''1'' = Inr ''1''" by (simp add: pdf_to_markdown_def MAX_PDF_BYTES_def)
  moreover have "to_upper (take 10 ''7f'') = ''7F''" by code_simp
  ultimately show ?thesis
    by (simp add: create_from_upload_def desk_settings_def is_rfp_intake_configured_def is_rfp_configured_def is_pdf_def desk_upload_def
      Let_def desk_ticket_def add_ticket_def ticket_valid_def one_of_def column_count_def at_most_def)
qed

definition desk_section :: rfp_section where
  "desk_section = new_section (\<lambda>d. ''s'') 7 desk_outcome ''t'' Reverse"

lemmas desk_steps = moves.simps after_commit_def in_db_def save_outcome_def save_ticket_def update_where_def
  desk_outcome_facts desk_world_def Let_def rfp_get_def

lemma desk_run_intake: "run_intake (en_fsum desk_env) (en_intake desk_env) (build_rfp_config (en_settings desk_env)) ''1'' = desk_outcome"
  by (simp add: desk_outcome_def desk_env_def)

lemma desk_routed:
  "flight_step desk_env (Intake ''t'') (desk_world desk_ticket [] [] Map.empty) =
    (desk_world (routed_ticket 7 desk_outcome desk_ticket) [] [] Map.empty, Some (AddSections ''t'' desk_outcome))"
proof -
  have v: "ticket_valid (routed_ticket 7 desk_outcome desk_ticket)"
    by (simp add: ticket_valid_def routed_ticket_def desk_outcome_facts desk_ticket_def one_of_def column_count_def at_most_def Let_def)
  have "tk_id desk_ticket = ''t''" "tk_markdown desk_ticket = Some ''1''" "en_now desk_env = 7" by (simp_all add: desk_ticket_def desk_env_def)
  then show ?thesis using v desk_outcome_facts(1)
    by (simp add: desk_world_def rfp_get_def desk_run_intake Let_def after_commit_def in_db_def save_outcome_def save_ticket_def update_where_def)
qed

lemma desk_added:
  "flight_step desk_env (AddSections ''t'' desk_outcome) (desk_world (routed_ticket 7 desk_outcome desk_ticket) [] [] Map.empty) =
    (desk_world (routed_ticket 7 desk_outcome desk_ticket) [desk_section] [] Map.empty, Some (Generate ''t''))"
proof -
  have "tk_id (routed_ticket 7 desk_outcome desk_ticket) = ''t''" by (simp add: routed_ticket_def desk_ticket_def Let_def)
  then show ?thesis
    by (simp add: desk_world_def rfp_get_def Let_def after_commit_def in_db_def save_outcome_sections_def desk_outcome_facts add_sections_def
      desk_section_def new_section_def section_valid_def at_most_def desk_env_def desk_settings_def is_rfp_generation_configured_def
      is_rfp_intake_configured_def is_rfp_configured_def)
qed

lemma desk_draft: "draft_section (en_writer desk_env) n d c cur v as fb = None"
  by (simp add: draft_section_def grounding_def desk_env_def)

definition desk_failed :: rfp_section where
  "desk_failed = desk_section\<lparr>sc_draft := None, sc_results := Some GenerationFailed, sc_iterations := 1\<rparr>"

lemma desk_generated:
  "flight_step desk_env (Generate ''t'') (desk_world (routed_ticket 7 desk_outcome desk_ticket) [desk_section] [] Map.empty) =
    (desk_world (routed_ticket 7 desk_outcome desk_ticket) [desk_section] [] Map.empty, Some (Generated ''t'' [desk_failed]))"
proof -
  have "iterations_of (rs_rfp_max_iterations (en_settings desk_env)) = [1, 2]" by (simp add: iterations_of_def upt_rec desk_env_def desk_settings_def)
  moreover have "tk_id (routed_ticket 7 desk_outcome desk_ticket) = ''t''" "tk_status (routed_ticket 7 desk_outcome desk_ticket) = Drafting"
    "sc_ticket desk_section = ''t''" by (simp_all add: routed_ticket_def desk_ticket_def Let_def desk_section_def new_section_def)
  ultimately show ?thesis
    by (simp add: desk_world_def rfp_get_def generation_read_def sections_for_ticket_def generate_one_def generate_section_def desk_draft
      Let_def desk_failed_def)
qed

definition desk_at :: "ticket_status \<Rightarrow> rfp_ticket" where
  "desk_at st = (routed_ticket 7 desk_outcome desk_ticket)\<lparr>tk_status := st, tk_updated_at := 7\<rparr>"

lemma desk_at_facts [simp]:
  "routed_ticket 7 desk_outcome desk_ticket = desk_at Drafting" "tk_id (desk_at st) = ''t''" "tk_status (desk_at st) = st"
  "tk_owner (desk_at st) = ''ana''" "tk_currency (desk_at st) = Some ''USD''"
  "(desk_at st)\<lparr>tk_status := st', tk_updated_at := 7\<rparr> = desk_at st'"
  "ticket_valid (desk_at st)"
  by (simp_all add: desk_at_def routed_ticket_def desk_ticket_def Let_def desk_outcome_facts ticket_valid_def one_of_def column_count_def at_most_def)

lemma desk_env_facts [simp]: "en_now desk_env = 7" "rs_rfp_max_iterations (en_settings desk_env) = 2" "en_id desk_env = ''d''"
  by (simp_all add: desk_env_def desk_settings_def)

lemma desk_section_facts [simp]:
  "sc_id desk_failed = ''s''" "sc_id desk_section = ''s''" "sc_ticket desk_failed = ''t''" "sc_department desk_failed = Reverse"
  "sc_approval desk_failed = Pending" "sc_approver desk_failed = None" "sc_draft desk_failed = None"
  "draft_columns desk_failed desk_section = desk_failed" "desk_failed\<lparr>sc_updated_at := 7\<rparr> = desk_failed"
  by (simp_all add: desk_failed_def desk_section_def new_section_def draft_columns_def)

definition desk_thread :: approval_state where
  "desk_thread = initial_approval (desk_at UnderEvaluation) desk_failed 2"

abbreviation desk_paused :: threads where
  "desk_paused \<equiv> [(''t'', Reverse) \<mapsto> Paused desk_thread]"

lemma desk_saved:
  "flight_step desk_env (Generated ''t'' [desk_failed]) (desk_world (desk_at Drafting) [desk_section] [] Map.empty) =
    (desk_world (desk_at UnderEvaluation) [desk_failed] [] Map.empty, Some (Stamping ''t'' [desk_failed]))"
  "flight_step desk_env (Stamping ''t'' [desk_failed]) (desk_world (desk_at UnderEvaluation) [desk_failed] [] Map.empty) =
    (desk_world (desk_at UnderEvaluation) [desk_failed] [] Map.empty, Some (Open ''t''))"
  "flight_step desk_env (Open ''t'') (desk_world (desk_at UnderEvaluation) [desk_failed] [] Map.empty) =
    (desk_world (desk_at UnderEvaluation) [desk_failed] [] Map.empty, Some (Opening ''t'' [(Reverse, desk_thread)]))"
  "flight_step desk_env (Opening ''t'' [(Reverse, desk_thread)]) (desk_world (desk_at UnderEvaluation) [desk_failed] [] Map.empty) =
    (desk_world (desk_at UnderEvaluation) [desk_failed] [] desk_paused, Some (Opening ''t'' []))"
  "flight_step desk_env (Opening ''t'' []) (desk_world (desk_at UnderEvaluation) [desk_failed] [] desk_paused) =
    (desk_world (desk_at UnderEvaluation) [desk_failed] [] desk_paused, Some (Marking ''t''))"
  "flight_step desk_env (Marking ''t'') (desk_world (desk_at UnderEvaluation) [desk_failed] [] desk_paused) =
    (desk_world (desk_at WaitingForApproval) [desk_failed] [] desk_paused, None)"
  by (simp_all add: desk_world_def in_db_def generation_save_def save_ticket_def update_where_def Let_def replace_drafts_def
    generation_stamp_def approval_read_def rfp_get_def sections_for_ticket_def desk_thread_def open_thread_def set_thread_def
    still_under_evaluation_def after_commit_def mark_waiting_def)

definition desk_approved :: rfp_section where
  "desk_approved = decided_section 7 ''ana'' (Ended (end_with OutcomeApproved (node_step ''approve'' ''ok'' None (None, None)) (desk_thread\<lparr>ap_decision := Some (''approve'', None)\<rparr>))) desk_failed"

abbreviation desk_ended :: thread where
  "desk_ended \<equiv> Ended (end_with OutcomeApproved (node_step ''approve'' ''ok'' None (None, None)) (desk_thread\<lparr>ap_decision := Some (''approve'', None)\<rparr>))"

definition desk_document :: rfp_document where
  "desk_document = \<lparr>fd_id = ''d'', fd_ticket = ''t'', fd_sections = [(Reverse, '''')], fd_currency = ''USD'', fd_generated_at = 7\<rparr>"

lemma desk_approved_facts [simp]:
  "sc_ticket desk_approved = ''t''" "sc_id desk_approved = ''s''" "sc_approval desk_approved = Approved" "sc_draft desk_approved = None"
  "sc_department desk_approved = Reverse" "sc_approver desk_approved = Some ''ana''"
  by (simp_all add: desk_approved_def decided_section_def end_with_def Let_def)

lemma desk_write: "write_changes desk_failed desk_approved desk_failed = desk_approved"
  by (simp add: write_changes_def changed_def desk_approved_def decided_section_def end_with_def Let_def desk_failed_def)

lemma desk_decided:
  "flight_step desk_env (Deciding ''t'' Reverse ''approve'' None ''ana'') (desk_world (desk_at WaitingForApproval) [desk_failed] [] desk_paused) =
    (desk_world (desk_at WaitingForApproval) [desk_failed] [] desk_paused, Some (Loaded (desk_at WaitingForApproval) desk_failed ''approve'' None ''ana''))"
  "flight_step desk_env (Loaded (desk_at WaitingForApproval) desk_failed ''approve'' None ''ana'') (desk_world (desk_at WaitingForApproval) [desk_failed] [] desk_paused) =
    (desk_world (desk_at WaitingForApproval) [desk_failed] [] [(''t'', Reverse) \<mapsto> desk_ended], Some (Resumed (desk_at WaitingForApproval) desk_failed desk_ended ''ana''))"
  "flight_step desk_env (Resumed (desk_at WaitingForApproval) desk_failed desk_ended ''ana'') (desk_world (desk_at WaitingForApproval) [desk_failed] [] [(''t'', Reverse) \<mapsto> desk_ended]) =
    (desk_world (desk_at WaitingForApproval) [desk_approved] [] [(''t'', Reverse) \<mapsto> desk_ended], Some (Saved ''t''))"
  "flight_step desk_env (Saved ''t'') (desk_world (desk_at WaitingForApproval) [desk_approved] [] [(''t'', Reverse) \<mapsto> desk_ended]) =
    (desk_world (desk_at WaitingForApproval) [desk_approved] [] [(''t'', Reverse) \<mapsto> desk_ended], Some (Filing desk_document))"
  "flight_step desk_env (Filing desk_document) (desk_world (desk_at WaitingForApproval) [desk_approved] [] [(''t'', Reverse) \<mapsto> desk_ended]) =
    (desk_world (desk_at WaitingForApproval) [desk_approved] [desk_document] [(''t'', Reverse) \<mapsto> desk_ended], Some (Filed ''t''))"
  "flight_step desk_env (Filed ''t'') (desk_world (desk_at WaitingForApproval) [desk_approved] [desk_document] [(''t'', Reverse) \<mapsto> desk_ended]) =
    (desk_world (desk_at Finished) [desk_approved] [desk_document] [(''t'', Reverse) \<mapsto> desk_ended], None)"
  by (simp_all add: desk_world_def get_for_owner_def section_for_department_def resume_thread_def VALID_ACTIONS_def resume_def Let_def
    set_thread_def after_commit_def in_db_def save_decision_def save_section_def update_where_def section_valid_def at_most_def
    desk_approved_def [symmetric] desk_write all_approved_def sections_for_ticket_def proposal_def consolidated_def rfp_get_def or_else_def
    desk_document_def add_final_document_def document_valid_def mark_done_def save_ticket_def)

lemma desk_waiting: "rfp_reachable \<lparr>sy_world = desk_world (desk_at WaitingForApproval) [desk_failed] [] desk_paused, sy_flights = []\<rparr>"
proof -
  let ?s = "\<lparr>sy_world = desk_world desk_ticket [] [] Map.empty, sy_flights = [Intake ''t'']\<rparr>"
  have "rfp_step empty_system ?s"
    using rfp_step.upload [of desk_settings "\<lambda>d. Some d" "''t''" "''7f''" 5 desk_upload empty_system desk_ticket] desk_uploaded
    by (simp add: empty_system_def desk_world_def desk_ticket_def)
  moreover have "moves desk_env 9 (Intake ''t'', desk_world desk_ticket [] [] Map.empty) =
      (None, desk_world (desk_at WaitingForApproval) [desk_failed] [] desk_paused)"
    using desk_routed desk_added desk_generated by (simp add: numeral_eq_Suc desk_saved del: flight_step.simps)
  from moves_reachable [OF this] have "rfp_step\<^sup>*\<^sup>* ?s \<lparr>sy_world = desk_world (desk_at WaitingForApproval) [desk_failed] [] desk_paused, sy_flights = []\<rparr>" by simp
  ultimately show ?thesis unfolding rfp_reachable_def by (rule converse_rtranclp_into_rtranclp)
qed

abbreviation desk_request :: flight where
  "desk_request \<equiv> Deciding ''t'' Reverse ''approve'' None ''ana''"

lemma desk_requested: "rfp_reachable \<lparr>sy_world = desk_world (desk_at WaitingForApproval) [desk_failed] [] desk_paused, sy_flights = [desk_request]\<rparr>"
  using desk_waiting rfp_step.request [of "\<lparr>sy_world = desk_world (desk_at WaitingForApproval) [desk_failed] [] desk_paused, sy_flights = []\<rparr>"]
  unfolding rfp_reachable_def by (auto intro: rtranclp.rtrancl_into_rtrancl)

definition desk_finished :: rfp_system where
  "desk_finished = \<lparr>sy_world = desk_world (desk_at Finished) [desk_approved] [desk_document] [(''t'', Reverse) \<mapsto> desk_ended], sy_flights = []\<rparr>"

lemma desk_finished_reachable: "rfp_reachable desk_finished"
proof -
  have "moves desk_env 6 (desk_request, desk_world (desk_at WaitingForApproval) [desk_failed] [] desk_paused) =
      (None, desk_world (desk_at Finished) [desk_approved] [desk_document] [(''t'', Reverse) \<mapsto> desk_ended])"
    by (simp add: numeral_eq_Suc desk_decided del: flight_step.simps)
  from moves_reachable [OF this] show ?thesis using desk_requested
    unfolding rfp_reachable_def desk_finished_def by simp
qed

text \<open>The request that ends the thread is lost before it writes the section.\<close>

definition desk_lost :: rfp_system where
  "desk_lost = \<lparr>sy_world = desk_world (desk_at WaitingForApproval) [desk_failed] [] [(''t'', Reverse) \<mapsto> desk_ended], sy_flights = []\<rparr>"

lemma desk_lost_reachable: "rfp_reachable desk_lost"
proof -
  let ?s = "\<lparr>sy_world = desk_world (desk_at WaitingForApproval) [desk_failed] [] [(''t'', Reverse) \<mapsto> desk_ended],
    sy_flights = [Resumed (desk_at WaitingForApproval) desk_failed desk_ended ''ana'']\<rparr>"
  have "moves desk_env 2 (desk_request, desk_world (desk_at WaitingForApproval) [desk_failed] [] desk_paused) =
      (Some (Resumed (desk_at WaitingForApproval) desk_failed desk_ended ''ana''), desk_world (desk_at WaitingForApproval) [desk_failed] [] [(''t'', Reverse) \<mapsto> desk_ended])"
    by (simp add: numeral_eq_Suc desk_decided del: flight_step.simps)
  from moves_reachable [OF this] have "rfp_reachable ?s" using desk_requested unfolding rfp_reachable_def by simp
  moreover have "rfp_step ?s desk_lost" using rfp_step.lose [of 0 ?s] by (simp add: desk_lost_def replace_flight_def)
  ultimately show ?thesis unfolding rfp_reachable_def by (rule rtranclp.rtrancl_into_rtrancl)
qed




section \<open>The last approval\<close>

lemma find_update_where:
  assumes "List.find P xs = Some x" and "\<And>y. P (f y) = P y"
  shows "List.find P (update_where Q f xs) = Some (if Q x then f x else x)"
  using assms(1) by (induction xs) (auto simp: update_where_def assms(2) split: if_splits)

lemma department_of_id [simp]: "department_of (department_id d) = Some d"
  by (cases d) (simp_all add: department_of_def department_id_def)

lemma filed_currency:
  assumes "ticket_valid t"
  shows "or_else (coalesce (tk_currency t) '''') ''USD'' \<in> set [''USD'', ''EUR'']"
  using assms by (auto simp: ticket_valid_def one_of_def or_else_def split: option.splits)

text \<open>
  C15: the decision that completes the approvals finishes the ticket. When every other department of a
  ticket is approved and its owner approves the remaining one, whose thread is paused, the request answers
  the ticket as done, and its document is filed, covers every department and is in a valid currency
  (the ids drawn are fresh and the rows within the limits of their columns).
\<close>

theorem last_approval_finishes:
  assumes "is_rfp_generation_configured settings" and w: "world_ok w"
    and valid: "list_all ticket_valid (rfp_tickets (w_db w))" "list_all section_valid (rfp_sections (w_db w))"
    and t: "get_for_owner (w_db w) tid actor = Some t" and s: "section_for_department (w_db w) tid d = Some s"
    and paused: "w_threads w (tid, d) = Some (Paused v)"
    and rest: "\<And>r. r \<in> set (sections_for_ticket (w_db w) tid) \<Longrightarrow> sc_department r \<noteq> d \<Longrightarrow> sc_approval r = Approved"
    and none: "final_document (w_db w) tid = None" and did: "length did \<le> 36" "did \<notin> set (map fd_id (rfp_documents (w_db w)))"
  shows "\<exists>t' ss w' doc. decide settings wr did now tid (department_id d) ''approve'' note actor w = (Inr (t', ss), w') \<and>
    tk_id t' = tid \<and> tk_status t' = Finished \<and> final_document (w_db w') tid = Some doc \<and> covers w' doc \<and> fd_currency doc \<in> {''USD'', ''EUR''}"
proof -
  let ?db = "w_db w"
  have tt: "t \<in> set (rfp_tickets ?db)" "tk_id t = tid" "tk_owner t = actor"
    using find_Some_in [OF t [unfolded get_for_owner_def]] by simp_all
  have ss: "s \<in> set (rfp_sections ?db)" "sc_ticket s = tid" "sc_department s = d"
    using find_Some_in [OF s [unfolded section_for_department_def]] by simp_all
  have tv: "ticket_valid t" using valid(1) tt(1) by (simp add: list_all_iff)
  define th where "th = resume wr ''approve'' note v"
  define new where "new = decided_section now actor th s"
  define w1 where "w1 = set_thread tid d th w"
  define db2 where "db2 = ?db\<lparr>rfp_sections := update_where (\<lambda>r. sc_id r = sc_id s) (write_changes s new) (rfp_sections ?db)\<rparr>"
  have "\<not> thread_ended w (section_key s)" using paused ss by (simp add: thread_ended_def section_key_def)
  then have pending: "sc_approval s = Pending" using world_okD(6) [OF w ss(1)] by blast
  have newf: "sc_approval new = Approved" "sc_approver new = Some actor"
    by (simp_all add: new_def th_def decided_section_def resume_def end_with_def Let_def)
  have "list_all section_valid (rfp_sections db2)"
    using valid(2) tv tt(3) newf(2) by (auto simp: db2_def list_all_iff set_update_where section_valid_def write_changes_def changed_def
      at_most_def ticket_valid_def)
  then have saved: "in_db (save_decision now actor th s) w1 = Some (w1\<lparr>w_db := db2\<rparr>)"
    by (simp add: in_db_def save_decision_def save_section_def w1_def set_thread_def db2_def new_def Let_def)
  have approved: "sc_approval r = Approved" if r: "r \<in> set (rfp_sections db2)" "sc_ticket r = tid" for r
  proof -
    obtain q where q: "q \<in> set (rfp_sections ?db)" "r = (if sc_id q = sc_id s then write_changes s new q else q)"
      using r(1) by (auto simp: db2_def set_update_where)
    show ?thesis
    proof (cases "sc_id q = sc_id s")
      case True
      then have "q = s" using world_okD(2) [OF w] q(1) ss(1) by (simp add: distinct_map inj_on_def)
      then show ?thesis using q(2) newf(1) pending by (simp add: write_changes_def changed_def)
    next
      case False
      then have "sc_department q \<noteq> d" using world_okD(3) [OF w] q ss r(2) by (auto simp: distinct_map inj_on_def section_key_def)
      then show ?thesis using False q r(2) rest by simp
    qed
  qed
  have "write_changes s new s \<in> set (rfp_sections db2)" "sc_ticket (write_changes s new s) = tid"
    using ss(1,2) by (auto simp: db2_def set_update_where write_changes_def)
  then have "sections_for_ticket db2 tid \<noteq> []" by (metis empty_iff in_sections_for list.set(1))
  then have all: "all_approved db2 tid" using approved by (auto simp: all_approved_def list_all_iff)
  have g: "rfp_get db2 tid = Some t"
    unfolding rfp_get_def using tt world_okD(1) [OF w] find_key_unique [of tk_id "rfp_tickets ?db" t] by (simp add: db2_def)
  define doc where "doc = proposal did now tid db2"
  have doc: "fd_ticket doc = tid" "fd_currency doc \<in> {''USD'', ''EUR''}"
    using filed_currency [OF tv] g by (simp_all add: doc_def proposal_def)
  have "add_final_document doc db2 = Some (db2\<lparr>rfp_documents := rfp_documents ?db @ [doc]\<rparr>)"
    using doc did none g by (auto simp: add_final_document_def document_valid_def doc_def proposal_def db2_def final_document_def find_None_iff)
  then have filed: "in_db (file_document did now tid) (w1\<lparr>w_db := db2\<rparr>) = Some (w1\<lparr>w_db := db2\<lparr>rfp_documents := rfp_documents ?db @ [doc]\<rparr>\<rparr>)"
    by (simp add: in_db_def file_document_def doc_def)
  let ?F = "\<lambda>t. t\<lparr>tk_status := Finished, tk_updated_at := now\<rparr>"
  define db4 where "db4 = db2\<lparr>rfp_documents := rfp_documents ?db @ [doc], rfp_tickets := update_where (\<lambda>t. tk_id t = tid) ?F (rfp_tickets ?db)\<rparr>"
  have "list_all ticket_valid (rfp_tickets db4)"
    using valid(1) by (auto simp: db4_def list_all_iff set_update_where ticket_valid_def)
  then have marked: "in_db (mark_done now tid) (w1\<lparr>w_db := db2\<lparr>rfp_documents := rfp_documents ?db @ [doc]\<rparr>\<rparr>) = Some (w1\<lparr>w_db := db4\<rparr>)"
    by (simp add: in_db_def mark_done_def save_ticket_def db4_def db2_def Let_def)
  have "get_for_owner db4 tid actor = Some (?F t)"
    using find_update_where [OF t [unfolded get_for_owner_def], of ?F "\<lambda>t. tk_id t = tid"] tt by (simp add: get_for_owner_def db4_def)
  then have got: "get_ticket settings tid actor db4 = Inr (?F t, sections_for_ticket db4 tid)"
    using assms(1) tt by (simp add: get_ticket_def is_rfp_generation_configured_def is_rfp_intake_configured_def)
  have r: "resume_thread wr tid d ''approve'' note w = (Inr th, w1)"
    using paused by (simp add: resume_thread_def VALID_ACTIONS_def th_def w1_def Let_def)
  have "submit_decision wr did now t s ''approve'' note actor w = (Inr \<lparr>do_section = sc_approval new,
      do_ticket = map_option tk_status (rfp_get db4 tid), do_finalized = True\<rparr>, w1\<lparr>w_db := db4\<rparr>)"
    using r saved all filed marked tt ss by (simp add: submit_decision_def maybe_finalize_def new_def)
  then have dec: "decide settings wr did now tid (department_id d) ''approve'' note actor w = (Inr (?F t, sections_for_ticket db4 tid), w1\<lparr>w_db := db4\<rparr>)"
    using assms(1) t s got by (simp add: decide_def)
  have "final_document db4 tid = Some doc"
    using none doc(1) by (simp add: final_document_def db4_def find_append)
  moreover have "map section_key (rfp_sections db2) = map section_key (rfp_sections ?db)"
    by (simp add: db2_def map_update_where section_key_def write_changes_def)
  then have "covers (w1\<lparr>w_db := db4\<rparr>) doc" unfolding doc_def
    using world_okD(3) [OF w] all by (intro proposal_covers) (simp_all add: db4_def)
  ultimately show ?thesis using dec doc(2) tt(2) by fastforce
qed


lemma last_approval_finishes_witness:
  "\<exists>t' ss w' doc. decide desk_settings (en_writer desk_env) ''d'' 7 ''t'' ''reverse'' ''approve'' None ''ana''
      (desk_world (desk_at WaitingForApproval) [desk_failed] [] desk_paused) = (Inr (t', ss), w') \<and>
    tk_id t' = ''t'' \<and> tk_status t' = Finished \<and> final_document (w_db w') ''t'' = Some doc \<and> covers w' doc \<and> fd_currency doc \<in> {''USD'', ''EUR''}"
proof -
  let ?w = "desk_world (desk_at WaitingForApproval) [desk_failed] [] desk_paused"
  have w: "world_ok ?w" using rfp_okD(1) [OF reachable_ok [OF desk_waiting]] by simp
  have "is_rfp_generation_configured desk_settings"
    by (simp add: is_rfp_generation_configured_def is_rfp_intake_configured_def is_rfp_configured_def desk_settings_def)
  moreover have "section_valid desk_failed" by (simp add: section_valid_def at_most_def)
  ultimately show ?thesis
    using last_approval_finishes [OF _ w, of desk_settings "''t''" "''ana''" "desk_at WaitingForApproval" Reverse desk_failed desk_thread "''d''"
      "en_writer desk_env" 7 None]
    by (simp add: desk_world_def get_for_owner_def section_for_department_def final_document_def department_id_def sections_for_ticket_def)
qed

end
