(* ===== verification/Spec2Isabelle.thy ===== *)
theory Spec2Isabelle
  imports InventorySystem LedgerPruner ReportApi OAuth RfpSystem
begin

text \<open>
  Verification of the TrackFlow logistics platform (Python): the inventory and reporting core of the
  central API and its RFP desk (\<open>services/central-api/central_api/\<close>), the reporting pipeline
  (\<open>data/pipelines/business_performance/\<close>, \<open>data/process/business_performance/\<close>), the maintenance
  scripts (\<open>services/central-api/scripts/\<close>), the identity service with its OAuth server
  (\<open>services/identity/identity/\<close>) and the token verification the services share
  (\<open>packages/trackflow_auth/\<close>).

  \<^bold>\<open>The program.\<close> Requests reach FastAPI handlers, which call services over repositories. The
  inventory domain keeps SKUs, clients, stock entries and exits, and a materialized balance for each
  SKU; scripts verify, repair and prune that ledger. The reporting pipeline turns the movements into
  hourly and weekly rows: the API, a scheduler and the command line enqueue runs in PostgreSQL, a
  worker claims one at a time under a lease, computes and publishes it. The identity service keeps
  users, refresh sessions and recovery tokens in TinyDB and signs the access tokens that the other
  services verify. The RFP desk takes a request for proposal: a background job classifies the document
  and plans its departments with a language model, drafts a section for each, priced from the rate card
  and checked by deterministic evaluators, and opens an approval thread per department; the owner's last
  approval files the proposal.

  \<^bold>\<open>Conventions.\<close> A table is a list of records (an association list where the code upserts by key), a
  database is a record of tables, and a statement is a function on it. An operation takes the state
  and returns its result with the next state; an exception is \<open>Inl\<close> of an error. Clock readings,
  UUIDs and random tokens are arguments. An instant is the number of microseconds since 1970, a date
  the number of days. Third-party code is a parameter (cryptography, the time zone database, the
  division of PostgreSQL's \<open>numeric\<close>) with its documented behaviour as a hypothesis where a property
  needs it, and a witness instantiates it. Strings are lists of characters, ASCII where the code changes their case.

  \<^bold>\<open>Theories.\<close>
  \<^item> \<open>Prelude\<close>: instants, filtered sums, keyed tables, text.
  \<^item> \<open>Unit_Of_Work\<close>: SQLAlchemy's session, whose statements may each fail (a list of faults), and
    weakest preconditions for the methods that use it; the locale \<open>unit_of_work\<close> is its contract.
  \<^item> \<open>InventoryModel\<close>, \<open>InventoryRepository\<close>, \<open>InventoryService\<close>: \<open>domains/inventory/\<close> \<open>models.py\<close>,
    \<open>schemas.py\<close>, \<open>repository.py\<close> and \<open>service.py\<close>. \<open>Balances\<close>: \<open>balances.py\<close>, \<open>verify_stock_balances.py\<close>,
    \<open>reconcile_stock_balances.py\<close> and the backfill migration; the locale \<open>checkpointed_ledger\<close> says that
    a checkpoint moves the base of the derivation and not its value. \<open>LedgerPruner\<close>:
    \<open>prune_movement_ledger.py\<close>. \<open>InventorySystem\<close>: the step relation of all of them, its invariant
    (balances are what the ledger derives, no stock is negative, constraints hold) and the properties
    of the requests.
  \<^item> \<open>WeeklyKpis\<close>: \<open>weekly_kpis.py\<close>, the validation, deduplication and counting of events.
  \<^item> \<open>ReportQueue\<close>, \<open>ReportQueueSystem\<close>: \<open>queue.py\<close> and its state machine (one run at a time, leases,
    attempts with their evidence, retries).
  \<^item> \<open>Rollups\<close>: \<open>rollups.py\<close>, the hourly rows, their reconciliation with the source and the weekly rows.
  \<^item> \<open>ReportRunner\<close>: \<open>retries.py\<close>, \<open>direct_executor.py\<close>, \<open>runner.py\<close>; the world of a worker, in which every
    transaction may fail, commit without an answer or find that others have changed the database.
  \<^item> \<open>ReportWorker\<close>: \<open>worker.py\<close>, \<open>dispatcher.py\<close>, \<open>executor_selection.py\<close>. \<open>ReportApi\<close>: \<open>domains/reporting/\<close>
    \<open>status.py\<close>, \<open>repository.py\<close>, \<open>service.py\<close> and the evidence of \<open>health.py\<close>.
  \<^item> \<open>AuthVerifier\<close>: \<open>packages/trackflow_auth/trackflow_auth/verifier.py\<close> and \<open>core/dependencies.py\<close> of the central
    API, with the JWT library as a parameter. \<open>IdentityStore\<close>, \<open>IdentityService\<close>: \<open>models.py\<close>,
    \<open>repository.py\<close>, \<open>service.py\<close>, \<open>dependencies.py\<close>, \<open>cli.py\<close> and the handlers of \<open>main.py\<close> of the identity
    service; the locale \<open>burnable\<close> is the contract of the rows that are only ever marked as dead.
    \<open>IdentitySystem\<close>: its requests as steps, the invariant of the tables, reuse detection, recovery and
    the last administrator. \<open>AccessTokens\<close>: from the claims the service signs to the principal the
    verifier returns. \<open>OAuth\<close>: \<open>oauth.py\<close> and \<open>oauth_routes.py\<close>, codes with PKCE, the grants and their limits.
  \<^item> \<open>RfpPricing\<close>: \<open>domains/rfp/pricing.py\<close>, the quote in exact decimals. \<open>RfpEvaluators\<close>: \<open>readability.py\<close>
    and \<open>evaluators.py\<close>, with the scanners of their patterns. \<open>AgentUsage\<close>: \<open>domains/agents/pricing.py\<close> and
    \<open>recorder.py\<close>. \<open>RfpModel\<close>: the tables and repository. \<open>RfpIntake\<close>: \<open>document.py\<close>, \<open>config.py\<close>, \<open>agents.py\<close>,
    \<open>graph.py\<close>, \<open>intake.py\<close>. \<open>RfpDrafting\<close>: \<open>generation.py\<close>, the redrafting loop with its cap. \<open>RfpApproval\<close>:
    \<open>approval.py\<close> and \<open>service.py\<close>, the threads of the departments. \<open>RfpSystem\<close>: requests, jobs and crashes
    interleaved between any two commits; its invariant ties done tickets to approved sections.

  \<^bold>\<open>Bounds.\<close> There is no fuel: the loops of the program are structural recursions (over a list of
  delays, of polls, of rows) or, for the deletion in batches, terminate because each batch removes a
  row, or stop at a cap the settings give. Python's integers are unbounded and so are the integers
  here; counters of PostgreSQL are taken not to overflow.

  \<^bold>\<open>Not modelled.\<close> HTTP routing, cookies and JSON; logging; the graph and memory of the chat agents,
  retrieval and forecasting, which orchestrate language models and numerical libraries; the front ends. Of the RFP desk the language
  model, retrieval, the text extraction of PDFs and the checkpointer's store are parameters, and the
  rendering of the filed proposal (\<open>render.py\<close>, \<open>pdf.py\<close>) is left out. The
  manifest lists every component with the reason.
\<close>

end
